(* ===== verification/Prelude.thy ===== *)
theory Prelude
  imports Main "HOL-Library.Code_Target_Nat"
begin

text \<open>
  Shared vocabulary of the development.

  Go's \<open>(T, error)\<close> results are values of \<open>'a result\<close>, a sum with the error on the left.
  An error value is kept as data: the message of \<open>fmt.Errorf\<close> and \<open>errors.New\<close>, the wrapping of
  \<open>errors.Wrap\<close> and \<open>mysql.NewError\<close>, a \<open>strconv.NumError\<close>, a JSON decoding error, an opaque error
  that came from code outside the repository, or a run-time panic (a failed type assertion).

  Methods of the session mutate shared state and may fail.  They are \<open>('s, 'a) action\<close>s:
  functions from the state to a result and the new state.  \<open>andThen\<close> is the sequencing
  \<open>x, err := f(); if err != nil { return err }; g(x)\<close>.

  The locale \<open>action_frame\<close> is the interface through which every component proves what its
  operations leave alone: a reflexive, transitive relation between the state before and after.
\<close>

section \<open>Errors and results\<close>

datatype num_err = ErrSyntax | ErrRange

datatype error =
    Err string
  | WrapErr error string
  | MySQLError nat error
  | NumError string string num_err
  | JSONError string
  | ExtError string
  | Panic string

type_synonym 'a result = "error + 'a"

named_theorems go_defs \<open>unfoldings of the small standard-library functions\<close>
named_theorems action_simps \<open>evaluation of state-and-error actions\<close>
named_theorems length_bounds \<open>scanners never lengthen their input\<close>

definition is_ok :: "'a result \<Rightarrow> bool" where
  "is_ok r = (case r of Inl _ \<Rightarrow> False | Inr _ \<Rightarrow> True)"

lemma is_ok_simps [simp]: "is_ok (Inl e) = False" "is_ok (Inr x) = True"
  by (simp_all add: is_ok_def)

lemma is_ok_iff: "is_ok r \<longleftrightarrow> (\<exists>x. r = Inr x)"
  by (cases r) auto

definition map_result :: "('a \<Rightarrow> 'b) \<Rightarrow> 'a result \<Rightarrow> 'b result" where
  "map_result f r = (case r of Inl e \<Rightarrow> Inl e | Inr x \<Rightarrow> Inr (f x))"

lemma map_result_simps [simp]:
  "map_result f (Inl e) = Inl e" "map_result f (Inr x) = Inr (f x)"
  by (simp_all add: map_result_def)

text \<open>
  \<open>traverse f xs\<close> is a loop \<open>for _, x := range xs\<close> that appends \<open>f(x)\<close> and returns at the first
  error.
\<close>

fun traverse :: "('a \<Rightarrow> 'b result) \<Rightarrow> 'a list \<Rightarrow> 'b list result" where
  "traverse f [] = Inr []"
| "traverse f (x # xs) =
     (case f x of Inl e \<Rightarrow> Inl e
      | Inr y \<Rightarrow> (case traverse f xs of Inl e \<Rightarrow> Inl e | Inr ys \<Rightarrow> Inr (y # ys)))"

lemma traverse_Inr: "traverse f xs = Inr ys \<longleftrightarrow> list_all2 (\<lambda>x y. f x = Inr y) xs ys"
proof (induction xs arbitrary: ys)
  case Nil
  then show ?case by auto
next
  case (Cons x xs)
  show ?case
  proof (cases "f x")
    case (Inr y)
    then show ?thesis
      by (cases "traverse f xs"; cases ys) (auto simp: Cons.IH [symmetric])
  qed (simp add: list_all2_Cons1)
qed

lemma traverse_length: "traverse f xs = Inr ys \<Longrightarrow> length ys = length xs"
  by (simp add: traverse_Inr list_all2_lengthD)

lemma traverse_cong [fundef_cong]:
  "xs = ys \<Longrightarrow> (\<And>x. x \<in> set ys \<Longrightarrow> f x = g x) \<Longrightarrow> traverse f xs = traverse g ys"
proof (induction xs arbitrary: ys)
  case (Cons x xs)
  then show ?case
    by (cases ys) (auto split: sum.splits)
qed simp

lemma traverse_Inl: "traverse f xs = Inl e \<Longrightarrow> \<exists>x \<in> set xs. f x = Inl e"
  by (induction xs) (auto split: sum.splits)

section \<open>Actions on a state\<close>

type_synonym ('s, 'a) action = "'s \<Rightarrow> 'a result \<times> 's"

definition ret :: "'a \<Rightarrow> ('s, 'a) action" where
  "ret x = (\<lambda>s. (Inr x, s))"

definition throw :: "error \<Rightarrow> ('s, 'a) action" where
  "throw e = (\<lambda>s. (Inl e, s))"

definition andThen :: "('s, 'a) action \<Rightarrow> ('a \<Rightarrow> ('s, 'b) action) \<Rightarrow> ('s, 'b) action" where
  "andThen m f = (\<lambda>s. case m s of (Inl e, s') \<Rightarrow> (Inl e, s') | (Inr x, s') \<Rightarrow> f x s')"

definition lift_result :: "'a result \<Rightarrow> ('s, 'a) action" where
  "lift_result r = (\<lambda>s. (r, s))"

definition mapErr :: "(error \<Rightarrow> error) \<Rightarrow> ('s, 'a) action \<Rightarrow> ('s, 'a) action" where
  "mapErr h m = (\<lambda>s. case m s of (Inl e, s') \<Rightarrow> (Inl (h e), s') | (Inr x, s') \<Rightarrow> (Inr x, s'))"

definition withState :: "('s \<Rightarrow> ('s, 'a) action) \<Rightarrow> ('s, 'a) action" where
  "withState f = (\<lambda>s. f s s)"

definition modify :: "('s \<Rightarrow> 's) \<Rightarrow> ('s, unit) action" where
  "modify f = (\<lambda>s. (Inr (), f s))"

lemma action_apply [action_simps]:
  "ret x s = (Inr x, s)"
  "throw e s = (Inl e, s)"
  "lift_result r s = (r, s)"
  "withState f s = f s s"
  "modify g s = (Inr (), g s)"
  by (simp_all add: ret_def throw_def lift_result_def withState_def modify_def)

lemma andThen_apply [action_simps]:
  "andThen m f s = (case m s of (Inl e, s') \<Rightarrow> (Inl e, s') | (Inr x, s') \<Rightarrow> f x s')"
  by (simp add: andThen_def)

lemma mapErr_apply [action_simps]:
  "mapErr h m s = (case m s of (Inl e, s') \<Rightarrow> (Inl (h e), s') | (Inr x, s') \<Rightarrow> (Inr x, s'))"
  by (simp add: mapErr_def)

section \<open>What an action leaves alone\<close>

locale action_frame =
  fixes R :: "'s \<Rightarrow> 's \<Rightarrow> bool"
  assumes frame_refl: "R s s"
    and frame_trans: "R s t \<Longrightarrow> R t u \<Longrightarrow> R s u"
begin

definition keeps :: "('s, 'a) action \<Rightarrow> bool" where
  "keeps m \<longleftrightarrow> (\<forall>s. R s (snd (m s)))"

lemma keepsI: "(\<And>s. R s (snd (m s))) \<Longrightarrow> keeps m"
  by (simp add: keeps_def)

lemma keepsD: "keeps m \<Longrightarrow> m s = (r, s') \<Longrightarrow> R s s'"
  by (metis keeps_def snd_conv)

lemma keeps_ret: "keeps (ret x)"
  by (rule keepsI) (simp add: action_simps frame_refl)

lemma keeps_throw: "keeps (throw e)"
  by (rule keepsI) (simp add: action_simps frame_refl)

lemma keeps_lift: "keeps (lift_result r)"
  by (rule keepsI) (simp add: action_simps frame_refl)

lemma keeps_andThen:
  assumes m: "keeps m" and f: "\<And>x. keeps (f x)"
  shows "keeps (andThen m f)"
proof (rule keepsI)
  fix s
  obtain r s' where ms: "m s = (r, s')" by (cases "m s")
  have "R s s'" using m ms by (rule keepsD)
  moreover have "R s' (snd (f x s'))" for x
    using f [of x] by (simp add: keeps_def)
  ultimately show "R s (snd (andThen m f s))"
    using ms by (auto simp: action_simps split: sum.splits intro: frame_trans)
qed

text \<open>A computed value is known behind its binding.\<close>

lemma keeps_lift_bind:
  assumes "\<And>x. m = Inr x \<Longrightarrow> keeps (f x)"
  shows "keeps (andThen (lift_result m) f)"
proof (rule keepsI)
  fix s
  show "R s (snd (andThen (lift_result m) f s))"
    using assms by (cases m) (auto simp: action_simps frame_refl keeps_def)
qed

lemma keeps_mapErr: "keeps m \<Longrightarrow> keeps (mapErr h m)"
  by (rule keepsI) (auto simp: action_simps split: prod.splits sum.splits dest: keepsD)

lemma keeps_withState: "(\<And>s. R s (snd (f s s))) \<Longrightarrow> keeps (withState f)"
  by (rule keepsI) (simp add: action_simps)

lemma keeps_withState_all: "(\<And>s. keeps (f s)) \<Longrightarrow> keeps (withState f)"
  by (rule keepsI) (simp add: action_simps keeps_def)

lemma keeps_modify: "(\<And>s. R s (g s)) \<Longrightarrow> keeps (modify g)"
  by (rule keepsI) (simp add: action_simps)

lemma keeps_if: "(b \<Longrightarrow> keeps m) \<Longrightarrow> (\<not> b \<Longrightarrow> keeps n) \<Longrightarrow> keeps (if b then m else n)"
  by simp

lemma keeps_sum:
  "(\<And>e. keeps (f e)) \<Longrightarrow> (\<And>x. keeps (g x)) \<Longrightarrow> keeps (case r of Inl e \<Rightarrow> f e | Inr x \<Rightarrow> g x)"
  by (cases r) simp_all

lemma keeps_option:
  "keeps m \<Longrightarrow> (\<And>x. keeps (g x)) \<Longrightarrow> keeps (case r of None \<Rightarrow> m | Some x \<Rightarrow> g x)"
  by (cases r) simp_all

lemmas keeps_intros =
  keeps_ret keeps_throw keeps_lift keeps_andThen keeps_mapErr keeps_withState_all
  keeps_modify keeps_if keeps_sum keeps_option

end

section \<open>Step functions and invariants\<close>

text \<open>
  A component driven by a sequence of inputs: a protocol loop or a server.  The invariant the
  component keeps at every step holds after every run.
\<close>

fun run_steps :: "('s \<Rightarrow> 'i \<Rightarrow> 's) \<Rightarrow> 's \<Rightarrow> 'i list \<Rightarrow> 's" where
  "run_steps step s [] = s"
| "run_steps step s (i # is) = run_steps step (step s i) is"

locale stepper =
  fixes step :: "'s \<Rightarrow> 'i \<Rightarrow> 's"
    and inv :: "'s \<Rightarrow> bool"
  assumes step_inv: "inv s \<Longrightarrow> inv (step s i)"
begin

lemma run_inv: "inv s \<Longrightarrow> inv (run_steps step s is)"
  by (induction "is" arbitrary: s) (simp_all add: step_inv)

end

lemma run_steps_append: "run_steps step s (xs @ ys) = run_steps step (run_steps step s xs) ys"
  by (induction xs arbitrary: s) simp_all

section \<open>Encoders and decoders\<close>

text \<open>
  An encoder whose decoder recovers the value, whatever text follows.  Everything the proxy
  splices into another language (SQL literals, quoted identifiers, filter strings) is proved to
  be an instance; the shared consequences are unambiguity and non-interference with the suffix.
\<close>

locale embedded_codec =
  fixes enc :: "'a \<Rightarrow> string"
    and dec :: "string \<Rightarrow> ('a \<times> string) option"
    and ok :: "string \<Rightarrow> bool"
  assumes dec_enc: "ok rest \<Longrightarrow> dec (enc x @ rest) = Some (x, rest)"
begin

lemma enc_inject: "ok r \<Longrightarrow> ok r' \<Longrightarrow> enc x @ r = enc y @ r' \<Longrightarrow> x = y \<and> r = r'"
  using dec_enc [of r x] dec_enc [of r' y] by (metis Pair_inject option.inject)

lemma enc_not_prefix: "ok [] \<Longrightarrow> ok r \<Longrightarrow> enc x @ r = enc y \<Longrightarrow> x = y \<and> r = []"
  using enc_inject [of r "[]" x y] unfolding append_Nil2 by blast

end

end
