(* ===== verification/GoStrings.thy ===== *)
theory GoStrings
  imports Prelude
begin

text \<open>
  The part of Go's \<open>strings\<close> and \<open>unicode\<close> packages the proxy uses, on byte strings: a Go string is
  its sequence of bytes, here a list of 8-bit characters, so \<open>length\<close> is \<open>len\<close> and a slice
  \<open>q[i:j]\<close> is a sublist.

  White space is Unicode's, as in \<open>strings.TrimSpace\<close> and \<open>strings.Fields\<close>: the list \<open>space_seqs\<close>
  holds the UTF-8 encoding of every code point for which \<open>unicode.IsSpace\<close> is true.
  The case mappings are exact wherever the result is compared with ASCII text, which is all the
  proxy does with them: besides the ASCII letters they map the code points outside ASCII whose
  upper case, lower case or case folding is an ASCII letter; every other byte is left alone.
\<close>

section \<open>Bytes\<close>

abbreviation byte :: "char \<Rightarrow> nat" where
  "byte c \<equiv> of_char c"

definition is_digit :: "char \<Rightarrow> bool" where
  "is_digit c \<longleftrightarrow> 48 \<le> byte c \<and> byte c \<le> 57"

definition is_lower :: "char \<Rightarrow> bool" where
  "is_lower c \<longleftrightarrow> 97 \<le> byte c \<and> byte c \<le> 122"

definition is_upper :: "char \<Rightarrow> bool" where
  "is_upper c \<longleftrightarrow> 65 \<le> byte c \<and> byte c \<le> 90"

definition is_ident_start :: "char \<Rightarrow> bool" where
  "is_ident_start c \<longleftrightarrow> is_lower c \<or> is_upper c \<or> c = CHR ''_''"

definition is_word :: "char \<Rightarrow> bool" where
  "is_word c \<longleftrightarrow> is_ident_start c \<or> is_digit c"

definition ascii_upper :: "char \<Rightarrow> char" where
  "ascii_upper c = (if is_lower c then char_of (byte c - 32) else c)"

definition ascii_lower :: "char \<Rightarrow> char" where
  "ascii_lower c = (if is_upper c then char_of (byte c + 32) else c)"

lemmas char_class_defs [go_defs] =
  is_digit_def is_lower_def is_upper_def is_ident_start_def is_word_def
  ascii_upper_def ascii_lower_def

section \<open>Prefixes and suffixes\<close>

fun strip_prefix :: "'a list \<Rightarrow> 'a list \<Rightarrow> 'a list option" where
  "strip_prefix [] s = Some s"
| "strip_prefix (p # ps) [] = None"
| "strip_prefix (p # ps) (c # s) = (if p = c then strip_prefix ps s else None)"

lemma strip_prefix_Some: "strip_prefix p s = Some r \<longleftrightarrow> s = p @ r"
  by (induction p s rule: strip_prefix.induct) auto

lemma strip_prefix_append [simp]: "strip_prefix p (p @ r) = Some r"
  by (simp add: strip_prefix_Some)

definition has_prefix :: "string \<Rightarrow> string \<Rightarrow> bool" where
  "has_prefix s p \<longleftrightarrow> strip_prefix p s \<noteq> None"

definition has_suffix :: "string \<Rightarrow> string \<Rightarrow> bool" where
  "has_suffix s p \<longleftrightarrow> strip_prefix (rev p) (rev s) \<noteq> None"

definition trim_prefix :: "string \<Rightarrow> string \<Rightarrow> string" where
  "trim_prefix s p = (case strip_prefix p s of None \<Rightarrow> s | Some r \<Rightarrow> r)"

definition trim_suffix :: "string \<Rightarrow> string \<Rightarrow> string" where
  "trim_suffix s p = (case strip_prefix (rev p) (rev s) of None \<Rightarrow> s | Some r \<Rightarrow> rev r)"

lemma has_prefix_iff: "has_prefix s p \<longleftrightarrow> (\<exists>r. s = p @ r)"
  by (auto simp: has_prefix_def strip_prefix_Some)

lemma has_suffix_iff: "has_suffix s p \<longleftrightarrow> (\<exists>r. s = r @ p)"
proof -
  have "has_suffix s p \<longleftrightarrow> (\<exists>r. rev s = rev p @ r)"
    by (auto simp: has_suffix_def strip_prefix_Some)
  also have "\<dots> \<longleftrightarrow> (\<exists>r. s = r @ p)"
    by (metis rev_append rev_rev_ident)
  finally show ?thesis .
qed

lemma trim_prefix_append [simp]: "trim_prefix (p @ r) p = r"
  by (simp add: trim_prefix_def)

lemma trim_suffix_append [simp]: "trim_suffix (r @ p) p = r"
  by (simp add: trim_suffix_def)

lemma trim_suffix_cases: "trim_suffix s p = s \<or> s = trim_suffix s p @ p"
proof (cases "has_suffix s p")
  case True
  then show ?thesis by (auto simp: has_suffix_iff)
next
  case False
  then show ?thesis by (simp add: trim_suffix_def has_suffix_def)
qed

lemma length_trim_suffix [length_bounds]: "length (trim_suffix s p) \<le> length s"
  using trim_suffix_cases [of s p] by (metis length_append le_add1 order_refl)

section \<open>White space\<close>

definition space_seqs :: "string list" where
  "space_seqs =
     [[CHR 0x09], [CHR 0x0A], [CHR 0x0B], [CHR 0x0C], [CHR 0x0D], [CHR 0x20],
      [CHR 0xC2, CHR 0x85], [CHR 0xC2, CHR 0xA0], [CHR 0xE1, CHR 0x9A, CHR 0x80],
      [CHR 0xE2, CHR 0x80, CHR 0x80], [CHR 0xE2, CHR 0x80, CHR 0x81],
      [CHR 0xE2, CHR 0x80, CHR 0x82], [CHR 0xE2, CHR 0x80, CHR 0x83],
      [CHR 0xE2, CHR 0x80, CHR 0x84], [CHR 0xE2, CHR 0x80, CHR 0x85],
      [CHR 0xE2, CHR 0x80, CHR 0x86], [CHR 0xE2, CHR 0x80, CHR 0x87],
      [CHR 0xE2, CHR 0x80, CHR 0x88], [CHR 0xE2, CHR 0x80, CHR 0x89],
      [CHR 0xE2, CHR 0x80, CHR 0x8A], [CHR 0xE2, CHR 0x80, CHR 0xA8],
      [CHR 0xE2, CHR 0x80, CHR 0xA9], [CHR 0xE2, CHR 0x80, CHR 0xAF],
      [CHR 0xE2, CHR 0x81, CHR 0x9F], [CHR 0xE3, CHR 0x80, CHR 0x80]]"

fun strip_any :: "string list \<Rightarrow> string \<Rightarrow> string option" where
  "strip_any [] s = None"
| "strip_any (p # ps) s =
     (case strip_prefix p s of Some r \<Rightarrow> Some r | None \<Rightarrow> strip_any ps s)"

lemma strip_any_Some: "strip_any ps s = Some r \<Longrightarrow> \<exists>p \<in> set ps. s = p @ r"
  by (induction ps s rule: strip_any.induct) (auto simp: strip_prefix_Some split: option.splits)

lemma strip_any_length [length_bounds]:
  assumes "[] \<notin> set ps" and "strip_any ps s = Some r"
  shows "length r < length s"
proof -
  from strip_any_Some [OF assms(2)] obtain p where "p \<in> set ps" "s = p @ r" by blast
  with assms(1) show ?thesis by (cases p) auto
qed

text \<open>Sequences without empty members: the guard makes the definition total.\<close>

function trim_seqs :: "string list \<Rightarrow> string \<Rightarrow> string" where
  "trim_seqs ps s =
     (if [] \<in> set ps then s
      else case strip_any ps s of None \<Rightarrow> s | Some r \<Rightarrow> trim_seqs ps r)"
  by pat_completeness auto
termination
  by (relation "measure (\<lambda>(ps, s). length s)") (auto intro: strip_any_length)

declare trim_seqs.simps [simp del]

definition trim_left :: "string \<Rightarrow> string" where
  "trim_left s = trim_seqs space_seqs s"

definition trim_right :: "string \<Rightarrow> string" where
  "trim_right s = rev (trim_seqs (map rev space_seqs) (rev s))"

definition trim_space :: "string \<Rightarrow> string" where
  "trim_space s = trim_right (trim_left s)"

lemma Nil_space_seqs [simp]: "[] \<notin> set space_seqs" "[] \<notin> set (map rev space_seqs)"
  by (simp_all add: space_seqs_def)

lemma trim_seqs_suffix: "\<exists>p. s = p @ trim_seqs ps s"
proof (induction ps s rule: trim_seqs.induct)
  case (1 ps s)
  show ?case
  proof (cases "[] \<in> set ps \<or> strip_any ps s = None")
    case True
    then show ?thesis by (auto simp: trim_seqs.simps [of ps s] split: option.splits)
  next
    case False
    then obtain r where r: "strip_any ps s = Some r" and ne: "[] \<notin> set ps" by auto
    from strip_any_Some [OF r] obtain p where "s = p @ r" by blast
    moreover from "1.IH" [OF ne r] obtain p' where "r = p' @ trim_seqs ps r" by blast
    ultimately have "s = (p @ p') @ trim_seqs ps r" by simp
    moreover have "trim_seqs ps s = trim_seqs ps r"
      using r ne by (simp add: trim_seqs.simps [of ps s])
    ultimately show ?thesis by metis
  qed
qed

lemma trim_seqs_stripped: "[] \<notin> set ps \<Longrightarrow> strip_any ps (trim_seqs ps s) = None"
proof (induction ps s rule: trim_seqs.induct)
  case (1 ps s)
  then show ?case
    by (cases "strip_any ps s") (simp_all add: trim_seqs.simps [of ps s])
qed

lemma trim_seqs_fixpoint: "strip_any ps s = None \<Longrightarrow> trim_seqs ps s = s"
  by (simp add: trim_seqs.simps)

lemma trim_space_infix: "\<exists>p q. s = p @ trim_space s @ q"
proof -
  obtain p where p: "s = p @ trim_left s"
    using trim_seqs_suffix unfolding trim_left_def by blast
  obtain q where "rev (trim_left s) = q @ trim_seqs (map rev space_seqs) (rev (trim_left s))"
    using trim_seqs_suffix by blast
  then have "trim_left s = trim_space s @ rev q"
    unfolding trim_space_def trim_right_def by (metis rev_append rev_rev_ident)
  with p show ?thesis by metis
qed

lemma length_trim_space [length_bounds]: "length (trim_space s) \<le> length s"
proof -
  obtain p q where "s = p @ trim_space s @ q" using trim_space_infix by blast
  then have "length s = length p + length (trim_space s) + length q"
    by (metis add.assoc length_append)
  then show ?thesis by simp
qed

text \<open>\<open>strings.Fields\<close>: the maximal runs of non-space.\<close>

function fields_from :: "string \<Rightarrow> string \<Rightarrow> string list" where
  "fields_from cur s =
     (case strip_any space_seqs s of
        Some r \<Rightarrow> (if cur = [] then fields_from [] r else rev cur # fields_from [] r)
      | None \<Rightarrow>
          (case s of
             [] \<Rightarrow> (if cur = [] then [] else [rev cur])
           | c # r \<Rightarrow> fields_from (c # cur) r))"
  by pat_completeness auto
termination
  by (relation "measure (\<lambda>(cur, s). length s)") (auto intro: strip_any_length [OF Nil_space_seqs(1)])

declare fields_from.simps [simp del]

definition fields :: "string \<Rightarrow> string list" where
  "fields s = fields_from [] s"

section \<open>Case\<close>

fun to_upper :: "string \<Rightarrow> string" where
  "to_upper (c # d # s) =
     (if c = CHR 0xC4 \<and> d = CHR 0xB1 then CHR ''I'' # to_upper s
      else if c = CHR 0xC5 \<and> d = CHR 0xBF then CHR ''S'' # to_upper s
      else ascii_upper c # to_upper (d # s))"
| "to_upper [c] = [ascii_upper c]"
| "to_upper [] = []"

fun to_lower :: "string \<Rightarrow> string" where
  "to_lower (c # d # e # s) =
     (if c = CHR 0xC4 \<and> d = CHR 0xB0 then CHR ''i'' # to_lower (e # s)
      else if c = CHR 0xE2 \<and> d = CHR 0x84 \<and> e = CHR 0xAA then CHR ''k'' # to_lower s
      else ascii_lower c # to_lower (d # e # s))"
| "to_lower [c, d] =
     (if c = CHR 0xC4 \<and> d = CHR 0xB0 then ''i'' else [ascii_lower c, ascii_lower d])"
| "to_lower [c] = [ascii_lower c]"
| "to_lower [] = []"

text \<open>Simple case folding, as \<open>strings.EqualFold\<close> compares.\<close>

fun fold_case :: "string \<Rightarrow> string" where
  "fold_case (c # d # e # s) =
     (if c = CHR 0xC5 \<and> d = CHR 0xBF then CHR ''s'' # fold_case (e # s)
      else if c = CHR 0xE2 \<and> d = CHR 0x84 \<and> e = CHR 0xAA then CHR ''k'' # fold_case s
      else ascii_lower c # fold_case (d # e # s))"
| "fold_case [c, d] =
     (if c = CHR 0xC5 \<and> d = CHR 0xBF then ''s'' else [ascii_lower c, ascii_lower d])"
| "fold_case [c] = [ascii_lower c]"
| "fold_case [] = []"

definition equal_fold :: "string \<Rightarrow> string \<Rightarrow> bool" where
  "equal_fold s t \<longleftrightarrow> fold_case s = fold_case t"

section \<open>Searching, splitting, joining\<close>

text \<open>\<open>strings.IndexByte\<close> and \<open>strings.Index\<close>; \<open>None\<close> stands for \<open>-1\<close>.\<close>

fun index_byte :: "string \<Rightarrow> char \<Rightarrow> nat option" where
  "index_byte [] c = None"
| "index_byte (x # s) c = (if x = c then Some 0 else map_option Suc (index_byte s c))"

fun index_of :: "string \<Rightarrow> string \<Rightarrow> nat option" where
  "index_of p s =
     (if has_prefix s p then Some 0
      else case s of [] \<Rightarrow> None | _ # r \<Rightarrow> map_option Suc (index_of p r))"

declare index_of.simps [simp del]

lemma index_byte_Some:
  "index_byte s c = Some n \<Longrightarrow> n < length s \<and> s ! n = c \<and> c \<notin> set (take n s)"
  by (induction s c arbitrary: n rule: index_byte.induct) (auto split: if_splits)

lemma index_byte_None: "index_byte s c = None \<longleftrightarrow> c \<notin> set s"
  by (induction s c rule: index_byte.induct) auto

lemma index_of_Some: "index_of p s = Some n \<Longrightarrow> n + length p \<le> length s \<and> has_prefix (drop n s) p"
proof (induction p s arbitrary: n rule: index_of.induct)
  case (1 p s)
  show ?case
  proof (cases "has_prefix s p")
    case True
    with "1.prems" have "n = 0" by (simp add: index_of.simps [of p s])
    with True show ?thesis by (auto simp: has_prefix_iff)
  next
    case False
    with "1.prems" obtain c r m where "s = c # r" "index_of p r = Some m" "n = Suc m"
      by (auto simp: index_of.simps [of p s] split: list.splits)
    with "1.IH" [OF False, of c r m] show ?thesis by auto
  qed
qed

text \<open>\<open>strings.Split\<close> on a single byte and \<open>strings.SplitN(s, sep, 2)\<close>.\<close>

fun split_on :: "char \<Rightarrow> string \<Rightarrow> string list" where
  "split_on c [] = [[]]"
| "split_on c (x # s) =
     (if x = c then [] # split_on c s
      else case split_on c s of [] \<Rightarrow> [[x]] | f # fs \<Rightarrow> (x # f) # fs)"

definition split2 :: "char \<Rightarrow> string \<Rightarrow> string list" where
  "split2 c s = (case index_byte s c of None \<Rightarrow> [s] | Some n \<Rightarrow> [take n s, drop (Suc n) s])"

text \<open>\<open>strings.Join\<close>.\<close>

fun join :: "string list \<Rightarrow> string \<Rightarrow> string" where
  "join [] sep = []"
| "join [x] sep = x"
| "join (x # y # xs) sep = x @ sep @ join (y # xs) sep"

lemma split_on_nonempty: "split_on c s \<noteq> []"
  by (induction c s rule: split_on.induct) (auto split: list.splits)

lemma join_split_on: "join (split_on c s) [c] = s"
proof (induction c s rule: split_on.induct)
  case (2 c x s)
  then show ?case
    using split_on_nonempty [of c s]
    by (cases "split_on c s"; cases "tl (split_on c s)") auto
qed simp

text \<open>\<open>strings.Trim(s, cutset)\<close> for an ASCII cutset.\<close>

definition trim_set :: "string \<Rightarrow> string \<Rightarrow> string" where
  "trim_set s cutset = rev (dropWhile (\<lambda>c. c \<in> set cutset) (rev (dropWhile (\<lambda>c. c \<in> set cutset) s)))"

text \<open>A \<open>strings.Replacer\<close> (or \<open>ReplaceAll\<close>) all of whose old strings are single bytes.\<close>

definition replace_bytes :: "(char \<Rightarrow> string) \<Rightarrow> string \<Rightarrow> string" where
  "replace_bytes f s = concat (map f s)"

lemma replace_bytes_simps [simp]:
  "replace_bytes f [] = []"
  "replace_bytes f (c # s) = f c @ replace_bytes f s"
  "replace_bytes f (s @ t) = replace_bytes f s @ replace_bytes f t"
  by (simp_all add: replace_bytes_def)

end
