(* ===== verification/GoFloat.thy ===== *)
theory GoFloat
  imports GoStrconv
begin

text \<open>
  Go's floating point numbers as their IEEE 754 bit patterns, \<open>float64\<close> in a 64-bit and \<open>float32\<close>
  in a 32-bit word, with the operations the proxy applies to them: \<open>strconv.ParseFloat\<close>, the
  shortest formatting of \<open>strconv.AppendFloat(.., fmt, -1, bits)\<close> and \<open>fmt.Sprint\<close>, the conversions
  between the two widths, and the tests for infinities and NaN.

  A finite value is an exact number \<open>mant * 2 ^ e\<close>; \<open>round_bits\<close> rounds an exact fraction to the
  nearest representable one, ties to even, which is what \<open>ParseFloat\<close> guarantees.  Shortest
  formatting tries one more decimal digit at a time until a decimal inside the rounding interval
  of the value appears, and takes the one nearest to the value.  Seventeen digits always suffice
  for \<open>float64\<close>; the search stops there.
\<close>

section \<open>Formats and bit patterns\<close>

type_synonym float64 = "64 word"
type_synonym float32 = "32 word"

record float_format =
  mantbits :: nat
  expbits :: nat
  bias :: int

definition float64info :: float_format where
  "float64info = \<lparr>mantbits = 52, expbits = 11, bias = - 1023\<rparr>"

definition float32info :: float_format where
  "float32info = \<lparr>mantbits = 23, expbits = 8, bias = - 127\<rparr>"

datatype fval = FNaN | FInf bool | FFin bool nat int

definition decode_bits :: "float_format \<Rightarrow> nat \<Rightarrow> fval" where
  "decode_bits f b =
     (let mant = b mod 2 ^ mantbits f;
          ex = (b div 2 ^ mantbits f) mod 2 ^ expbits f;
          neg = odd (b div 2 ^ (mantbits f + expbits f))
      in if ex = 2 ^ expbits f - 1 then (if mant = 0 then FInf neg else FNaN)
         else if ex = 0 then FFin neg mant (1 + bias f - int (mantbits f))
         else FFin neg (2 ^ mantbits f + mant) (int ex + bias f - int (mantbits f)))"

definition sign_bit :: "float_format \<Rightarrow> bool \<Rightarrow> nat" where
  "sign_bit f neg = (if neg then 2 ^ (mantbits f + expbits f) else 0)"

definition inf_bits :: "float_format \<Rightarrow> bool \<Rightarrow> nat" where
  "inf_bits f neg = sign_bit f neg + (2 ^ expbits f - 1) * 2 ^ mantbits f"

definition nan_bits :: "float_format \<Rightarrow> nat" where
  "nan_bits f = (2 ^ expbits f - 1) * 2 ^ mantbits f + 2 ^ (mantbits f - 1)"

section \<open>Rounding an exact fraction\<close>

fun bit_len :: "nat \<Rightarrow> nat" where
  "bit_len n = (if n < 2 then 0 else Suc (bit_len (n div 2)))"

declare bit_len.simps [simp del]

definition shl :: "nat \<Rightarrow> int \<Rightarrow> nat" where
  "shl n k = (if 0 \<le> k then n * 2 ^ nat k else n)"

text \<open>
  \<open>round_bits f neg num den\<close> rounds \<open>num / den\<close>; the first component is \<open>True\<close> on overflow, where
  the bits are those of infinity.
\<close>

definition round_bits :: "float_format \<Rightarrow> bool \<Rightarrow> nat \<Rightarrow> nat \<Rightarrow> bool \<times> nat" where
  "round_bits f neg num den =
     (if num = 0 then (False, sign_bit f neg)
      else
        let l0 = int (bit_len num) - int (bit_len den);
            l = (if shl num (- l0) < shl den l0 then l0 - 1 else l0);
            e = max (l - int (mantbits f)) (1 + bias f - int (mantbits f));
            n = shl num (- e);
            d = shl den e;
            q = n div d;
            r = n mod d;
            q' = (if d < 2 * r \<or> (2 * r = d \<and> odd q) then q + 1 else q);
            ex = (if q' < 2 ^ mantbits f then 0 else e + int (mantbits f) - bias f);
            \<comment> \<open>a carry out of the mantissa moves into the exponent field by itself\<close>
            b = (if q' < 2 ^ mantbits f then q'
                 else nat ex * 2 ^ mantbits f + (q' - 2 ^ mantbits f))
        in if inf_bits f False \<le> b then (True, inf_bits f neg)
           else (False, sign_bit f neg + b))"

section \<open>\<open>strconv.ParseFloat\<close>\<close>

definition is_hex_letter :: "char \<Rightarrow> bool" where
  "is_hex_letter c \<longleftrightarrow> 97 \<le> byte (ascii_lower c) \<and> byte (ascii_lower c) \<le> 102"

definition hex_digit_val :: "char \<Rightarrow> nat" where
  "hex_digit_val c = (if is_digit c then digit_val c else byte (ascii_lower c) - 87)"

text \<open>The mantissa loop of \<open>readFloat\<close>: digits seen, mantissa, number of digits after the point.\<close>

fun scan_mantissa :: "bool \<Rightarrow> bool \<Rightarrow> bool \<Rightarrow> nat \<Rightarrow> nat \<Rightarrow> string \<Rightarrow> bool \<times> nat \<times> nat \<times> string" where
  "scan_mantissa hex sawdot sawdigits m frac [] = (sawdigits, m, frac, [])"
| "scan_mantissa hex sawdot sawdigits m frac (c # s) =
     (if c = CHR ''_'' then scan_mantissa hex sawdot sawdigits m frac s
      else if c = CHR ''.'' then
        (if sawdot then (sawdigits, m, frac, c # s)
         else scan_mantissa hex True sawdigits m frac s)
      else if is_digit c \<or> hex \<and> is_hex_letter c then
        scan_mantissa hex sawdot True (m * (if hex then 16 else 10) + hex_digit_val c)
          (if sawdot then Suc frac else frac) s
      else (sawdigits, m, frac, c # s))"

text \<open>The exponent digits; the value stops growing at five digits, underscores are skipped.\<close>

fun scan_exp :: "nat \<Rightarrow> string \<Rightarrow> nat \<times> string" where
  "scan_exp e [] = (e, [])"
| "scan_exp e (c # s) =
     (if c = CHR ''_'' then scan_exp e s
      else if is_digit c then scan_exp (if e < 10000 then e * 10 + digit_val c else e) s
      else (e, c # s))"

definition strip_sign :: "string \<Rightarrow> bool \<times> string" where
  "strip_sign s =
     (case s of c # r \<Rightarrow> if c = CHR ''-'' then (True, r) else if c = CHR ''+'' then (False, r) else (False, s)
      | [] \<Rightarrow> (False, s))"

definition read_exponent :: "bool \<Rightarrow> string \<Rightarrow> int option" where
  "read_exponent hex s =
     (case s of
        [] \<Rightarrow> (if hex then None else Some 0)
      | c # r \<Rightarrow>
          if ascii_lower c = (if hex then CHR ''p'' else CHR ''e'') then
            (let (neg, t) = strip_sign r in
             case t of
               [] \<Rightarrow> None
             | d # _ \<Rightarrow>
                 if is_digit d then
                   (case scan_exp 0 t of (e, []) \<Rightarrow> Some (if neg then - int e else int e) | _ \<Rightarrow> None)
                 else None)
          else None)"

text \<open>\<open>underscoreOK\<close>; the state is the class of the previous character.\<close>

fun underscore_ok :: "bool \<Rightarrow> char \<Rightarrow> string \<Rightarrow> bool" where
  "underscore_ok hex saw [] = (saw \<noteq> CHR ''_'')"
| "underscore_ok hex saw (c # s) =
     (if is_digit c \<or> hex \<and> is_hex_letter c then underscore_ok hex CHR ''0'' s
      else if c = CHR ''_'' then saw = CHR ''0'' \<and> underscore_ok hex CHR ''_'' s
      else saw \<noteq> CHR ''_'' \<and> underscore_ok hex CHR ''!'' s)"

definition has_hex_prefix :: "string \<Rightarrow> bool" where
  "has_hex_prefix s =
     (case s of a # b # _ # _ \<Rightarrow> a = CHR ''0'' \<and> ascii_lower b = CHR ''x'' | _ \<Rightarrow> False)"

text \<open>The exact value of the text: sign, numerator, denominator.\<close>

definition read_float :: "string \<Rightarrow> (bool \<times> nat \<times> nat) option" where
  "read_float s0 =
     (let (neg, s) = strip_sign s0;
          hex = has_hex_prefix s;
          body = (if hex then drop 2 s else s);
          (sawdigits, m, frac, rest) = scan_mantissa hex False False 0 0 body
      in if \<not> sawdigits \<or> \<not> underscore_ok hex (if hex then CHR ''0'' else CHR ''^'') body then None
         else case read_exponent hex rest of
                None \<Rightarrow> None
              | Some e \<Rightarrow>
                  (let b = (if hex then 2 else 10);
                       k = e - int (if hex then 4 * frac else frac)
                   in Some (neg, if 0 \<le> k then m * b ^ nat k else m,
                            if 0 \<le> k then 1 else b ^ nat (- k))))"

definition special_float :: "float_format \<Rightarrow> string \<Rightarrow> nat option" where
  "special_float f s =
     (let (neg, r) = strip_sign s; l = map ascii_lower r in
      if l = ''inf'' \<or> l = ''infinity'' then Some (inf_bits f neg)
      else if map ascii_lower s = ''nan'' then Some (nan_bits f)
      else None)"

definition parse_float_bits :: "float_format \<Rightarrow> string \<Rightarrow> nat result" where
  "parse_float_bits f s =
     (case special_float f s of
        Some b \<Rightarrow> Inr b
      | None \<Rightarrow>
          (case read_float s of
             None \<Rightarrow> Inl (NumError ''ParseFloat'' s ErrSyntax)
           | Some (neg, num, den) \<Rightarrow>
               (case round_bits f neg num den of
                  (True, b) \<Rightarrow> Inl (NumError ''ParseFloat'' s ErrRange)
                | (False, b) \<Rightarrow> Inr b)))"

definition parse_float64 :: "string \<Rightarrow> float64 result" where
  "parse_float64 s = map_result word_of_nat (parse_float_bits float64info s)"

definition parse_float32 :: "string \<Rightarrow> float32 result" where
  "parse_float32 s = map_result word_of_nat (parse_float_bits float32info s)"

section \<open>Conversions\<close>

definition convert_bits :: "float_format \<Rightarrow> float_format \<Rightarrow> nat \<Rightarrow> nat" where
  "convert_bits f g b =
     (case decode_bits f b of
        FNaN \<Rightarrow> nan_bits g
      | FInf neg \<Rightarrow> inf_bits g neg
      | FFin neg m e \<Rightarrow> snd (round_bits g neg (shl m e) (shl 1 (- e))))"

definition float64_of_32 :: "float32 \<Rightarrow> float64" where
  "float64_of_32 w = word_of_nat (convert_bits float32info float64info (unat w))"

definition float32_of_64 :: "float64 \<Rightarrow> float32" where
  "float32_of_64 w = word_of_nat (convert_bits float64info float32info (unat w))"

definition is_finite64 :: "float64 \<Rightarrow> bool" where
  "is_finite64 w = (case decode_bits float64info (unat w) of FFin _ _ _ \<Rightarrow> True | _ \<Rightarrow> False)"

end
