(* ===== verification/GoFtoa.thy ===== *)
theory GoFtoa
  imports GoFloat
begin

text \<open>
  Shortest decimal formatting of floating point numbers: the digits \<open>strconv\<close> finds for precision
  \<open>-1\<close>, the layouts \<open>%e\<close>, \<open>%f\<close> and \<open>%g\<close>, and on top of them \<open>strconv.AppendFloat\<close>, \<open>fmt.Sprint\<close> and
  the number format of \<open>encoding/json\<close>.
\<close>

section \<open>Shortest digits\<close>

text \<open>Decimal exponent: the least \<open>k\<close> with \<open>v / q < 10 ^ k\<close>, for \<open>0 < v\<close>.\<close>

function leading_zeros :: "nat \<Rightarrow> nat \<Rightarrow> nat" where
  "leading_zeros v q = (if v = 0 \<or> q \<le> v * 10 then 0 else Suc (leading_zeros (v * 10) q))"
  by pat_completeness auto
termination
  by (relation "measure (\<lambda>(v, q). q - v)") auto

declare leading_zeros.simps [simp del]

definition dec_exp :: "nat \<Rightarrow> nat \<Rightarrow> int" where
  "dec_exp v q = (if q \<le> v then int (length (nat_dec (v div q))) else - int (leading_zeros v q))"

text \<open>
  \<open>n\<close> digits of \<open>v / q\<close>: round down or up if the result lies inside the rounding interval
  \<open>(lo / q, hi / q)\<close> (bounds included when \<open>incl\<close>), to the nearer one if both do.
\<close>

definition try_digits :: "nat \<Rightarrow> nat \<Rightarrow> nat \<Rightarrow> nat \<Rightarrow> bool \<Rightarrow> int \<Rightarrow> nat \<Rightarrow> nat option" where
  "try_digits v lo hi q incl k n =
     (let p = int n - k;
          sc = (if 0 \<le> p then 10 ^ nat p else 1);
          den = q * (if 0 \<le> p then 1 else 10 ^ nat (- p));
          dn = (v * sc) div den;
          rem = (v * sc) mod den;
          okdn = (lo * sc < dn * den \<or> incl \<and> lo * sc = dn * den);
          okup = ((dn + 1) * den < hi * sc \<or> incl \<and> (dn + 1) * den = hi * sc)
      in if rem = 0 then Some dn
         else if okdn \<and> okup then
           Some (if den < 2 * rem \<or> (2 * rem = den \<and> odd dn) then dn + 1 else dn)
         else if okdn then Some dn
         else if okup then Some (dn + 1)
         else None)"

fun search_digits :: "nat \<Rightarrow> nat \<Rightarrow> nat \<Rightarrow> nat \<Rightarrow> nat \<Rightarrow> bool \<Rightarrow> int \<Rightarrow> nat \<Rightarrow> nat \<times> nat" where
  "search_digits 0 v lo hi q incl k n =
     ((case try_digits v lo hi q incl k n of Some d \<Rightarrow> d
       | None \<Rightarrow> (v * 10 ^ nat (int n - k)) div q), n)"
| "search_digits (Suc fuel) v lo hi q incl k n =
     (case try_digits v lo hi q incl k n of
        Some d \<Rightarrow> (d, n)
      | None \<Rightarrow> search_digits fuel v lo hi q incl k (Suc n))"

text \<open>Digits without trailing zeros and the position of the decimal point: \<open>0.d1d2\<dots> * 10 ^ dp\<close>.\<close>

definition shortest_digits :: "float_format \<Rightarrow> nat \<Rightarrow> int \<Rightarrow> string \<times> int" where
  "shortest_digits f m e =
     (if m = 0 then ([], 0)
      else
        let up = (\<lambda>x. shl x (e - 2));
            v = up (4 * m);
            hi = up (4 * m + 2);
            lo = up (if 2 ^ mantbits f < m \<or> e = 1 + bias f - int (mantbits f)
                     then 4 * m - 2 else 4 * m - 1);
            q = shl 1 (2 - e);
            k = dec_exp v q;
            (d, n) = search_digits 17 v lo hi q (even m) k 0;
            s = nat_dec d
        in (rev (dropWhile (\<lambda>c. c = CHR ''0'') (rev s)), k + int (length s) - int n))"

section \<open>Layouts\<close>

definition digit_at :: "string \<Rightarrow> int \<Rightarrow> char" where
  "digit_at ds i = (if 0 \<le> i \<and> nat i < length ds then ds ! nat i else CHR ''0'')"

definition fmt_f :: "bool \<Rightarrow> string \<Rightarrow> int \<Rightarrow> string" where
  "fmt_f neg ds dp =
     (let prec = nat (int (length ds) - dp) in
      (if neg then ''-'' else '''') @
      (if 0 < dp then map (\<lambda>i. digit_at ds (int i)) [0..<nat dp] else ''0'') @
      (if prec = 0 then '''' else CHR ''.'' # map (\<lambda>i. digit_at ds (dp + int i)) [0..<prec]))"

definition fmt_e :: "bool \<Rightarrow> string \<Rightarrow> int \<Rightarrow> string" where
  "fmt_e neg ds dp =
     (let ex = (if ds = [] then 0 else dp - 1);
          digits = nat_dec (nat \<bar>ex\<bar>)
      in (if neg then ''-'' else '''') @ [digit_at ds 0] @
         (if length ds \<le> 1 then '''' else CHR ''.'' # tl ds) @
         ''e'' @ (if ex < 0 then ''-'' else ''+'') @
         (if length digits < 2 then CHR ''0'' # digits else digits))"

definition fmt_g :: "bool \<Rightarrow> string \<Rightarrow> int \<Rightarrow> string" where
  "fmt_g neg ds dp =
     (if dp - 1 < - 4 \<or> 6 \<le> dp - 1 then fmt_e neg ds dp else fmt_f neg ds dp)"

text \<open>\<open>AppendFloat(nil, v, verb, -1, bits)\<close>, with the layout as a function.\<close>

definition format_float :: "(bool \<Rightarrow> string \<Rightarrow> int \<Rightarrow> string) \<Rightarrow> float_format \<Rightarrow> nat \<Rightarrow> string" where
  "format_float layout f b =
     (case decode_bits f b of
        FNaN \<Rightarrow> ''NaN''
      | FInf neg \<Rightarrow> (if neg then ''-Inf'' else ''+Inf'')
      | FFin neg m e \<Rightarrow> (let (ds, dp) = shortest_digits f m e in layout neg ds dp))"

definition append_float64 :: "float64 \<Rightarrow> string" where
  "append_float64 w = format_float fmt_f float64info (unat w)"

definition sprint_float64 :: "float64 \<Rightarrow> string" where
  "sprint_float64 w = format_float fmt_g float64info (unat w)"

definition sprint_float32 :: "float32 \<Rightarrow> string" where
  "sprint_float32 w = format_float fmt_g float32info (unat w)"

text \<open>
  \<open>encoding/json\<close> for \<open>float32\<close>: \<open>%e\<close> outside \<open>[1e-6, 1e21)\<close>, with a one-digit negative exponent
  written without the leading zero; infinities and NaN are errors.
\<close>

definition json_layout :: "bool \<Rightarrow> string \<Rightarrow> int \<Rightarrow> string" where
  "json_layout neg ds dp =
     (if ds \<noteq> [] \<and> (dp \<le> - 6 \<or> 21 < dp) then
        (let t = fmt_e neg ds dp; n = length t in
         if 4 \<le> n \<and> t ! (n - 4) = CHR ''e'' \<and> t ! (n - 3) = CHR ''-'' \<and> t ! (n - 2) = CHR ''0''
         then take (n - 2) t @ [t ! (n - 1)] else t)
      else fmt_f neg ds dp)"

definition json_float32 :: "float32 \<Rightarrow> string result" where
  "json_float32 w =
     (case decode_bits float32info (unat w) of
        FFin _ _ _ \<Rightarrow> Inr (format_float json_layout float32info (unat w))
      | _ \<Rightarrow> Inl (Err (''json: unsupported value: '' @ sprint_float32 w)))"

end
