(* ===== verification/GoValue.thy ===== *)
theory GoValue
  imports GoFtoa
begin

text \<open>
  The dynamic values (\<open>interface{}\<close>) that flow through the proxy: parameters of prepared
  statements, column values read from Milvus and cells of result rows.  Each constructor is one
  Go type; integers keep their width.  \<open>GOther\<close> is a value of any other type: the type's name
  and the text \<open>fmt.Sprint\<close> gives for the value.
\<close>

datatype goval =
    GNil
  | GBool bool
  | GInt int64
  | GInt8 int8
  | GInt16 int16
  | GInt32 int32
  | GInt64 int64
  | GUint int64
  | GUint8 int8
  | GUint16 int16
  | GUint32 int32
  | GUint64 int64
  | GFloat32 float32
  | GFloat64 float64
  | GFloats "float32 list"
  | GBytes string
  | GString string
  | GOther string string

text \<open>The name \<open>%T\<close> prints.\<close>

fun type_name :: "goval \<Rightarrow> string" where
  "type_name GNil = ''<nil>''"
| "type_name (GBool _) = ''bool''"
| "type_name (GInt _) = ''int''"
| "type_name (GInt8 _) = ''int8''"
| "type_name (GInt16 _) = ''int16''"
| "type_name (GInt32 _) = ''int32''"
| "type_name (GInt64 _) = ''int64''"
| "type_name (GUint _) = ''uint''"
| "type_name (GUint8 _) = ''uint8''"
| "type_name (GUint16 _) = ''uint16''"
| "type_name (GUint32 _) = ''uint32''"
| "type_name (GUint64 _) = ''uint64''"
| "type_name (GFloat32 _) = ''float32''"
| "type_name (GFloat64 _) = ''float64''"
| "type_name (GFloats _) = ''[]float32''"
| "type_name (GBytes _) = ''[]uint8''"
| "type_name (GString _) = ''string''"
| "type_name (GOther n _) = n"

text \<open>
  The number a value of one of the integer types denotes, and \<open>None\<close> for every other type.
\<close>

fun int_value :: "goval \<Rightarrow> int option" where
  "int_value (GInt w) = Some (sint w)"
| "int_value (GInt8 w) = Some (sint w)"
| "int_value (GInt16 w) = Some (sint w)"
| "int_value (GInt32 w) = Some (sint w)"
| "int_value (GInt64 w) = Some (sint w)"
| "int_value (GUint w) = Some (uint w)"
| "int_value (GUint8 w) = Some (uint w)"
| "int_value (GUint16 w) = Some (uint w)"
| "int_value (GUint32 w) = Some (uint w)"
| "int_value (GUint64 w) = Some (uint w)"
| "int_value _ = None"

text \<open>
  \<open>fmt.Sprint\<close> of one operand.
\<close>

fun sprint :: "goval \<Rightarrow> string" where
  "sprint GNil = ''<nil>''"
| "sprint (GBool b) = format_bool b"
| "sprint (GFloat32 w) = sprint_float32 w"
| "sprint (GFloat64 w) = sprint_float64 w"
| "sprint (GFloats ws) = ''['' @ join (map sprint_float32 ws) '' '' @ '']''"
| "sprint (GBytes s) = ''['' @ join (map (\<lambda>c. itoa (int (byte c))) s) '' '' @ '']''"
| "sprint (GString s) = s"
| "sprint (GOther _ text) = text"
| "sprint v = (case int_value v of Some i \<Rightarrow> itoa i | None \<Rightarrow> '''')"

end
