(* ===== verification/GoQuote.thy ===== *)
theory GoQuote
  imports GoStrconv
begin

text \<open>
  \<open>strconv.Quote\<close>: how \<open>filterValue\<close> turns the bytes of a SQL string into a string literal of the
  Milvus filter language.  \<open>decode_rune\<close> is \<open>utf8.DecodeRuneInString\<close> (the error rune is
  \<open>0xFFFD\<close> with width 1), \<open>encode_rune\<close> is \<open>utf8.AppendRune\<close> on valid code points.

  \<open>unquote\<close> reads a literal back the way Go string literals are defined.  The result is that
  quoting is an \<open>embedded_codec\<close>: whatever bytes the SQL string holds, the literal ends exactly
  where \<open>Quote\<close> ended it, and denotes those bytes.
\<close>

abbreviation bslash :: char where "bslash \<equiv> CHR 0x5C"
abbreviation dquote :: char where "dquote \<equiv> CHR 0x22"
abbreviation squote :: char where "squote \<equiv> CHR 0x27"
abbreviation bquote :: char where "bquote \<equiv> CHR 0x60"

lemma char_of_quotes [simp]: "char_of (34::nat) = dquote" "char_of (92::nat) = bslash"
  by (simp_all add: char_of_eq_iff take_bit_eq_mod)

lemma byte_lt: "byte c < 256"
  using of_char_mod_256 [of c, where ?'a = nat] by (metis mod_less_divisor zero_less_numeral)

section \<open>UTF-8\<close>

definition cont :: "nat \<Rightarrow> nat \<Rightarrow> char \<Rightarrow> bool" where
  "cont lo hi c \<longleftrightarrow> lo \<le> byte c \<and> byte c \<le> hi"

definition lo2 :: "nat \<Rightarrow> nat" where
  "lo2 b = (if b = 0xE0 then 0xA0 else if b = 0xF0 then 0x90 else 0x80)"

definition hi2 :: "nat \<Rightarrow> nat" where
  "hi2 b = (if b = 0xED then 0x9F else if b = 0xF4 then 0x8F else 0xBF)"

definition rune_error :: nat where "rune_error = 0xFFFD"

text \<open>Two, three and four byte sequences; \<open>v\<close> holds the bits of the first byte.\<close>

fun decode2 :: "nat \<Rightarrow> string \<Rightarrow> nat \<times> nat" where
  "decode2 v (b # _) =
     (if cont 0x80 0xBF b then (v * 64 + (byte b - 0x80), 2) else (rune_error, 1))"
| "decode2 v _ = (rune_error, 1)"

fun decode3 :: "nat \<Rightarrow> nat \<Rightarrow> string \<Rightarrow> nat \<times> nat" where
  "decode3 a v (b # c # _) =
     (if cont (lo2 a) (hi2 a) b \<and> cont 0x80 0xBF c
      then ((v * 64 + (byte b - 0x80)) * 64 + (byte c - 0x80), 3) else (rune_error, 1))"
| "decode3 a v _ = (rune_error, 1)"

fun decode4 :: "nat \<Rightarrow> nat \<Rightarrow> string \<Rightarrow> nat \<times> nat" where
  "decode4 a v (b # c # d # _) =
     (if cont (lo2 a) (hi2 a) b \<and> cont 0x80 0xBF c \<and> cont 0x80 0xBF d
      then (((v * 64 + (byte b - 0x80)) * 64 + (byte c - 0x80)) * 64 + (byte d - 0x80), 4)
      else (rune_error, 1))"
| "decode4 a v _ = (rune_error, 1)"

fun decode_rune :: "string \<Rightarrow> nat \<times> nat" where
  "decode_rune [] = (rune_error, 0)"
| "decode_rune (a # s) =
     (if byte a < 0x80 then (byte a, 1)
      else if byte a < 0xC2 then (rune_error, 1)
      else if byte a \<le> 0xDF then decode2 (byte a - 0xC0) s
      else if byte a \<le> 0xEF then decode3 (byte a) (byte a - 0xE0) s
      else if byte a \<le> 0xF4 then decode4 (byte a) (byte a - 0xF0) s
      else (rune_error, 1))"

definition encode_rune :: "nat \<Rightarrow> string" where
  "encode_rune r =
     (if r < 0x80 then [char_of r]
      else if r < 0x800 then [char_of (0xC0 + r div 64), char_of (0x80 + r mod 64)]
      else if r < 0x10000
      then [char_of (0xE0 + r div 64 div 64), char_of (0x80 + r div 64 mod 64), char_of (0x80 + r mod 64)]
      else [char_of (0xF0 + r div 64 div 64 div 64), char_of (0x80 + r div 64 div 64 mod 64),
            char_of (0x80 + r div 64 mod 64), char_of (0x80 + r mod 64)])"

text \<open>Widths, and what \<open>encode_rune\<close> gives back on the bits of a sequence.\<close>

lemma decode2_width: "snd (decode2 v s) = 1 \<or> (snd (decode2 v s) = 2 \<and> 1 \<le> length s)"
  by (cases "(v, s)" rule: decode2.cases) auto

lemma decode3_width: "snd (decode3 a v s) = 1 \<or> (snd (decode3 a v s) = 3 \<and> 2 \<le> length s)"
  by (cases "(a, v, s)" rule: decode3.cases) auto

lemma decode4_width: "snd (decode4 a v s) = 1 \<or> (snd (decode4 a v s) = 4 \<and> 3 \<le> length s)"
  by (cases "(a, v, s)" rule: decode4.cases) auto

lemma decode_width:
  assumes "s \<noteq> []"
  shows "1 \<le> snd (decode_rune s) \<and> snd (decode_rune s) \<le> length s"
proof -
  from assms obtain a r where s: "s = a # r" by (cases s) auto
  define P where "P = (\<lambda>x::nat \<times> nat. 1 \<le> snd x \<and> snd x \<le> length s)"
  have 1: "P (x, 1)" for x by (simp add: P_def s)
  have 2: "P (decode2 v r)" for v using decode2_width [of v r] by (auto simp: P_def s)
  have 3: "P (decode3 b v r)" for b v using decode3_width [of b v r] by (auto simp: P_def s)
  have 4: "P (decode4 b v r)" for b v using decode4_width [of b v r] by (auto simp: P_def s)
  have "P (decode_rune s)"
    by (simp only: s decode_rune.simps 1 2 3 4 split: if_split) blast
  then show ?thesis by (simp add: P_def)
qed

lemma base64_digits:
  fixes v b :: nat
  assumes "b < 64"
  shows "(v * 64 + b) div 64 = v" "(v * 64 + b) mod 64 = b"
  using assms by simp_all

lemma cont_base64:
  assumes "cont 0x80 0xBF c"
  obtains n where "byte c - 0x80 = n" "n < 64" "char_of (0x80 + n) = c"
proof (rule that)
  show "byte c - 0x80 = byte c - 0x80" ..
  show "byte c - 0x80 < 64" using assms unfolding cont_def by arith
  show "char_of (0x80 + (byte c - 0x80)) = c" using assms by (simp add: cont_def)
qed

lemma cont_lo_hi: "cont (lo2 a) (hi2 a) c \<Longrightarrow> cont 0x80 0xBF c"
  by (auto simp: cont_def lo2_def hi2_def split: if_splits)

text \<open>The bounds on the second byte rule out overlong forms: the value needs its full width.\<close>

lemma decode2_encode:
  assumes "byte a = 0xC0 + v" "2 \<le> v" "v < 32" "decode2 v s = (r, 2)"
  shows "encode_rune r = a # take 1 s \<and> 0x80 \<le> r \<and> r < 0x200000 \<and> (\<forall>c \<in> set (take 1 s). 0x80 \<le> byte c)"
proof -
  from assms(4) obtain b t where s: "s = b # t" and b0: "cont 0x80 0xBF b"
    and r: "r = v * 64 + (byte b - 0x80)"
    by (cases "(v, s)" rule: decode2.cases) (auto split: if_splits)
  from b0 obtain x where x: "byte b - 0x80 = x" "x < 64" "char_of (0x80 + x) = b"
    by (rule cont_base64)
  have d: "r div 64 = v" "r mod 64 = x" using x r by (simp_all add: base64_digits)
  have "char_of (0xC0 + v) = a" using assms(1) by (metis char_of_char)
  moreover have "\<not> r < 0x80" "r < 0x800" using assms x r by linarith+
  ultimately show ?thesis
    using x d b0 by (simp add: encode_rune_def s cont_def)
qed

lemma decode3_encode:
  assumes "byte a = 0xE0 + v" "v < 16" "decode3 (byte a) v s = (r, 3)"
  shows "encode_rune r = a # take 2 s \<and> 0x80 \<le> r \<and> r < 0x200000 \<and> (\<forall>c \<in> set (take 2 s). 0x80 \<le> byte c)"
proof -
  from assms(3) obtain b c t where s: "s = b # c # t"
    and b0: "cont (lo2 (byte a)) (hi2 (byte a)) b" and c0: "cont 0x80 0xBF c"
    and r: "r = (v * 64 + (byte b - 0x80)) * 64 + (byte c - 0x80)"
    by (cases "(byte a, v, s)" rule: decode3.cases) (auto split: if_splits)
  from cont_lo_hi [OF b0] obtain x where x: "byte b - 0x80 = x" "x < 64" "char_of (0x80 + x) = b"
    by (rule cont_base64)
  from c0 obtain y where y: "byte c - 0x80 = y" "y < 64" "char_of (0x80 + y) = c"
    by (rule cont_base64)
  have r: "r = (v * 64 + x) * 64 + y" using r x y by simp
  have d: "r div 64 = v * 64 + x" "r mod 64 = y" using x y r by (simp_all only: base64_digits)
  have "v = 0 \<Longrightarrow> 0xA0 \<le> byte b" using b0 assms(1) by (simp add: cont_def lo2_def)
  then have "v = 0 \<Longrightarrow> 32 \<le> x" using x(1) by arith
  then have "32 \<le> x \<or> 1 \<le> v" by linarith
  moreover have r': "r = v * 4096 + x * 64 + y" by (simp add: r)
  ultimately have "0x800 \<le> r" by linarith
  then have "\<not> r < 0x80" "\<not> r < 0x800" by linarith+
  moreover have "r < 0x10000" using assms(2) x(2) y(2) r' by linarith
  moreover have "char_of (0xE0 + v) = a" using assms(1) by (metis char_of_char)
  ultimately show ?thesis
    using x y d cont_lo_hi [OF b0] c0 by (simp add: encode_rune_def s base64_digits cont_def)
qed

lemma decode4_encode:
  assumes "byte a = 0xF0 + v" "decode4 (byte a) v s = (r, 4)" "v \<le> 4"
  shows "encode_rune r = a # take 3 s \<and> 0x80 \<le> r \<and> r < 0x200000 \<and> (\<forall>c \<in> set (take 3 s). 0x80 \<le> byte c)"
proof -
  from assms(2) obtain b c d t where s: "s = b # c # d # t"
    and b0: "cont (lo2 (byte a)) (hi2 (byte a)) b" and c0: "cont 0x80 0xBF c"
    and d0: "cont 0x80 0xBF d"
    and r: "r = ((v * 64 + (byte b - 0x80)) * 64 + (byte c - 0x80)) * 64 + (byte d - 0x80)"
    by (cases "(byte a, v, s)" rule: decode4.cases) (auto split: if_splits)
  from cont_lo_hi [OF b0] obtain x where x: "byte b - 0x80 = x" "x < 64" "char_of (0x80 + x) = b"
    by (rule cont_base64)
  from c0 obtain y where y: "byte c - 0x80 = y" "y < 64" "char_of (0x80 + y) = c"
    by (rule cont_base64)
  from d0 obtain z where z: "byte d - 0x80 = z" "z < 64" "char_of (0x80 + z) = d"
    by (rule cont_base64)
  have r: "r = ((v * 64 + x) * 64 + y) * 64 + z" using r x y z by simp
  have d: "r div 64 div 64 div 64 = v" "r div 64 div 64 mod 64 = x" "r div 64 mod 64 = y" "r mod 64 = z"
    using x y z r by (simp_all only: base64_digits)
  have "v = 0 \<Longrightarrow> 0x90 \<le> byte b" using b0 assms(1) by (simp add: cont_def lo2_def)
  then have "v = 0 \<Longrightarrow> 16 \<le> x" using x(1) by arith
  then have "16 \<le> x \<or> 1 \<le> v" by linarith
  moreover have r': "r = v * 262144 + x * 4096 + y * 64 + z" by (simp add: r)
  ultimately have "0x10000 \<le> r" by linarith
  moreover have "r < 0x200000" using r' assms(3) x(2) y(2) z(2) by linarith
  ultimately have "\<not> r < 0x80" "\<not> r < 0x800" "\<not> r < 0x10000" "r < 0x200000" by linarith+
  moreover have "char_of (0xF0 + v) = a" using assms(1) by (metis char_of_char)
  ultimately show ?thesis
    using x y z d cont_lo_hi [OF b0] c0 d0 by (simp add: encode_rune_def s cont_def)
qed

text \<open>A valid sequence is reproduced by encoding its rune.\<close>

lemma decode2_one: "snd (decode2 v s) = 1 \<Longrightarrow> fst (decode2 v s) = rune_error"
  by (cases "(v, s)" rule: decode2.cases) (auto split: if_splits)

lemma decode3_one: "snd (decode3 b v s) = 1 \<Longrightarrow> fst (decode3 b v s) = rune_error"
  by (cases "(b, v, s)" rule: decode3.cases) (auto split: if_splits)

lemma decode4_one: "snd (decode4 b v s) = 1 \<Longrightarrow> fst (decode4 b v s) = rune_error"
  by (cases "(b, v, s)" rule: decode4.cases) (auto split: if_splits)

lemma decode_encode:
  assumes d: "decode_rune (a # s) = (r, w)" and ok: "\<not> (w = 1 \<and> r = rune_error)"
  shows "encode_rune r = take w (a # s) \<and> r < 0x200000 \<and> (r < 0x80 \<longrightarrow> r = byte a \<and> w = 1) \<and>
    (0x80 \<le> r \<longrightarrow> (\<forall>c \<in> set (take w (a # s)). 0x80 \<le> byte c))"
proof -
  consider "byte a < 0x80" | "0x80 \<le> byte a" "byte a < 0xC2"
    | "0xC2 \<le> byte a" "byte a \<le> 0xDF" | "0xE0 \<le> byte a" "byte a \<le> 0xEF"
    | "0xF0 \<le> byte a" "byte a \<le> 0xF4" | "0xF4 < byte a" by linarith
  then show ?thesis
  proof cases
    case 1
    with d show ?thesis by (auto simp: encode_rune_def)
  next
    case 2
    with d ok show ?thesis by simp
  next
    case 3
    then have e: "decode2 (byte a - 0xC0) s = (r, w)" using d by simp
    with ok decode2_width [of "byte a - 0xC0" s] decode2_one [of "byte a - 0xC0" s] have "w = 2" by auto
    moreover have "2 \<le> byte a - 0xC0" "byte a - 0xC0 < 32" using 3 by arith+
    ultimately show ?thesis using decode2_encode [of a "byte a - 0xC0" s r] e 3 by auto
  next
    case 4
    then have e: "decode3 (byte a) (byte a - 0xE0) s = (r, w)" using d by simp
    with ok decode3_width [of "byte a" "byte a - 0xE0" s] decode3_one [of "byte a" "byte a - 0xE0" s]
    have "w = 3" by auto
    moreover have "byte a - 0xE0 < 16" using 4 by arith
    ultimately show ?thesis using decode3_encode [of a "byte a - 0xE0" s r] e 4 by auto
  next
    case 5
    then have e: "decode4 (byte a) (byte a - 0xF0) s = (r, w)" using d by simp
    with ok decode4_width [of "byte a" "byte a - 0xF0" s] decode4_one [of "byte a" "byte a - 0xF0" s]
    have "w = 4" by auto
    moreover have "byte a - 0xF0 \<le> 4" using 5 by arith
    ultimately show ?thesis using decode4_encode [of a "byte a - 0xF0" s r] e 5 by auto
  next
    case 6
    with d ok show ?thesis by simp
  qed
qed

section \<open>Quoting\<close>

definition is_print :: "(nat \<Rightarrow> bool) \<Rightarrow> nat \<Rightarrow> bool" where
  "is_print tbl r =
     (if r \<le> 0xFF then (0x20 \<le> r \<and> r < 0x7F) \<or> (0xA1 \<le> r \<and> r \<noteq> 0xAD) else tbl r)"

definition hex_char :: "nat \<Rightarrow> char" where
  "hex_char n = (if n < 10 then char_of (48 + n) else char_of (87 + n))"

fun hex_digits :: "nat \<Rightarrow> nat \<Rightarrow> string" where
  "hex_digits 0 n = []"
| "hex_digits (Suc k) n = hex_digits k (n div 16) @ [hex_char (n mod 16)]"

text \<open>\<open>appendEscapedRune\<close> with the double quote; \<open>raw\<close> are the bytes \<open>AppendRune\<close> writes.\<close>

definition simple_escapes :: "(nat \<times> char) list" where
  "simple_escapes =
     [(7, CHR ''a''), (8, CHR ''b''), (12, CHR ''f''), (10, CHR ''n''), (13, CHR ''r''),
      (9, CHR ''t''), (11, CHR ''v'')]"

definition escape_rune :: "(nat \<Rightarrow> bool) \<Rightarrow> nat \<Rightarrow> string" where
  "escape_rune tbl r =
     (if r = 0x22 \<or> r = 0x5C then [bslash, char_of r]
      else if is_print tbl r then encode_rune r
      else case map_of simple_escapes r of
             Some c \<Rightarrow> [bslash, c]
           | None \<Rightarrow>
               if r < 0x20 \<or> r = 0x7F then [bslash, CHR ''x''] @ hex_digits 2 r
               else if r < 0x10000 then [bslash, CHR ''u''] @ hex_digits 4 r
               else [bslash, CHR ''U''] @ hex_digits 8 r)"

function quote_body :: "(nat \<Rightarrow> bool) \<Rightarrow> string \<Rightarrow> string" where
  "quote_body tbl s =
     (if s = [] then []
      else let (r, w) = decode_rune s in
        (if w = 1 \<and> r = rune_error
         then [bslash, CHR ''x''] @ hex_digits 2 (byte (hd s))
         else escape_rune tbl r) @ quote_body tbl (drop w s))"
  by pat_completeness auto
termination
proof (relation "measure (\<lambda>(tbl, s). length s)", simp)
  fix tbl :: "nat \<Rightarrow> bool" and s :: string and x r w
  assume "s \<noteq> []" "x = decode_rune s" "(r, w) = x"
  then show "((tbl, drop w s), tbl, s) \<in> measure (\<lambda>(tbl, s). length s)"
    using decode_width [of s] by (metis (no_types, lifting) case_prod_conv diff_less in_measure
        length_drop length_greater_0_conv less_le_trans snd_conv zero_less_one)
qed

declare quote_body.simps [simp del]

definition quote_string :: "(nat \<Rightarrow> bool) \<Rightarrow> string \<Rightarrow> string" where
  "quote_string tbl s = [dquote] @ quote_body tbl s @ [dquote]"

section \<open>Reading a quoted literal back\<close>

definition hex_val :: "char \<Rightarrow> nat" where
  "hex_val c = (if is_digit c then byte c - 48 else byte c - 87)"

definition hex_num :: "string \<Rightarrow> nat" where
  "hex_num s = foldl (\<lambda>n c. 16 * n + hex_val c) 0 s"

definition unescape_char :: "char \<Rightarrow> char option" where
  "unescape_char c =
     (if c = dquote \<or> c = bslash then Some c
      else map_option char_of (map_of (map prod.swap simple_escapes) c))"

text \<open>The bytes denoted by an escape whose text starts after the backslash, and what follows it.\<close>

definition read_escape :: "string \<Rightarrow> (string \<times> string) option" where
  "read_escape s =
     (case s of
        [] \<Rightarrow> None
      | c # t \<Rightarrow>
          if c = CHR ''x'' then Some ([char_of (hex_num (take 2 t))], drop 2 t)
          else if c = CHR ''u'' then Some (encode_rune (hex_num (take 4 t)), drop 4 t)
          else if c = CHR ''U'' then Some (encode_rune (hex_num (take 8 t)), drop 8 t)
          else (case unescape_char c of None \<Rightarrow> None | Some d \<Rightarrow> Some ([d], t)))"

lemma read_escape_length: "read_escape s = Some (x, t) \<Longrightarrow> length t < length s"
  by (auto simp: read_escape_def split: list.splits if_splits option.splits)

function unquote_body :: "string \<Rightarrow> (string \<times> string) option" where
  "unquote_body s =
     (case s of
        [] \<Rightarrow> None
      | c # t \<Rightarrow>
          if c = dquote then Some ([], t)
          else if c = bslash then
            (case read_escape t of
               None \<Rightarrow> None
             | Some (x, r) \<Rightarrow> map_option (\<lambda>(y, u). (x @ y, u)) (unquote_body r))
          else map_option (\<lambda>(y, u). (c # y, u)) (unquote_body t))"
  by pat_completeness auto
termination
  by (relation "measure length") (auto dest: read_escape_length)

declare unquote_body.simps [simp del]

definition unquote :: "string \<Rightarrow> (string \<times> string) option" where
  "unquote s = (case s of [] \<Rightarrow> None | c # t \<Rightarrow> if c = dquote then unquote_body t else None)"

lemma hex_val_char: "n < 16 \<Longrightarrow> hex_val (hex_char n) = n"
  by (auto simp: hex_val_def hex_char_def is_digit_def)

lemma length_hex_digits [simp]: "length (hex_digits k n) = k"
  by (induction k arbitrary: n) simp_all

lemma hex_num_digits: "hex_num (hex_digits k n) = n mod 16 ^ k"
proof (induction k arbitrary: n)
  case 0
  then show ?case by (simp add: hex_num_def)
next
  case (Suc k)
  have "hex_num (hex_digits (Suc k) n) = 16 * hex_num (hex_digits k (n div 16)) + n mod 16"
    by (simp add: hex_num_def hex_val_char)
  also have "\<dots> = n mod (16 * 16 ^ k)"
    by (simp add: Suc.IH mod_mult2_eq)
  finally show ?case by simp
qed

lemma unquote_body_raw:
  "\<forall>c \<in> set xs. c \<noteq> dquote \<and> c \<noteq> bslash \<Longrightarrow>
     unquote_body (xs @ t) = map_option (\<lambda>(y, u). (xs @ y, u)) (unquote_body t)"
proof (induction xs)
  case Nil
  then show ?case by (cases "unquote_body t") auto
next
  case (Cons x xs)
  then show ?case
    by (subst unquote_body.simps) (auto simp: option.map_comp o_def split_def)
qed

lemma unquote_body_escape:
  "read_escape t = Some (x, r) \<Longrightarrow>
     unquote_body (bslash # t) = map_option (\<lambda>(y, u). (x @ y, u)) (unquote_body r)"
  by (subst unquote_body.simps) simp

lemma read_escape_hex:
  "read_escape (CHR ''x'' # hex_digits 2 n @ t) = Some ([char_of (n mod 256)], t)"
  "read_escape (CHR ''u'' # hex_digits 4 n @ t) = Some (encode_rune (n mod 16 ^ 4), t)"
  "read_escape (CHR ''U'' # hex_digits 8 n @ t) = Some (encode_rune (n mod 16 ^ 8), t)"
  by (simp_all add: read_escape_def hex_num_digits)

lemma read_escape_simple:
  assumes "map_of simple_escapes r = Some c"
  shows "read_escape (c # t) = Some ([char_of r], t)"
  using assms
  by (auto simp: simple_escapes_def read_escape_def unescape_char_def split: if_splits)

text \<open>One rune, escaped or raw, is read back as the bytes it came from.\<close>

lemma unquote_escape_rune:
  assumes d: "decode_rune (a # s) = (r, w)" and ok: "\<not> (w = 1 \<and> r = rune_error)"
  shows "unquote_body (escape_rune tbl r @ t)
           = map_option (\<lambda>(y, u). (take w (a # s) @ y, u)) (unquote_body t)"
proof -
  note e = decode_encode [OF d ok]
  have small: "r < 0x80 \<Longrightarrow> take w (a # s) = [char_of r]" using e by auto
  consider (quoted) "r = 0x22 \<or> r = 0x5C"
    | (raw) "r \<noteq> 0x22" "r \<noteq> 0x5C" "is_print tbl r"
    | (simple) c where "r \<noteq> 0x22" "r \<noteq> 0x5C" "\<not> is_print tbl r" "map_of simple_escapes r = Some c"
    | (hex) "r \<noteq> 0x22" "r \<noteq> 0x5C" "\<not> is_print tbl r" "map_of simple_escapes r = None"
    by (cases "map_of simple_escapes r") blast+
  then show ?thesis
  proof cases
    case quoted
    then have "read_escape (char_of r # t) = Some ([char_of r], t)"
      by (auto simp: read_escape_def unescape_char_def)
    with quoted small show ?thesis
      by (auto simp: escape_rune_def unquote_body_escape)
  next
    case raw
    have "\<forall>c \<in> set (take w (a # s)). c \<noteq> dquote \<and> c \<noteq> bslash"
    proof (cases "r < 0x80")
      case True
      with small raw show ?thesis by (auto simp: of_char_eq_iff [symmetric, where ?'a = nat])
    next
      case False
      then have "\<forall>c \<in> set (take w (a # s)). 0x80 \<le> byte c" using e by simp
      then show ?thesis by force
    qed
    with raw e show ?thesis by (simp add: escape_rune_def unquote_body_raw)
  next
    case simple
    have "r < 0x80" using simple(4) by (auto simp: simple_escapes_def split: if_splits)
    with simple small read_escape_simple [OF simple(4)] show ?thesis
      by (simp add: escape_rune_def unquote_body_escape)
  next
    case hex
    show ?thesis
    proof (cases "r < 0x20 \<or> r = 0x7F")
      case True
      then have "r < 0x80" by linarith
      with True hex small show ?thesis
        by (simp add: escape_rune_def unquote_body_escape read_escape_hex)
    next
      case False
      with hex e show ?thesis
        by (simp add: escape_rune_def unquote_body_escape read_escape_hex)
    qed
  qed
qed

lemma unquote_quote_body: "unquote_body (quote_body tbl s @ dquote # t) = Some (s, t)"
proof (induction tbl s rule: quote_body.induct)
  case (1 tbl s)
  show ?case
  proof (cases s)
    case Nil
    then show ?thesis by (simp add: quote_body.simps unquote_body.simps)
  next
    case (Cons a q)
    obtain r w where d: "decode_rune (a # q) = (r, w)" by fastforce
    have IH: "unquote_body (quote_body tbl (drop w (a # q)) @ dquote # t) = Some (drop w (a # q), t)"
      using "1.IH" [OF _ refl, of r w] d Cons by simp
    show ?thesis
    proof (cases "w = 1 \<and> r = rune_error")
      case True
      then show ?thesis using IH d byte_lt [of a]
        by (simp add: Cons quote_body.simps [of tbl "a # q"] unquote_body_escape read_escape_hex
            del: decode_rune.simps)
    next
      case False
      then show ?thesis using IH d unquote_escape_rune [OF d False]
        by (auto simp add: Cons quote_body.simps [of tbl "a # q"] simp del: decode_rune.simps)
    qed
  qed
qed

interpretation quoted: embedded_codec "quote_string tbl" unquote "\<lambda>_. True" for tbl
  by unfold_locales (simp add: quote_string_def unquote_def unquote_quote_body)

end
