(* ===== verification/Sqlparser.thy ===== *)
theory Sqlparser
  imports GoValue
begin

text \<open>
  The syntax trees of \<open>github.com/xwb1989/sqlparser\<close> (the grammar is not part of the repository),
  with the node types and the fields the proxy looks at.  A node of any other type is kept as its
  Go type name.  The functions of the package are parameters, collected in the record \<open>sqlparser\<close>:
  the two parsers, the printer \<open>String\<close> for the three kinds of node it is applied to, the visiting
  order of \<open>Walk\<close>, and the result type of a column.
\<close>

section \<open>Expressions\<close>

datatype val_type = StrVal | IntVal | FloatVal | HexNum | HexVal | ValArg | BitVal

text \<open>\<open>TableName\<close> is empty when its name is.\<close>

record table_name =
  tn_name :: string
  tn_qualifier :: string

definition table_name_empty :: "table_name \<Rightarrow> bool" where
  "table_name_empty t \<longleftrightarrow> tn_name t = ''''"

text \<open>\<open>FuncExpr qualifier name distinct exprs\<close>; \<open>ComparisonExpr operator left right escape\<close>.\<close>

datatype expr =
    AndExpr expr expr
  | OrExpr expr expr
  | NotExpr expr
  | ParenExpr expr
  | ComparisonExpr string expr expr "expr option"
  | ColName table_name string
  | SQLVal val_type string
  | BoolVal bool
  | UnaryExpr string expr
  | ValTuple "expr list"
  | FuncExpr string string bool "select_expr list"
  | OtherExpr string
and select_expr =
    StarExpr table_name
  | AliasedExpr expr string
  | OtherSelectExpr string

fun expr_type :: "expr \<Rightarrow> string" where
  "expr_type (AndExpr _ _) = ''*sqlparser.AndExpr''"
| "expr_type (OrExpr _ _) = ''*sqlparser.OrExpr''"
| "expr_type (NotExpr _) = ''*sqlparser.NotExpr''"
| "expr_type (ParenExpr _) = ''*sqlparser.ParenExpr''"
| "expr_type (ComparisonExpr _ _ _ _) = ''*sqlparser.ComparisonExpr''"
| "expr_type (ColName _ _) = ''*sqlparser.ColName''"
| "expr_type (SQLVal _ _) = ''*sqlparser.SQLVal''"
| "expr_type (BoolVal _) = ''sqlparser.BoolVal''"
| "expr_type (UnaryExpr _ _) = ''*sqlparser.UnaryExpr''"
| "expr_type (ValTuple _) = ''sqlparser.ValTuple''"
| "expr_type (FuncExpr _ _ _ _) = ''*sqlparser.FuncExpr''"
| "expr_type (OtherExpr n) = n"

section \<open>Statements\<close>

datatype simple_table_expr = TableName table_name | OtherSimpleTable string

text \<open>\<open>AliasedTableExpr expr as hints\<close>: the flag says that index hints are present.\<close>

datatype table_expr =
    AliasedTableExpr simple_table_expr string bool
  | OtherTableExpr string

record limit =
  lim_offset :: "expr option"
  lim_rowcount :: expr

text \<open>Clauses that are only tested for presence are kept as their number of entries.\<close>

record select_stmt =
  sel_distinct :: string
  sel_exprs :: "select_expr list"
  sel_from :: "table_expr list"
  sel_where :: "expr option"
  sel_groupBy :: nat
  sel_having :: "expr option"
  sel_orderBy :: nat
  sel_limit :: "limit option"
  sel_lock :: string

datatype insert_rows = Values "expr list list" | OtherRows string

record insert_stmt =
  ins_action :: string
  ins_ignore :: string
  ins_table :: table_name
  ins_partitions :: nat
  ins_columns :: "string list"
  ins_rows :: insert_rows
  ins_onDup :: nat

record delete_stmt =
  del_targets :: nat
  del_tableExprs :: "table_expr list"
  del_partitions :: nat
  del_where :: "expr option"
  del_orderBy :: nat
  del_limit :: "limit option"

text \<open>\<open>ColumnType\<close>: the optional literals are the text of their \<open>SQLVal\<close>.\<close>

record column_type =
  ct_type :: string
  ct_autoincrement :: bool
  ct_default :: "string option"
  ct_onUpdate :: "string option"
  ct_comment :: "string option"
  ct_length :: "string option"
  ct_unsigned :: bool
  ct_zerofill :: bool
  ct_scale :: "string option"
  ct_charset :: string
  ct_collate :: string
  ct_keyOpt :: nat

record column_def =
  cd_name :: string
  cd_type :: column_type

record table_spec =
  ts_columns :: "column_def list"
  ts_indexes :: nat
  ts_options :: string

record ddl_stmt =
  ddl_action :: string
  ddl_table :: table_name
  ddl_newName :: table_name
  ddl_ifExists :: bool
  ddl_tableSpec :: "table_spec option"

record dbddl_stmt =
  db_action :: string
  db_name :: string

datatype statement =
    SelectStmt select_stmt
  | InsertStmt insert_stmt
  | DeleteStmt delete_stmt
  | DDLStmt ddl_stmt
  | DBDDLStmt dbddl_stmt
  | ShowStmt string
  | UseStmt string
  | OtherStmt string

text \<open>The nodes among those \<open>Walk\<close> visits that the proxy reacts to.\<close>

datatype sql_node = NComparison string expr expr | NLimit limit

text \<open>\<open>querypb.Type\<close>, the result of \<open>ColumnType.SQLType()\<close>.\<close>

datatype qtype =
    QINT8 | QINT16 | QINT32 | QINT64 | QFLOAT32 | QFLOAT64 | QTEXT | QVARCHAR
  | QDATE | QDATETIME | QOther string

record sqlparser =
  sp_parse :: "string \<Rightarrow> statement result"
  sp_parseStrictDDL :: "string \<Rightarrow> statement result"
  sp_exprString :: "expr \<Rightarrow> string"
  sp_selectExprString :: "select_expr \<Rightarrow> string"
  sp_tableExprString :: "table_expr \<Rightarrow> string"
  sp_walk :: "statement \<Rightarrow> sql_node list"
  sp_sqlType :: "column_type \<Rightarrow> qtype"
  sp_qtypeString :: "qtype \<Rightarrow> string"
  sp_vectorKeyword :: string

text \<open>Action strings and keywords of the package.\<close>

definition CreateStr :: string where "CreateStr = ''create''"
definition DropStr :: string where "DropStr = ''drop''"
definition ReplaceStr :: string where "ReplaceStr = ''replace''"


end
