(* ===== verification/SelectPlan.thy ===== *)
theory SelectPlan
  imports GoValue GoQuote Sqlparser
begin

text \<open>
  \<open>pkg/select_plan.go\<close>: what of a SELECT can be answered by one scalar query or one vector search.

  Go's zero values carry meaning here: a plan without a vector predicate has the empty string as
  its field, and a WHERE clause that consists of nothing but the vector predicate leaves no
  expression (\<open>None\<close>, Go's nil) for the scalar filter.  \<open>limit\<close> and \<open>offset\<close> are 64-bit words, so
  the sum of the two is the wrapping one.  The parameter \<open>tbl\<close> is the table of printable code
  points above Latin-1 that \<open>strconv.Quote\<close> consults; everything holds for any table.
\<close>

record select_plan =
  pl_table :: string
  pl_filter :: string
  pl_vectorField :: string
  pl_vectorExpr :: "expr option"
  pl_limit :: int64
  pl_offset :: int64

section \<open>Values\<close>

definition fieldIdentifier :: "string \<Rightarrow> bool" where
  "fieldIdentifier s = (case s of [] \<Rightarrow> False | c # t \<Rightarrow> is_ident_start c \<and> list_all is_word t)"

definition selectInteger :: "expr \<Rightarrow> int64 result" where
  "selectInteger e =
     (case e of
        SQLVal t v \<Rightarrow>
          if t = IntVal then
            (case parse_int v 64 of
               Inl _ \<Rightarrow> Inl (Err ''invalid LIMIT or OFFSET'')
             | Inr n \<Rightarrow> if n < 0 then Inl (Err ''invalid LIMIT or OFFSET'') else Inr (word_of_int n))
          else Inl (Err ''LIMIT and OFFSET must be non-negative integer literals'')
      | _ \<Rightarrow> Inl (Err ''LIMIT and OFFSET must be non-negative integer literals''))"

definition unsupported_value :: "expr \<Rightarrow> string result" where
  "unsupported_value e = Inl (Err (''unsupported WHERE value '' @ expr_type e))"

definition filterValue :: "(nat \<Rightarrow> bool) \<Rightarrow> expr \<Rightarrow> string result" where
  "filterValue tbl e =
     (case e of
        ColName q n \<Rightarrow> if table_name_empty q \<and> fieldIdentifier n then Inr n else unsupported_value e
      | SQLVal t v \<Rightarrow>
          (case t of StrVal \<Rightarrow> Inr (quote_string tbl v)
           | IntVal \<Rightarrow> Inr v | FloatVal \<Rightarrow> Inr v | _ \<Rightarrow> unsupported_value e)
      | BoolVal b \<Rightarrow> Inr (format_bool b)
      | UnaryExpr op x \<Rightarrow>
          if op = ''-'' \<or> op = ''+'' then
            (case x of
               SQLVal t v \<Rightarrow> if t = IntVal \<or> t = FloatVal then Inr (op @ v) else unsupported_value e
             | _ \<Rightarrow> unsupported_value e)
          else unsupported_value e
      | _ \<Rightarrow> unsupported_value e)"

section \<open>The scalar filter\<close>

definition is_literal :: "expr \<Rightarrow> bool" where
  "is_literal e = (case e of SQLVal _ _ \<Rightarrow> True | BoolVal _ \<Rightarrow> True | UnaryExpr _ _ \<Rightarrow> True | _ \<Rightarrow> False)"

definition filterItem :: "(nat \<Rightarrow> bool) \<Rightarrow> expr \<Rightarrow> string result" where
  "filterItem tbl x = (if is_literal x then filterValue tbl x else Inl (Err ''IN requires literals''))"

definition filterIn :: "(nat \<Rightarrow> bool) \<Rightarrow> string \<Rightarrow> expr \<Rightarrow> expr \<Rightarrow> string result" where
  "filterIn tbl op left right =
     (case filterValue tbl left of
        Inl e \<Rightarrow> Inl e
      | Inr l \<Rightarrow>
          (case right of
             ValTuple xs \<Rightarrow>
               map_result (\<lambda>items. l @ '' '' @ op @ '' ['' @ join items '','' @ '']'') (traverse (filterItem tbl) xs)
           | _ \<Rightarrow> Inl (Err ''IN requires a literal list'')))"

definition filterCompare ::
  "(nat \<Rightarrow> bool) \<Rightarrow> string \<Rightarrow> expr \<Rightarrow> expr \<Rightarrow> expr option \<Rightarrow> string result" where
  "filterCompare tbl op left right escape =
     (if escape \<noteq> None then Inl (Err ''ESCAPE is not supported'')
      else
        (case filterValue tbl left of
           Inl e \<Rightarrow> Inl e
         | Inr l \<Rightarrow> map_result (\<lambda>r. l @ '' '' @ op @ '' '' @ r) (filterValue tbl right)))"

text \<open>The operator switch of the comparison case.\<close>

definition filterComparison ::
  "(nat \<Rightarrow> bool) \<Rightarrow> string \<Rightarrow> expr \<Rightarrow> expr \<Rightarrow> expr option \<Rightarrow> string result" where
  "filterComparison tbl op left right escape =
     (if op = ''='' then filterCompare tbl ''=='' left right escape
      else if op = ''!='' \<or> op = ''<>'' then filterCompare tbl ''!='' left right escape
      else if op = ''in'' \<or> op = ''not in'' then filterIn tbl op left right
      else if op = ''like'' then
        (case right of
           SQLVal _ _ \<Rightarrow> filterCompare tbl op left right escape
         | _ \<Rightarrow> Inl (Err ''LIKE requires a string literal''))
      else if op \<in> set [''<'', ''<='', ''>'', ''>=''] then filterCompare tbl op left right escape
      else Inl (Err (''unsupported WHERE operator '' @ op)))"

definition filterPair :: "string result \<Rightarrow> string result \<Rightarrow> string \<Rightarrow> string result" where
  "filterPair a b op =
     (case a of Inl e \<Rightarrow> Inl e
      | Inr x \<Rightarrow> map_result (\<lambda>y. ''('' @ x @ '' '' @ op @ '' '' @ y @ '')'') b)"

fun scalarFilter :: "(nat \<Rightarrow> bool) \<Rightarrow> expr \<Rightarrow> string result" where
  "scalarFilter tbl (AndExpr l r) = filterPair (scalarFilter tbl l) (scalarFilter tbl r) ''and''"
| "scalarFilter tbl (OrExpr l r) = filterPair (scalarFilter tbl l) (scalarFilter tbl r) ''or''"
| "scalarFilter tbl (NotExpr e) = map_result (\<lambda>x. ''not ('' @ x @ '')'') (scalarFilter tbl e)"
| "scalarFilter tbl (ParenExpr e) = map_result (\<lambda>x. ''('' @ x @ '')'') (scalarFilter tbl e)"
| "scalarFilter tbl (ComparisonExpr op l r escape) = filterComparison tbl op l r escape"
| "scalarFilter tbl e = Inl (Err (''unsupported WHERE expression '' @ expr_type e))"

section \<open>The vector predicate\<close>

text \<open>The test for \<open>field LIKE json_vector(...)\<close>, before the shape of the left side is checked.\<close>

definition is_vector_like :: "string \<Rightarrow> expr \<Rightarrow> bool" where
  "is_vector_like op right =
     (op = ''like'' \<and> (case right of FuncExpr _ n _ _ \<Rightarrow> equal_fold n ''json_vector'' | _ \<Rightarrow> False))"

definition vectorComparison ::
  "expr \<Rightarrow> string \<Rightarrow> expr \<Rightarrow> expr \<Rightarrow> expr option \<Rightarrow> (expr option \<times> string \<times> expr option) result" where
  "vectorComparison e op left right escape =
     (if is_vector_like op right then
        (case left of
           ColName q n \<Rightarrow>
             if \<not> table_name_empty q \<or> escape \<noteq> None then Inl (Err ''invalid vector predicate'')
             else Inr (None, n, Some right)
         | _ \<Rightarrow> Inl (Err ''invalid vector predicate''))
      else Inr (Some e, '''', None))"

definition joinAnd :: "expr option \<Rightarrow> expr option \<Rightarrow> expr option" where
  "joinAnd l r =
     (case (l, r) of (None, _) \<Rightarrow> r | (_, None) \<Rightarrow> l | (Some x, Some y) \<Rightarrow> Some (AndExpr x y))"

fun extractVector :: "expr \<Rightarrow> (expr option \<times> string \<times> expr option) result" where
  "extractVector (ParenExpr e) =
     map_result (\<lambda>(x, f, q). (map_option ParenExpr x, f, q)) (extractVector e)"
| "extractVector (AndExpr a b) =
     (case extractVector a of
        Inl e \<Rightarrow> Inl e
      | Inr (l, lf, lq) \<Rightarrow>
          (case extractVector b of
             Inl e \<Rightarrow> Inl e
           | Inr (r, rf, rq) \<Rightarrow>
               if lf \<noteq> '''' \<and> rf \<noteq> '''' then Inl (Err ''only one vector predicate is supported'')
               else if rf \<noteq> '''' then Inr (joinAnd l r, rf, rq)
               else Inr (joinAnd l r, lf, lq)))"
| "extractVector (ComparisonExpr op l r escape) =
     vectorComparison (ComparisonExpr op l r escape) op l r escape"
| "extractVector e = Inr (Some e, '''', None)"

section \<open>\<open>planSelect\<close>\<close>

definition plan_collection :: "table_expr list \<Rightarrow> string result" where
  "plan_collection from =
     (case from of
        [AliasedTableExpr t as_name hints] \<Rightarrow>
          (case t of
             TableName n \<Rightarrow>
               if as_name \<noteq> '''' \<or> hints \<or> tn_qualifier n \<noteq> ''''
               then Inl (Err ''subqueries, table aliases, hints and qualified tables are not supported'')
               else Inr (tn_name n)
           | _ \<Rightarrow> Inl (Err ''subqueries, table aliases, hints and qualified tables are not supported''))
      | [_] \<Rightarrow> Inl (Err ''joins are not supported'')
      | _ \<Rightarrow> Inl (Err ''SELECT requires one collection''))"

definition plan_projection :: "sqlparser \<Rightarrow> nat \<Rightarrow> select_expr \<Rightarrow> unit result" where
  "plan_projection sp n e =
     (case e of
        StarExpr t \<Rightarrow>
          if n \<noteq> 1 \<or> \<not> table_name_empty t
          then Inl (Err ''only an unqualified standalone * is supported'') else Inr ()
      | AliasedExpr x as_name \<Rightarrow>
          if as_name \<noteq> '''' then Inl (Err ''projection aliases are not supported'')
          else if equal_fold (sp_exprString sp x) ''count(*)'' \<and> n = 1 then Inr ()
          else (case x of
                  ColName q _ \<Rightarrow>
                    if \<not> table_name_empty q then Inl (Err ''projection must be an unqualified field'') else Inr ()
                | _ \<Rightarrow> Inl (Err ''projection must be an unqualified field''))
      | OtherSelectExpr _ \<Rightarrow> Inl (Err ''projection aliases are not supported''))"

text \<open>\<open>(filter, vectorField, vectorExpr)\<close> of the WHERE clause.\<close>

definition plan_where ::
  "(nat \<Rightarrow> bool) \<Rightarrow> expr option \<Rightarrow> (string \<times> string \<times> expr option) result" where
  "plan_where tbl w =
     (case w of
        None \<Rightarrow> Inr ('''', '''', None)
      | Some e \<Rightarrow>
          (case extractVector e of
             Inl err \<Rightarrow> Inl err
           | Inr (None, field, vector) \<Rightarrow> Inr ('''', field, vector)
           | Inr (Some x, field, vector) \<Rightarrow> map_result (\<lambda>f. (f, field, vector)) (scalarFilter tbl x)))"

text \<open>\<open>(limit, offset)\<close>, 100 and 0 when the statement has no LIMIT.\<close>

definition plan_limit :: "limit option \<Rightarrow> (int64 \<times> int64) result" where
  "plan_limit l =
     (case l of
        None \<Rightarrow> Inr (100, 0)
      | Some lim \<Rightarrow>
          (case selectInteger (lim_rowcount lim) of
             Inl e \<Rightarrow> Inl e
           | Inr n \<Rightarrow>
               (case lim_offset lim of
                  None \<Rightarrow> Inr (n, 0)
                | Some o' \<Rightarrow> map_result (\<lambda>k. (n, k)) (selectInteger o'))))"

definition window_ok :: "int64 \<Rightarrow> int64 \<Rightarrow> bool" where
  "window_ok l k \<longleftrightarrow> \<not> (16384 < sint l \<or> 16384 < sint k \<or> 16384 < sint (l + k))"

definition planSelect :: "sqlparser \<Rightarrow> (nat \<Rightarrow> bool) \<Rightarrow> select_stmt \<Rightarrow> select_plan result" where
  "planSelect sp tbl s =
     (if sel_distinct s \<noteq> '''' \<or> 0 < sel_groupBy s \<or> sel_having s \<noteq> None \<or> 0 < sel_orderBy s \<or> sel_lock s \<noteq> ''''
      then Inl (Err ''DISTINCT, GROUP BY, HAVING, ORDER BY and locking are not supported'')
      else
        (case plan_collection (sel_from s) of
           Inl e \<Rightarrow> Inl e
         | Inr table \<Rightarrow>
             (case traverse (plan_projection sp (length (sel_exprs s))) (sel_exprs s) of
                Inl e \<Rightarrow> Inl e
              | Inr _ \<Rightarrow>
                  (case plan_where tbl (sel_where s) of
                     Inl e \<Rightarrow> Inl e
                   | Inr (filt, field, vector) \<Rightarrow>
                       (case plan_limit (sel_limit s) of
                          Inl e \<Rightarrow> Inl e
                        | Inr (l, k) \<Rightarrow>
                            if \<not> window_ok l k then Inl (Err ''LIMIT + OFFSET must not exceed 16384'')
                            else Inr \<lparr>pl_table = table, pl_filter = filt, pl_vectorField = field,
                                      pl_vectorExpr = vector, pl_limit = l, pl_offset = k\<rparr>)))))"

end
