(* ===== verification/SelectProps.thy ===== *)
theory SelectProps
  imports SelectPlan
begin

text \<open>
  What a plan means.  SQL conditions have three truth values; the meaning of a condition is
  computed from any assignment of truth values to its comparisons.  Splitting off the vector
  predicate is right when the condition is the conjunction of what is left and of the predicate.
\<close>

section \<open>Three-valued conditions\<close>

datatype truth = TFalse | TUnknown | TTrue

fun t_and :: "truth \<Rightarrow> truth \<Rightarrow> truth" where
  "t_and TTrue y = y"
| "t_and TFalse _ = TFalse"
| "t_and TUnknown y = (if y = TFalse then TFalse else TUnknown)"

fun t_not :: "truth \<Rightarrow> truth" where
  "t_not TTrue = TFalse"
| "t_not TFalse = TTrue"
| "t_not TUnknown = TUnknown"

definition t_or :: "truth \<Rightarrow> truth \<Rightarrow> truth" where
  "t_or x y = t_not (t_and (t_not x) (t_not y))"

lemma t_and_TTrue [simp]: "t_and x TTrue = x"
  by (cases x) simp_all

lemma t_and_commute: "t_and x y = t_and y x"
  by (cases x; cases y) simp_all

lemma t_and_assoc: "t_and (t_and x y) z = t_and x (t_and y z)"
  by (cases x; cases y; cases z) simp_all

lemma t_and_left_commute: "t_and x (t_and y z) = t_and y (t_and x z)"
  by (cases x; cases y; cases z) simp_all

lemmas t_and_ac = t_and_assoc t_and_commute t_and_left_commute

fun truth_of :: "(expr \<Rightarrow> truth) \<Rightarrow> expr \<Rightarrow> truth" where
  "truth_of A (AndExpr l r) = t_and (truth_of A l) (truth_of A r)"
| "truth_of A (OrExpr l r) = t_or (truth_of A l) (truth_of A r)"
| "truth_of A (NotExpr e) = t_not (truth_of A e)"
| "truth_of A (ParenExpr e) = truth_of A e"
| "truth_of A e = A e"

definition opt_truth :: "(expr \<Rightarrow> truth) \<Rightarrow> expr option \<Rightarrow> truth" where
  "opt_truth A x = (case x of None \<Rightarrow> TTrue | Some e \<Rightarrow> truth_of A e)"

lemma opt_truth_simps [simp]:
  "opt_truth A None = TTrue" "opt_truth A (Some e) = truth_of A e"
  "opt_truth A (map_option ParenExpr x) = opt_truth A x"
  "opt_truth A (joinAnd x y) = t_and (opt_truth A x) (opt_truth A y)"
  by (auto simp: opt_truth_def joinAnd_def split: option.splits)

text \<open>The grammar has no empty identifiers.\<close>

fun vectors_named :: "expr \<Rightarrow> bool" where
  "vectors_named (AndExpr l r) = (vectors_named l \<and> vectors_named r)"
| "vectors_named (OrExpr l r) = (vectors_named l \<and> vectors_named r)"
| "vectors_named (NotExpr e) = vectors_named e"
| "vectors_named (ParenExpr e) = vectors_named e"
| "vectors_named (ComparisonExpr op (ColName q n) r escape) = (n \<noteq> '''')"
| "vectors_named e = True"

text \<open>The number of vector predicates anywhere in a condition.\<close>

fun vector_count :: "expr \<Rightarrow> nat" where
  "vector_count (AndExpr l r) = vector_count l + vector_count r"
| "vector_count (OrExpr l r) = vector_count l + vector_count r"
| "vector_count (NotExpr e) = vector_count e"
| "vector_count (ParenExpr e) = vector_count e"
| "vector_count (ComparisonExpr op l r escape) = (if is_vector_like op r then 1 else 0)"
| "vector_count e = 0"

lemma vectorComparison_Inr:
  "vectorComparison e op l r escape = Inr (x, f, v) \<longleftrightarrow>
     (if is_vector_like op r
      then escape = None \<and> x = None \<and> v = Some r \<and> (\<exists>q. l = ColName q f \<and> table_name_empty q)
      else x = Some e \<and> f = '''' \<and> v = None)"
  by (auto simp: vectorComparison_def split: expr.splits)

text \<open>The predicate the plan took out of the condition.\<close>

definition vector_predicate :: "string \<Rightarrow> expr \<Rightarrow> expr \<Rightarrow> bool" where
  "vector_predicate f v p \<longleftrightarrow> is_vector_like ''like'' v \<and>
     (\<exists>q. table_name_empty q \<and> p = ComparisonExpr ''like'' (ColName q f) v None)"

definition split_ok :: "expr \<Rightarrow> expr option \<Rightarrow> string \<Rightarrow> expr option \<Rightarrow> bool" where
  "split_ok e x f v \<longleftrightarrow>
     (if f = '''' then v = None \<and> x \<noteq> None \<and> (\<forall>A. truth_of A e = opt_truth A x)
      else \<exists>w p. v = Some w \<and> vector_predicate f w p \<and>
             (\<forall>A. truth_of A e = t_and (opt_truth A x) (A p)))"

lemma split_joinAnd:
  "split_ok a l '''' lq \<Longrightarrow> split_ok b r '''' rq \<Longrightarrow> split_ok (AndExpr a b) (joinAnd l r) '''' lq"
  "split_ok a l lf lq \<Longrightarrow> split_ok b r '''' rq \<Longrightarrow> lf \<noteq> '''' \<Longrightarrow> split_ok (AndExpr a b) (joinAnd l r) lf lq"
  "split_ok a l '''' lq \<Longrightarrow> split_ok b r rf rq \<Longrightarrow> rf \<noteq> '''' \<Longrightarrow> split_ok (AndExpr a b) (joinAnd l r) rf rq"
  by (auto simp: split_ok_def t_and_assoc) (auto simp: joinAnd_def t_and_ac split: option.splits)

lemma is_vector_like_op: "is_vector_like op r \<Longrightarrow> op = ''like''"
  by (simp add: is_vector_like_def)

lemma extractVector_split:
  "extractVector e = Inr (x, f, v) \<Longrightarrow> vectors_named e \<Longrightarrow> split_ok e x f v"
proof (induction e arbitrary: x f v rule: extractVector.induct)
  case (1 e)
  from 1 show ?case by (force simp: split_ok_def map_result_def split: sum.splits if_splits)
next
  case (2 a b)
  from 2(3) obtain l lf lq r rf rq where ab: "extractVector a = Inr (l, lf, lq)"
      "extractVector b = Inr (r, rf, rq)" "\<not> (lf \<noteq> '''' \<and> rf \<noteq> '''')"
      "x = joinAnd l r" "(f, v) = (if rf \<noteq> '''' then (rf, rq) else (lf, lq))"
    by (auto split: sum.splits if_splits)
  have "split_ok a l lf lq" "split_ok b r rf rq"
    using 2(1) [OF ab(1)] 2(2) [OF ab(1) refl refl ab(2)] 2(4) by auto
  moreover have "joinAnd l r \<noteq> None" if "l \<noteq> None"
    using that by (auto simp: joinAnd_def split: option.splits)
  ultimately show ?case
    using ab(3-5) by (auto split: if_splits intro: split_joinAnd)
next
  case (3 op l r escape)
  show ?case
  proof (cases "is_vector_like op r")
    case True
    with 3(1) obtain q where "op = ''like''" "l = ColName q f" "table_name_empty q" "escape = None"
        "x = None" "v = Some r"
      using is_vector_like_op [OF True] by (auto simp: vectorComparison_Inr)
    with 3(2) True show ?thesis
      by (auto simp: split_ok_def vector_predicate_def)
  qed (use 3 in \<open>simp add: vectorComparison_Inr split_ok_def\<close>)
qed (auto simp: split_ok_def)

lemma scalarFilter_no_vector: "scalarFilter tbl e = Inr s \<Longrightarrow> vector_count e = 0"
proof (induction tbl e arbitrary: s rule: scalarFilter.induct)
  case (5 tbl op l r escape)
  then show ?case
    by (auto simp: filterComparison_def is_vector_like_def split: if_splits expr.splits)
qed (auto simp: filterPair_def map_result_def split: sum.splits)

lemma extractVector_count:
  "extractVector e = Inr (x, f, v) \<Longrightarrow> vectors_named e \<Longrightarrow>
     vector_count e = (case x of None \<Rightarrow> 0 | Some y \<Rightarrow> vector_count y) + (if f = '''' then 0 else 1)"
proof (induction e arbitrary: x f v rule: extractVector.induct)
  case (1 e)
  then show ?case by (fastforce simp: map_result_def split: sum.splits option.splits)
next
  case (2 a b)
  from 2(3) obtain l lf lq r rf rq where ab: "extractVector a = Inr (l, lf, lq)"
      "extractVector b = Inr (r, rf, rq)" "\<not> (lf \<noteq> '''' \<and> rf \<noteq> '''')"
      "x = joinAnd l r" "(f, v) = (if rf \<noteq> '''' then (rf, rq) else (lf, lq))"
    by (auto split: sum.splits if_splits)
  have "vector_count a = (case l of None \<Rightarrow> 0 | Some y \<Rightarrow> vector_count y) + (if lf = '''' then 0 else 1)"
    "vector_count b = (case r of None \<Rightarrow> 0 | Some y \<Rightarrow> vector_count y) + (if rf = '''' then 0 else 1)"
    using 2(1) [OF ab(1)] 2(2) [OF ab(1) refl refl ab(2)] 2(4) by auto
  with ab(3-5) show ?case
    by (cases l; cases r; cases "rf = ''''"; cases "lf = ''''") (simp_all add: joinAnd_def)
next
  case (3 op l r escape)
  then show ?case by (auto simp: vectorComparison_Inr split: if_splits)
qed auto

section \<open>The window\<close>

lemma selectInteger_bounds: "selectInteger e = Inr w \<Longrightarrow> 0 \<le> sint w"
proof -
  assume "selectInteger e = Inr w"
  then obtain t v n where "e = SQLVal t v" "parse_int v 64 = Inr n" "0 \<le> n" "w = word_of_int n"
    by (auto simp: selectInteger_def split: expr.splits if_splits sum.splits)
  moreover from parse_int_bounds [OF this(2)] have "n < 2 ^ 63" "- (2 ^ 63) \<le> n" by simp_all
  ultimately show "0 \<le> sint w"
    by (simp add: sint_word_of_int_id)
qed

lemma plan_limit_bounds: "plan_limit l = Inr (n, k) \<Longrightarrow> 0 \<le> sint n \<and> 0 \<le> sint k"
  by (auto simp: plan_limit_def map_result_def dest: selectInteger_bounds split: option.splits sum.splits)

section \<open>Properties\<close>

lemma planSelect_Inr:
  "planSelect sp tbl s = Inr p \<Longrightarrow>
     plan_where tbl (sel_where s) = Inr (pl_filter p, pl_vectorField p, pl_vectorExpr p) \<and>
     plan_limit (sel_limit s) = Inr (pl_limit p, pl_offset p) \<and> window_ok (pl_limit p) (pl_offset p) \<and>
     plan_collection (sel_from s) = Inr (pl_table p)"
  by (auto simp: planSelect_def split: if_splits sum.splits)

lemma plan_where_Inr:
  "plan_where tbl (Some e) = Inr (filt, f, v) \<Longrightarrow>
     \<exists>x. extractVector e = Inr (x, f, v) \<and>
         (case x of None \<Rightarrow> filt = '''' | Some y \<Rightarrow> scalarFilter tbl y = Inr filt)"
proof (cases "extractVector e")
  case (Inr p)
  assume w: "plan_where tbl (Some e) = Inr (filt, f, v)"
  obtain x f' v' where p: "p = (x, f', v')" by (cases p)
  show ?thesis
  proof (cases x)
    case None
    with w Inr p show ?thesis by (simp add: plan_where_def)
  next
    case (Some y)
    with w Inr p show ?thesis by (cases "scalarFilter tbl y") (simp_all add: plan_where_def)
  qed
qed (simp add: plan_where_def)

lemma small_sum:
  fixes l k :: int64
  assumes "0 \<le> sint l" "sint l \<le> 16384" "0 \<le> sint k" "sint k \<le> 16384"
  shows "sint (l + k) = sint l + sint k"
proof -
  have "sint (word_of_int (sint l + sint k) :: int64) = sint l + sint k"
    using assms by (intro sint_word_of_int_id) simp_all
  moreover have "word_of_int (sint l + sint k) = l + k" by simp
  ultimately show ?thesis by metis
qed

lemma plan_window:
  assumes "planSelect sp tbl s = Inr p"
  shows "0 \<le> sint (pl_limit p)" "0 \<le> sint (pl_offset p)"
    "sint (pl_limit p + pl_offset p) = sint (pl_limit p) + sint (pl_offset p)"
    "sint (pl_limit p) + sint (pl_offset p) \<le> 16384"
proof -
  have w: "window_ok (pl_limit p) (pl_offset p)" "0 \<le> sint (pl_limit p)" "0 \<le> sint (pl_offset p)"
    using planSelect_Inr [OF assms] plan_limit_bounds by auto
  with small_sum [of "pl_limit p" "pl_offset p"] show "0 \<le> sint (pl_limit p)" "0 \<le> sint (pl_offset p)"
    "sint (pl_limit p + pl_offset p) = sint (pl_limit p) + sint (pl_offset p)"
    "sint (pl_limit p) + sint (pl_offset p) \<le> 16384"
    by (simp_all add: window_ok_def)
qed

text \<open>
  The result window of an accepted SELECT is bounded: neither bound is negative, the 64-bit sum
  does not wrap, and LIMIT + OFFSET is at most 16384.
\<close>

lemma planSelect_window:
  assumes "planSelect sp tbl s = Inr p"
  shows "0 \<le> sint (pl_limit p) \<and> 0 \<le> sint (pl_offset p) \<and>
    sint (pl_limit p + pl_offset p) = sint (pl_limit p) + sint (pl_offset p) \<and>
    sint (pl_limit p) + sint (pl_offset p) \<le> 16384"
  using plan_window [OF assms] by simp

text \<open>
  C3: A plan answers the condition it was given.  The scalar filter of the plan is the translation
  of a condition \<open>x\<close> (or empty, when nothing is left), and under every assignment of the three SQL
  truth values to comparisons the WHERE clause has the value of \<open>x\<close> in conjunction with the vector
  predicate the plan names.
\<close>

theorem planSelect_condition:
  assumes "planSelect sp tbl s = Inr p" and "sel_where s = Some e" and "vectors_named e"
  shows "\<exists>x. (case x of None \<Rightarrow> pl_filter p = '''' | Some y \<Rightarrow> scalarFilter tbl y = Inr (pl_filter p)) \<and>
    split_ok e x (pl_vectorField p) (pl_vectorExpr p)"
proof -
  obtain x where "extractVector e = Inr (x, pl_vectorField p, pl_vectorExpr p)"
    "case x of None \<Rightarrow> pl_filter p = '''' | Some y \<Rightarrow> scalarFilter tbl y = Inr (pl_filter p)"
    using planSelect_Inr [OF assms(1)] plan_where_Inr assms(2) by metis
  with extractVector_split [OF this(1) assms(3)] show ?thesis by blast
qed

text \<open>
  C4: No vector predicate is lost or demoted.  An accepted WHERE clause contains a vector predicate,
  at whatever depth, exactly when the plan is a vector search, and then exactly one: predicates
  under OR or NOT, or a second one, are refused.
\<close>

theorem planSelect_one_vector:
  assumes "planSelect sp tbl s = Inr p" and "sel_where s = Some e" and "vectors_named e"
  shows "vector_count e = (if pl_vectorField p = '''' then 0 else 1)"
proof -
  obtain x where x: "extractVector e = Inr (x, pl_vectorField p, pl_vectorExpr p)"
    "case x of None \<Rightarrow> pl_filter p = '''' | Some y \<Rightarrow> scalarFilter tbl y = Inr (pl_filter p)"
    using planSelect_Inr [OF assms(1)] plan_where_Inr assms(2) by metis
  with extractVector_count [OF x(1) assms(3)] scalarFilter_no_vector show ?thesis
    by (auto split: option.splits)
qed

section \<open>Instances\<close>

definition no_table :: table_name where
  "no_table = \<lparr>tn_name = '''', tn_qualifier = ''''\<rparr>"

definition sample_where :: expr where
  "sample_where =
     AndExpr (ComparisonExpr ''>'' (ColName no_table ''id'') (SQLVal IntVal ''5'') None)
       (ParenExpr (ComparisonExpr ''like'' (ColName no_table ''v'') (FuncExpr '''' ''JSON_VECTOR'' False []) None))"

definition sample_select :: select_stmt where
  "sample_select = \<lparr>sel_distinct = '''', sel_exprs = [StarExpr no_table],
     sel_from = [AliasedTableExpr (TableName \<lparr>tn_name = ''t'', tn_qualifier = ''''\<rparr>) '''' False],
     sel_where = Some sample_where, sel_groupBy = 0, sel_having = None, sel_orderBy = 0,
     sel_limit = Some \<lparr>lim_offset = Some (SQLVal IntVal ''384''), lim_rowcount = SQLVal IntVal ''16000''\<rparr>,
     sel_lock = ''''\<rparr>"

definition sample_plan :: select_plan where
  "sample_plan = \<lparr>pl_table = ''t'', pl_filter = ''id > 5'', pl_vectorField = ''v'',
     pl_vectorExpr = Some (FuncExpr '''' ''JSON_VECTOR'' False []), pl_limit = 16000, pl_offset = 384\<rparr>"

lemma sample_planned: "planSelect sp tbl sample_select = Inr sample_plan"
proof -
  have "plan_where tbl (Some sample_where)
      = Inr (''id > 5'', ''v'', Some (FuncExpr '''' ''JSON_VECTOR'' False []))"
    by code_simp
  moreover have "plan_limit (sel_limit sample_select) = Inr (16000, 384)" by code_simp
  moreover have "window_ok 16000 384" by code_simp
  ultimately show ?thesis
    by (simp add: planSelect_def sample_select_def sample_plan_def plan_collection_def plan_projection_def
        no_table_def table_name_empty_def)
qed

lemma sample_named: "vectors_named sample_where"
  by code_simp

theorem planSelect_condition_witness:
  "\<exists>x. (case x of None \<Rightarrow> pl_filter sample_plan = ''''
        | Some y \<Rightarrow> scalarFilter (\<lambda>_. False) y = Inr (pl_filter sample_plan)) \<and>
     split_ok sample_where x ''v'' (pl_vectorExpr sample_plan)"
  using planSelect_condition [where tbl = "\<lambda>_. False", OF sample_planned _ sample_named]
  by (simp add: sample_select_def sample_plan_def)

theorem planSelect_one_vector_witness: "vector_count sample_where = 1"
  using planSelect_one_vector [OF sample_planned _ sample_named]
  by (simp add: sample_select_def sample_plan_def)

end
