(* ===== verification/FilterText.thy ===== *)
theory FilterText
  imports SelectProps
begin

text \<open>
  The filter text \<open>scalarFilter\<close> builds is read by Milvus.  This theory defines the part of the
  filter language the proxy writes as a syntax tree with a reader, and the tree a SQL condition
  should become.  Reading the text back gives exactly that tree, whatever bytes the string
  literals hold: no literal can end early and no operator can bind differently from the SQL.
\<close>

section \<open>The filter language\<close>

datatype fvalue = FField string | FString string | FNumber string | FBool bool

datatype foper = FEq | FNe | FLt | FLe | FGt | FGe | FLike

datatype fexpr =
    FAnd fexpr fexpr
  | FOr fexpr fexpr
  | FNot fexpr
  | FGroup fexpr
  | FCompare foper fvalue fvalue
  | FIn bool fvalue "fvalue list"

definition reserved :: "string list" where
  "reserved = [''true'', ''false'', ''not'', ''and'', ''or'', ''in'', ''like'']"

definition is_num_char :: "char \<Rightarrow> bool" where
  "is_num_char c \<longleftrightarrow> is_digit c \<or> c \<in> set ''.eE+-''"

definition number_text :: "string \<Rightarrow> bool" where
  "number_text s \<longleftrightarrow> s \<noteq> [] \<and> \<not> is_ident_start (hd s) \<and> list_all is_num_char s"

definition read_word :: "string \<Rightarrow> fvalue" where
  "read_word w = (if w = ''true'' then FBool True else if w = ''false'' then FBool False else FField w)"

definition read_value :: "string \<Rightarrow> (fvalue \<times> string) option" where
  "read_value s =
     (case s of
        [] \<Rightarrow> None
      | c # t \<Rightarrow>
          if c = dquote then map_option (\<lambda>(x, r). (FString x, r)) (unquote s)
          else if is_ident_start c then Some (read_word (takeWhile is_word s), dropWhile is_word s)
          else if is_num_char c then Some (FNumber (takeWhile is_num_char s), dropWhile is_num_char s)
          else None)"

text \<open>The first keyword of a table that the text starts with.\<close>

fun read_keyword :: "(string \<times> 'a) list \<Rightarrow> string \<Rightarrow> ('a \<times> string) option" where
  "read_keyword [] s = None"
| "read_keyword ((k, x) # ks) s =
     (case strip_prefix k s of Some r \<Rightarrow> Some (x, r) | None \<Rightarrow> read_keyword ks s)"

definition compare_words :: "(string \<times> foper) list" where
  "compare_words =
     [('' == '', FEq), ('' != '', FNe), ('' <= '', FLe), ('' < '', FLt), ('' >= '', FGe), ('' > '', FGt),
      ('' like '', FLike)]"

definition in_words :: "(string \<times> bool) list" where
  "in_words = [('' in ['', True), ('' not in ['', False)]"

fun read_items :: "nat \<Rightarrow> string \<Rightarrow> (fvalue list \<times> string) option" where
  "read_items 0 s = None"
| "read_items (Suc n) s =
     (case strip_prefix '']'' s of
        Some r \<Rightarrow> Some ([], r)
      | None \<Rightarrow>
          (case read_value s of
             None \<Rightarrow> None
           | Some (v, r) \<Rightarrow>
               (case strip_prefix '']'' r of
                  Some r' \<Rightarrow> Some ([v], r')
                | None \<Rightarrow>
                    (case strip_prefix '','' r of
                       None \<Rightarrow> None
                     | Some r' \<Rightarrow> map_option (\<lambda>(vs, t). (v # vs, t)) (read_items n r')))))"

definition read_comparison :: "string \<Rightarrow> (fexpr \<times> string) option" where
  "read_comparison s =
     (case read_value s of
        None \<Rightarrow> None
      | Some (l, r) \<Rightarrow>
          (case read_keyword in_words r of
             Some (positive, t) \<Rightarrow> map_option (\<lambda>(vs, u). (FIn positive l vs, u)) (read_items (length t) t)
           | None \<Rightarrow>
               (case read_keyword compare_words r of
                  None \<Rightarrow> None
                | Some (op, t) \<Rightarrow> map_option (\<lambda>(v, u). (FCompare op l v, u)) (read_value t))))"

definition close :: "(fexpr \<Rightarrow> fexpr) \<Rightarrow> (fexpr \<times> string) option \<Rightarrow> (fexpr \<times> string) option" where
  "close f x =
     (case x of None \<Rightarrow> None
      | Some (e, r) \<Rightarrow> map_option (\<lambda>t. (f e, t)) (strip_prefix '')'' r))"

text \<open>\<open>Some f\<close> after the left operand of a pair, \<open>None\<close> when the parenthesis closes.\<close>

definition pair_words :: "(string \<times> (fexpr \<Rightarrow> fexpr \<Rightarrow> fexpr) option) list" where
  "pair_words = [('')'', None), ('' and '', Some FAnd), ('' or '', Some FOr)]"

fun read_expr :: "nat \<Rightarrow> string \<Rightarrow> (fexpr \<times> string) option" where
  "read_expr 0 s = None"
| "read_expr (Suc n) s =
     (case strip_prefix ''not ('' s of
        Some r \<Rightarrow> close FNot (read_expr n r)
      | None \<Rightarrow>
          (case strip_prefix ''('' s of
             Some r \<Rightarrow>
               (case read_expr n r of
                  None \<Rightarrow> None
                | Some (a, t) \<Rightarrow>
                    (case read_keyword pair_words t of
                       None \<Rightarrow> None
                     | Some (None, u) \<Rightarrow> Some (FGroup a, u)
                     | Some (Some f, u) \<Rightarrow> close (f a) (read_expr n u)))
           | None \<Rightarrow> read_comparison s))"

definition read_filter :: "string \<Rightarrow> (fexpr \<times> string) option" where
  "read_filter s = read_expr (length s) s"

section \<open>The tree of a SQL condition\<close>

definition value_tree :: "expr \<Rightarrow> fvalue option" where
  "value_tree e =
     (case e of
        ColName _ n \<Rightarrow> Some (FField n)
      | SQLVal t v \<Rightarrow>
          (case t of StrVal \<Rightarrow> Some (FString v) | IntVal \<Rightarrow> Some (FNumber v) | FloatVal \<Rightarrow> Some (FNumber v)
           | _ \<Rightarrow> None)
      | BoolVal b \<Rightarrow> Some (FBool b)
      | UnaryExpr op (SQLVal _ v) \<Rightarrow> Some (FNumber (op @ v))
      | _ \<Rightarrow> None)"

definition sql_operators :: "(string \<times> foper) list" where
  "sql_operators =
     [(''='', FEq), (''!='', FNe), (''<>'', FNe), (''<'', FLt), (''<='', FLe), (''>'', FGt), (''>='', FGe),
      (''like'', FLike)]"

fun comparison_tree :: "string \<Rightarrow> fvalue option \<Rightarrow> expr \<Rightarrow> fexpr option" where
  "comparison_tree op (Some l) (ValTuple xs) =
     (if op = ''in'' \<or> op = ''not in''
      then Some (FIn (op = ''in'') l (List.map_filter value_tree xs)) else None)"
| "comparison_tree op (Some l) r =
     (case (map_of sql_operators op, value_tree r) of
        (Some f, Some v) \<Rightarrow> Some (FCompare f l v)
      | _ \<Rightarrow> None)"
| "comparison_tree op None r = None"

fun tree2 :: "(fexpr \<Rightarrow> fexpr \<Rightarrow> fexpr) \<Rightarrow> fexpr option \<Rightarrow> fexpr option \<Rightarrow> fexpr option" where
  "tree2 f (Some a) (Some b) = Some (f a b)"
| "tree2 f _ _ = None"

fun filter_tree :: "expr \<Rightarrow> fexpr option" where
  "filter_tree (AndExpr l r) = tree2 FAnd (filter_tree l) (filter_tree r)"
| "filter_tree (OrExpr l r) = tree2 FOr (filter_tree l) (filter_tree r)"
| "filter_tree (NotExpr e) = map_option FNot (filter_tree e)"
| "filter_tree (ParenExpr e) = map_option FGroup (filter_tree e)"
| "filter_tree (ComparisonExpr op l r _) = comparison_tree op (value_tree l) r"
| "filter_tree e = None"

text \<open>What the tokenizer guarantees of numbers, and field names that are not words of the language.\<close>

definition value_ok :: "expr \<Rightarrow> bool" where
  "value_ok e =
     (case e of
        ColName _ n \<Rightarrow> n \<notin> set reserved
      | SQLVal t v \<Rightarrow> t = StrVal \<or> number_text v
      | UnaryExpr _ (SQLVal _ v) \<Rightarrow> number_text v
      | _ \<Rightarrow> True)"

fun condition_ok :: "expr \<Rightarrow> bool" where
  "condition_ok (AndExpr l r) = (condition_ok l \<and> condition_ok r)"
| "condition_ok (OrExpr l r) = (condition_ok l \<and> condition_ok r)"
| "condition_ok (NotExpr e) = condition_ok e"
| "condition_ok (ParenExpr e) = condition_ok e"
| "condition_ok (ComparisonExpr op l (ValTuple xs) _) = (value_ok l \<and> list_all value_ok xs)"
| "condition_ok (ComparisonExpr op l r _) = (value_ok l \<and> value_ok r)"
| "condition_ok e = True"

section \<open>Reading values\<close>

definition ends :: "string \<Rightarrow> bool" where
  "ends t \<longleftrightarrow> t = [] \<or> (\<not> is_word (hd t) \<and> \<not> is_num_char (hd t))"

lemma takeWhile_ends:
  "list_all P s \<Longrightarrow> t = [] \<or> \<not> P (hd t) \<Longrightarrow> takeWhile P (s @ t) = s \<and> dropWhile P (s @ t) = t"
  by (induction s) (cases t; auto)+

lemma ident_start_word [simp]: "is_ident_start c \<Longrightarrow> is_word c"
  by (simp add: is_word_def)

lemma ident_start_not_quote: "is_ident_start c \<Longrightarrow> c \<noteq> dquote"
  by (auto simp: is_ident_start_def is_lower_def is_upper_def)

lemma read_word_text:
  assumes "is_ident_start c" "list_all is_word u" "ends t"
  shows "read_value ((c # u) @ t) = Some (read_word (c # u), t)"
proof -
  have "takeWhile is_word ((c # u) @ t) = c # u \<and> dropWhile is_word ((c # u) @ t) = t"
    using assms by (intro takeWhile_ends) (auto simp: ends_def)
  with assms(1) ident_start_not_quote [OF assms(1)] show ?thesis by (simp add: read_value_def)
qed

lemma read_word_field:
  assumes "fieldIdentifier n" "n \<notin> set reserved" "ends t"
  shows "read_value (n @ t) = Some (FField n, t)"
proof -
  obtain c u where "n = c # u" "is_ident_start c" "list_all is_word u"
    using assms(1) by (auto simp: fieldIdentifier_def split: list.splits)
  moreover have "read_word n = FField n"
    using assms(2) by (auto simp: read_word_def reserved_def)
  ultimately show ?thesis using read_word_text [OF _ _ assms(3), of c u] by simp
qed

lemma is_num_char_not_quote: "is_num_char c \<Longrightarrow> c \<noteq> dquote"
  by (rule notI) (simp add: is_num_char_def is_digit_def)

lemma num_first: "number_text (c # s) \<Longrightarrow> c \<noteq> dquote \<and> \<not> is_ident_start c \<and> is_num_char c"
  using is_num_char_not_quote [of c] by (simp add: number_text_def)

lemma read_number:
  assumes "number_text s" "ends t"
  shows "read_value (s @ t) = Some (FNumber s, t)"
proof (cases s)
  case (Cons c u)
  have "takeWhile is_num_char ((c # u) @ t) = c # u \<and> dropWhile is_num_char ((c # u) @ t) = t"
    using assms unfolding Cons by (intro takeWhile_ends) (auto simp: ends_def number_text_def)
  with num_first [of c u] assms(1) show ?thesis
    unfolding Cons by (simp add: read_value_def)
qed (use assms in \<open>simp add: number_text_def\<close>)

lemma number_text_signed: "number_text v \<Longrightarrow> op = ''-'' \<or> op = ''+'' \<Longrightarrow> number_text (op @ v)"
  by (auto simp: number_text_def is_num_char_def is_ident_start_def is_lower_def is_upper_def)

lemma read_signed:
  "number_text v \<Longrightarrow> ends t \<Longrightarrow> read_value (CHR ''-'' # v @ t) = Some (FNumber (CHR ''-'' # v), t)"
  "number_text v \<Longrightarrow> ends t \<Longrightarrow> read_value (CHR ''+'' # v @ t) = Some (FNumber (CHR ''+'' # v), t)"
  using read_number [OF number_text_signed] by force+

lemma read_string: "read_value (quote_string tbl v @ t) = Some (FString v, t)"
  using quoted.dec_enc [where tbl = tbl and rest = t and x = v]
  by (simp add: read_value_def quote_string_def)

lemma read_bool: "ends t \<Longrightarrow> read_value (format_bool b @ t) = Some (FBool b, t)"
  using read_word_text [of "CHR ''t''" "''rue''" t] read_word_text [of "CHR ''f''" "''alse''" t]
  by (cases b) (simp_all add: format_bool_def read_word_def char_class_defs)

lemma filterValue_read:
  assumes "filterValue tbl e = Inr s" "value_ok e" "ends t"
  shows "\<exists>v. value_tree e = Some v \<and> read_value (s @ t) = Some (v, t) \<and> v \<noteq> FField ''not''"
  using assms
  by (auto simp: filterValue_def unsupported_value_def value_tree_def value_ok_def read_string read_bool
      read_word_field reserved_def
      intro: read_number read_signed
      split: expr.splits if_splits val_type.splits)

section \<open>Reading conditions\<close>

lemma read_value_start:
  assumes "read_value s = Some (v, t)"
  shows "strip_prefix '']'' s = None" "strip_prefix ''('' s = None"
    "v \<noteq> FField ''not'' \<Longrightarrow> strip_prefix ''not ('' s = None"
proof -
  have "\<not> is_num_char (CHR '']'') \<and> \<not> is_num_char (CHR ''('') \<and> \<not> is_ident_start (CHR '']'') \<and>
      \<not> is_ident_start (CHR ''('')"
    by code_simp
  with assms show "strip_prefix '']'' s = None" "strip_prefix ''('' s = None"
    by (cases s; auto simp: read_value_def)+
  have "read_value (''not ('' @ r) = Some (FField ''not'', '' ('' @ r)" for r
    using read_word_text [of "CHR ''n''" "''ot''" "'' ('' @ r"]
    by (simp add: char_class_defs ends_def is_num_char_def read_word_def)
  with assms show "strip_prefix ''not ('' s = None" if "v \<noteq> FField ''not''"
    using that by (cases "strip_prefix ''not ('' s") (auto simp: strip_prefix_Some)
qed

lemma ends_simps [simp]:
  "ends (CHR '' '' # t)" "ends (CHR '']'' # t)" "ends (CHR '','' # t)" "ends (CHR '')'' # t)" "ends []"
proof -
  have "\<not> is_word c \<and> \<not> is_num_char c" if "c \<in> set '' ],)''" for c
    using that by (auto simp: char_class_defs is_num_char_def)
  then show "ends (CHR '' '' # t)" "ends (CHR '']'' # t)" "ends (CHR '','' # t)" "ends (CHR '')'' # t)"
    "ends []"
    by (simp_all add: ends_def)
qed

lemma filterItem_read:
  assumes "filterItem tbl e = Inr s" "value_ok e" "ends t"
  shows "\<exists>v. value_tree e = Some v \<and> read_value (s @ t) = Some (v, t)"
  using assms filterValue_read [of tbl e s t] by (auto simp: filterItem_def split: if_splits)

lemma read_items_join:
  "traverse (filterItem tbl) xs = Inr items \<Longrightarrow> list_all value_ok xs \<Longrightarrow> max 1 (length xs) \<le> n \<Longrightarrow>
     read_items n (join items '','' @ '']'' @ t) = Some (List.map_filter value_tree xs, t)"
proof (induction xs arbitrary: items n)
  case Nil
  then show ?case by (cases n) (simp_all add: map_filter_simps)
next
  case (Cons x xs)
  from Cons.prems(1) obtain s ss where s: "filterItem tbl x = Inr s" "traverse (filterItem tbl) xs = Inr ss"
    "items = s # ss" by (auto split: sum.splits)
  from Cons.prems(3) obtain m where m: "n = Suc m" "length xs \<le> m" by (cases n) auto
  show ?case
  proof (cases xs)
    case Nil
    with filterItem_read [OF s(1), of "CHR '']'' # t"] Cons.prems(2)
    obtain v where "value_tree x = Some v" "read_value (s @ CHR '']'' # t) = Some (v, CHR '']'' # t)" by auto
    with read_value_start [OF this(2)] Nil s m show ?thesis by (simp add: map_filter_simps)
  next
    case (Cons y ys)
    let ?t = "CHR '','' # join ss '','' @ CHR '']'' # t"
    from filterItem_read [OF s(1), of ?t] Cons.prems(2)
    obtain v where v: "value_tree x = Some v" "read_value (s @ ?t) = Some (v, ?t)" by auto
    have "max 1 (length xs) \<le> m" using m Cons by simp
    with Cons.IH [OF s(2) _ this] Cons.prems(2)
    have IH: "read_items m (join ss '','' @ CHR '']'' # t) = Some (List.map_filter value_tree xs, t)" by simp
    have "ss \<noteq> []" using s(2) Cons traverse_length by fastforce
    then have "join items '','' = s @ CHR '','' # join ss '',''" using s(3) by (cases ss) simp_all
    with v read_value_start [OF v(2)] IH m(1) show ?thesis by (simp add: map_filter_simps)
  qed
qed

lemma length_join: "length xs \<le> length (join xs [c]) + 1"
  by (induction xs "[c]" rule: join.induct) simp_all

lemma compare_word:
  "(w, f) \<in> set compare_words \<Longrightarrow>
     read_keyword in_words (w @ r) = None \<and> read_keyword compare_words (w @ r) = Some (f, r)"
  by (auto simp: compare_words_def in_words_def)

definition reads_as :: "string \<Rightarrow> fexpr \<Rightarrow> bool" where
  "reads_as s f \<longleftrightarrow> (\<forall>t. ends t \<longrightarrow> read_comparison (s @ t) = Some (f, t) \<and>
     strip_prefix ''not ('' (s @ t) = None \<and> strip_prefix ''('' (s @ t) = None)"

lemma filterCompare_reads:
  assumes s: "filterCompare tbl op l r escape = Inr s" and ok: "value_ok l" "value_ok r"
    and w: "('' '' @ op @ '' '', f) \<in> set compare_words"
  shows "\<exists>lv rv. value_tree l = Some lv \<and> value_tree r = Some rv \<and> reads_as s (FCompare f lv rv)"
proof -
  from s obtain a b where ab: "filterValue tbl l = Inr a" "filterValue tbl r = Inr b" "s = a @ '' '' @ op @ '' '' @ b"
    by (auto simp: filterCompare_def map_result_def split: if_splits sum.splits)
  obtain lv rv where v: "value_tree l = Some lv" "value_tree r = Some rv"
    using filterValue_read [OF ab(1) ok(1), of "[]"] filterValue_read [OF ab(2) ok(2), of "[]"] by auto
  have "read_comparison (s @ t) = Some (FCompare f lv rv, t) \<and>
      strip_prefix ''not ('' (s @ t) = None \<and> strip_prefix ''('' (s @ t) = None" if "ends t" for t
  proof -
    let ?u = "('' '' @ op @ '' '') @ b @ t"
    have "read_value (a @ ?u) = Some (lv, ?u)" "lv \<noteq> FField ''not''" "read_value (b @ t) = Some (rv, t)"
      using filterValue_read [OF ab(1) ok(1), of ?u] filterValue_read [OF ab(2) ok(2) that] v by auto
    with compare_word [OF w, of "b @ t"] read_value_start [OF this(1)] ab(3) show ?thesis
      by (simp add: read_comparison_def)
  qed
  with v show ?thesis by (auto simp: reads_as_def)
qed

lemma filterIn_reads:
  assumes s: "filterIn tbl op l (ValTuple xs) = Inr s" and ok: "value_ok l" "list_all value_ok xs"
    and op: "op = ''in'' \<or> op = ''not in''"
  shows "\<exists>lv. value_tree l = Some lv \<and> reads_as s (FIn (op = ''in'') lv (List.map_filter value_tree xs))"
proof -
  from s obtain a items where ab: "filterValue tbl l = Inr a" "traverse (filterItem tbl) xs = Inr items"
    "s = a @ '' '' @ op @ '' ['' @ join items '','' @ '']''"
    by (auto simp: filterIn_def map_result_def split: sum.splits)
  obtain lv where v: "value_tree l = Some lv" using filterValue_read [OF ab(1) ok(1), of "[]"] by auto
  have "read_comparison (s @ t) = Some (FIn (op = ''in'') lv (List.map_filter value_tree xs), t) \<and>
      strip_prefix ''not ('' (s @ t) = None \<and> strip_prefix ''('' (s @ t) = None" if "ends t" for t
  proof -
    let ?r = "join items '','' @ '']'' @ t"
    let ?u = "'' '' @ op @ '' ['' @ ?r"
    have a: "read_value (a @ ?u) = Some (lv, ?u)" "lv \<noteq> FField ''not''"
      using filterValue_read [OF ab(1) ok(1), of ?u] v by auto
    have "max 1 (length xs) \<le> length ?r"
      using length_join [of items "CHR '',''"] traverse_length [OF ab(2)] by simp
    with read_items_join [OF ab(2) ok(2)]
    have items: "read_items (length ?r) ?r = Some (List.map_filter value_tree xs, t)" by blast
    have "read_keyword in_words ?u = Some (op = ''in'', ?r)"
      using op by (auto simp: in_words_def)
    with a items read_value_start [OF a(1)] ab(3) show ?thesis
      by (simp add: read_comparison_def)
  qed
  with v show ?thesis by (auto simp: reads_as_def)
qed

lemma filterComparison_reads:
  assumes s: "filterComparison tbl op l r escape = Inr s" and ok: "condition_ok (ComparisonExpr op l r escape)"
  shows "\<exists>f. comparison_tree op (value_tree l) r = Some f \<and> reads_as s f"
proof (cases "op = ''in'' \<or> op = ''not in''")
  case True
  with s obtain xs where xs: "r = ValTuple xs" "filterIn tbl op l r = Inr s"
    by (auto simp: filterComparison_def filterIn_def split: expr.splits sum.splits)
  with filterIn_reads [of tbl op l xs s] ok True show ?thesis by auto
next
  case False
  have tuple: "filterValue tbl (ValTuple xs) \<noteq> Inr b" for xs b
    by (simp add: filterValue_def unsupported_value_def)
  have "\<exists>op' f. filterCompare tbl op' l r escape = Inr s \<and> ('' '' @ op' @ '' '', f) \<in> set compare_words \<and>
      map_of sql_operators op = Some f"
    using s False
    by (auto simp: filterComparison_def sql_operators_def compare_words_def split: if_splits expr.splits)
  then obtain op' f where c: "filterCompare tbl op' l r escape = Inr s"
    "('' '' @ op' @ '' '', f) \<in> set compare_words" "map_of sql_operators op = Some f" by blast
  moreover have nt: "r \<noteq> ValTuple xs" for xs
    using c(1) tuple by (auto simp: filterCompare_def map_result_def split: if_splits sum.splits)
  moreover have "value_ok l \<and> value_ok r" using ok nt by (cases r) auto
  ultimately obtain lv rv where v: "value_tree l = Some lv" "value_tree r = Some rv"
    "reads_as s (FCompare f lv rv)" using filterCompare_reads by blast
  with c(3) nt have "comparison_tree op (value_tree l) r = Some (FCompare f lv rv)"
    by (cases r) auto
  with v(3) show ?thesis by blast
qed

text \<open>Enough fuel is the depth of the expression; the text is longer.\<close>

lemma scalarFilter_read:
  "scalarFilter tbl e = Inr s \<Longrightarrow> condition_ok e \<Longrightarrow> length s \<le> n \<Longrightarrow> ends t \<Longrightarrow>
     \<exists>f. filter_tree e = Some f \<and> read_expr n (s @ t) = Some (f, t)"
proof (induction tbl e arbitrary: s n t rule: scalarFilter.induct)
  case (5 tbl op l r escape)
  from filterComparison_reads [of tbl op l r escape s] 5
  obtain f where f: "comparison_tree op (value_tree l) r = Some f" "reads_as s f" by auto
  have "\<not> reads_as [] f"
    by (auto simp: reads_as_def read_comparison_def read_value_def intro!: exI [of _ "[]"])
  with f(2) have "s \<noteq> []" by blast
  with 5(3) obtain m where "n = Suc m" by (cases n) auto
  with f 5(4) show ?case by (auto simp: reads_as_def)
next
  case (3 tbl e)
  then obtain x where x: "scalarFilter tbl e = Inr x" "s = ''not ('' @ x @ '')''"
    by (auto simp: map_result_def split: sum.splits)
  with 3(4) obtain m where "n = Suc m" "length x \<le> m" by (cases n) auto
  with 3(1) [OF x(1) _ this(2), of "'')'' @ t"] 3(3) x(2) show ?case by (auto simp: close_def)
next
  case (4 tbl e)
  then obtain x where x: "scalarFilter tbl e = Inr x" "s = ''('' @ x @ '')''"
    by (auto simp: map_result_def split: sum.splits)
  with 4(4) obtain m where "n = Suc m" "length x \<le> m" by (cases n) auto
  with 4(1) [OF x(1) _ this(2), of "'')'' @ t"] 4(3) x(2) show ?case by (auto simp: pair_words_def)
next
  case (1 tbl l r)
  then obtain x y where x: "scalarFilter tbl l = Inr x" "scalarFilter tbl r = Inr y"
      "s = ''('' @ x @ '' and '' @ y @ '')''"
    by (auto simp: filterPair_def map_result_def split: sum.splits)
  with 1(5) obtain m where m: "n = Suc m" "length x \<le> m" "length y \<le> m" by (cases n) auto
  from 1(1) [OF x(1) _ m(2), of "'' and '' @ y @ '')'' @ t"] 1(2) [OF x(2) _ m(3), of "'')'' @ t"] 1(4) x(3) m(1)
  show ?case by (auto simp: pair_words_def close_def)
next
  case (2 tbl l r)
  then obtain x y where x: "scalarFilter tbl l = Inr x" "scalarFilter tbl r = Inr y"
      "s = ''('' @ x @ '' or '' @ y @ '')''"
    by (auto simp: filterPair_def map_result_def split: sum.splits)
  with 2(5) obtain m where m: "n = Suc m" "length x \<le> m" "length y \<le> m" by (cases n) auto
  from 2(1) [OF x(1) _ m(2), of "'' or '' @ y @ '')'' @ t"] 2(2) [OF x(2) _ m(3), of "'')'' @ t"] 2(4) x(3) m(1)
  show ?case by (auto simp: pair_words_def close_def)
qed auto

section \<open>Properties\<close>

text \<open>
  C2: The filter text is the SQL condition.  Whenever \<open>scalarFilter\<close> accepts a condition whose field
  names are not words of the filter language (such as \<open>true\<close>, \<open>and\<close> or \<open>like\<close>) and whose numbers are
  number tokens, reading its text with the filter grammar consumes all of it and gives the tree of the condition: every
  AND, OR and NOT with the operands of the SQL, every comparison with its operator, and every
  string literal with exactly its bytes.
\<close>

theorem scalarFilter_reads_back:
  assumes "scalarFilter tbl e = Inr s" and "condition_ok e"
  shows "\<exists>f. filter_tree e = Some f \<and> read_filter s = Some (f, [])"
  using scalarFilter_read [OF assms order_refl, of "[]"] by (simp add: read_filter_def)

section \<open>Instances\<close>

definition sample_condition :: expr where
  "sample_condition =
     AndExpr
       (NotExpr (ComparisonExpr ''='' (ColName \<lparr>tn_name = '''', tn_qualifier = ''''\<rparr> ''name'')
          (SQLVal StrVal (''x'' @ [dquote] @ '' or 1 == 1'')) None))
       (ComparisonExpr ''not in'' (ColName \<lparr>tn_name = '''', tn_qualifier = ''''\<rparr> ''id'')
          (ValTuple [SQLVal IntVal ''7'', UnaryExpr ''-'' (SQLVal IntVal ''2'')]) None)"

theorem scalarFilter_reads_back_witness:
  "read_filter (''(not (name == '' @ [dquote, CHR ''x'', bslash, dquote] @ '' or 1 == 1'' @ [dquote] @
       '') and id not in [7,-2])'')
     = Some (FAnd (FNot (FCompare FEq (FField ''name'') (FString (''x'' @ [dquote] @ '' or 1 == 1''))))
                  (FIn False (FField ''id'') [FNumber ''7'', FNumber ''-2'']), [])"
proof -
  have s: "scalarFilter (\<lambda>_. False) sample_condition
      = Inr (''(not (name == '' @ [dquote, CHR ''x'', bslash, dquote] @ '' or 1 == 1'' @ [dquote] @
             '') and id not in [7,-2])'')"
    by code_simp
  have "condition_ok sample_condition" by code_simp
  from scalarFilter_reads_back [OF s this]
  obtain f where f: "filter_tree sample_condition = Some f"
    and r: "read_filter (''(not (name == '' @ [dquote, CHR ''x'', bslash, dquote] @ '' or 1 == 1'' @ [dquote] @
       '') and id not in [7,-2])'') = Some (f, [])" by blast
  have "filter_tree sample_condition
      = Some (FAnd (FNot (FCompare FEq (FField ''name'') (FString (''x'' @ [dquote] @ '' or 1 == 1''))))
                   (FIn False (FField ''id'') [FNumber ''7'', FNumber ''-2'']))"
    by code_simp
  with f r show ?thesis by simp
qed

end
