(* ===== verification/Milvus.thy ===== *)
theory Milvus
  imports GoValue
begin

text \<open>
  The interface to Milvus.  The SDK (\<open>milvus-sdk-go\<close>) is not part of the repository: its data
  types are records here, its functions are parameters, collected in two records.

  \<^item> \<open>('w, 'c) client\<close> holds one function per remote call the proxy makes.  A call takes the context
    the session holds, the arguments of the call, and the state \<open>'w\<close> of the service; it returns the
    result of the call and the new state.  \<open>Close\<close> takes no context, and its error is ignored.
  \<^item> \<open>'c sdk\<close> holds the local functions: building a column \<open>'c\<close>, appending to it, reading it, and
    building index descriptions.
\<close>

section \<open>Data\<close>

text \<open>The deadline of a context decides nothing in the proxy; only which context a call gets.\<close>

datatype ctxt = Background | WithTimeout ctxt int | WithCancel ctxt nat

datatype field_type =
    FieldTypeBool | FieldTypeInt8 | FieldTypeInt16 | FieldTypeInt32 | FieldTypeInt64
  | FieldTypeFloat | FieldTypeDouble | FieldTypeString | FieldTypeVarChar | FieldTypeJSON
  | FieldTypeFloatVector | FieldTypeOther string

text \<open>A Go map of strings: an association list with distinct keys, or \<open>None\<close> for the nil map.\<close>

type_synonym string_map = "(string \<times> string) list option"

definition map_get :: "string_map \<Rightarrow> string \<Rightarrow> string" where
  "map_get m k = (case m of None \<Rightarrow> '''' | Some kvs \<Rightarrow> (case map_of kvs k of None \<Rightarrow> '''' | Some v \<Rightarrow> v))"

lemma map_get_simps [simp]:
  "map_get None k = ''''" "map_get (Some []) k = ''''"
  "map_get (Some ((k', v) # kvs)) k = (if k = k' then v else map_get (Some kvs) k)"
  by (simp_all add: map_get_def)

record field =
  f_name :: string
  f_primaryKey :: bool
  f_autoID :: bool
  f_dataType :: field_type
  f_typeParams :: string_map
  f_description :: string

record schema =
  s_collectionName :: string
  s_description :: string
  s_fields :: "field list"

text \<open>\<open>DescribeCollection\<close> may return no collection, or one without a schema.\<close>

record collection =
  col_schema :: "schema option"

record index =
  ix_name :: string
  ix_type :: string
  ix_params :: string_map

datatype column_kind =
    ColumnBool | ColumnInt8 | ColumnInt16 | ColumnInt32 | ColumnInt64 | ColumnFloat | ColumnDouble
  | ColumnVarChar | ColumnJSONBytes | ColumnFloatVector int

record 'c search_result =
  sr_resultCount :: nat
  sr_ids :: "'c option"
  sr_fields :: "'c list"
  sr_scores :: "float32 list"
  sr_err :: "error option"

text \<open>The response of the gRPC service behind \<open>DescribeIndex\<close>.\<close>

datatype error_code = EC_Success | EC_IndexNotExist | EC_Other int

record grpc_status =
  st_errorCode :: error_code
  st_code :: int
  st_reason :: string

record index_description =
  d_indexName :: string
  d_fieldName :: string
  d_params :: "(string \<times> string) list"

record describe_response =
  resp_status :: "grpc_status option"
  resp_descriptions :: "index_description list"

record search_request =
  sq_collection :: string
  sq_filter :: string
  sq_outputs :: "string list"
  sq_vector :: "float32 list"
  sq_vectorField :: string
  sq_metric :: string
  sq_topK :: int64
  sq_params :: "(string \<times> int64) list"
  sq_offset :: int64

record query_request =
  qr_collection :: string
  qr_filter :: string
  qr_outputs :: "string list"
  qr_window :: "(int64 \<times> int64) option"

section \<open>The remote calls\<close>

type_synonym ('w, 'a) rpc = "'w \<Rightarrow> 'a result \<times> 'w"

record ('w, 'c) client =
  cl_listDatabases :: "ctxt \<Rightarrow> ('w, string list) rpc"
  cl_createDatabase :: "ctxt \<Rightarrow> string \<Rightarrow> ('w, unit) rpc"
  cl_dropDatabase :: "ctxt \<Rightarrow> string \<Rightarrow> ('w, unit) rpc"
  cl_usingDatabase :: "ctxt \<Rightarrow> string \<Rightarrow> ('w, unit) rpc"
  cl_listCollections :: "ctxt \<Rightarrow> ('w, string list) rpc"
  cl_describeCollection :: "ctxt \<Rightarrow> string \<Rightarrow> ('w, collection option) rpc"
  cl_createCollection :: "ctxt \<Rightarrow> schema \<Rightarrow> int \<Rightarrow> ('w, unit) rpc"
  cl_dropCollection :: "ctxt \<Rightarrow> string \<Rightarrow> ('w, unit) rpc"
  cl_loadCollection :: "ctxt \<Rightarrow> string \<Rightarrow> ('w, unit) rpc"
  cl_releaseCollection :: "ctxt \<Rightarrow> string \<Rightarrow> ('w, unit) rpc"
  cl_flush :: "ctxt \<Rightarrow> string \<Rightarrow> ('w, unit) rpc"
  cl_createPartition :: "ctxt \<Rightarrow> string \<Rightarrow> string \<Rightarrow> ('w, unit) rpc"
  cl_dropPartition :: "ctxt \<Rightarrow> string \<Rightarrow> string \<Rightarrow> ('w, unit) rpc"
  cl_loadPartitions :: "ctxt \<Rightarrow> string \<Rightarrow> string list \<Rightarrow> ('w, unit) rpc"
  cl_releasePartitions :: "ctxt \<Rightarrow> string \<Rightarrow> string list \<Rightarrow> ('w, unit) rpc"
  cl_showPartitions :: "ctxt \<Rightarrow> string \<Rightarrow> ('w, string list) rpc"
  cl_createIndex :: "ctxt \<Rightarrow> string \<Rightarrow> string \<Rightarrow> index \<Rightarrow> string \<Rightarrow> ('w, unit) rpc"
  cl_dropIndex :: "ctxt \<Rightarrow> string \<Rightarrow> string \<Rightarrow> string \<Rightarrow> ('w, unit) rpc"
  cl_describeIndex :: "ctxt \<Rightarrow> string \<Rightarrow> string \<Rightarrow> ('w, index list) rpc"
  cl_grpc :: "(ctxt \<Rightarrow> string \<Rightarrow> string \<Rightarrow> ('w, describe_response) rpc) option"
  cl_insert :: "ctxt \<Rightarrow> string \<Rightarrow> 'c list \<Rightarrow> ('w, 'c option) rpc"
  cl_upsert :: "ctxt \<Rightarrow> string \<Rightarrow> 'c list \<Rightarrow> ('w, 'c option) rpc"
  cl_delete :: "ctxt \<Rightarrow> string \<Rightarrow> string \<Rightarrow> ('w, unit) rpc"
  cl_query :: "ctxt \<Rightarrow> query_request \<Rightarrow> ('w, 'c list) rpc"
  cl_search :: "ctxt \<Rightarrow> search_request \<Rightarrow> ('w, 'c search_result list) rpc"
  cl_close :: "'w \<Rightarrow> 'w"

text \<open>Every call leaves a trace; the traces make statements about which calls are made.\<close>

datatype 'c request =
    ListDatabases
  | CreateDatabase string
  | DropDatabase string
  | UsingDatabase string
  | ListCollections
  | DescribeCollection string
  | CreateCollection schema int
  | DropCollection string
  | LoadCollection string
  | ReleaseCollection string
  | FlushCollection string
  | CreatePartition string string
  | DropPartition string string
  | LoadPartitions string "string list"
  | ReleasePartitions string "string list"
  | ShowPartitions string
  | CreateIndex string string index string
  | DropIndex string string string
  | DescribeIndex string string
  | GrpcDescribeIndex string string
  | Insert string "'c list"
  | Upsert string "'c list"
  | Delete string string
  | Query query_request
  | Search search_request

text \<open>The calls that change nothing in Milvus and nothing in the client.\<close>

fun read_only :: "'c request \<Rightarrow> bool" where
  "read_only ListDatabases = True"
| "read_only ListCollections = True"
| "read_only (DescribeCollection _) = True"
| "read_only (ShowPartitions _) = True"
| "read_only (DescribeIndex _ _) = True"
| "read_only (GrpcDescribeIndex _ _) = True"
| "read_only (Query _) = True"
| "read_only (Search _) = True"
| "read_only _ = False"

section \<open>The local functions\<close>

record 'c sdk =
  newColumn :: "column_kind \<Rightarrow> string \<Rightarrow> 'c"
  appendValue :: "'c \<Rightarrow> goval \<Rightarrow> 'c result"
  columnLen :: "'c \<Rightarrow> nat"
  columnGet :: "'c \<Rightarrow> nat \<Rightarrow> goval result"
  getColumn :: "'c list \<Rightarrow> string \<Rightarrow> 'c option"
  typeString :: "field_type \<Rightarrow> string"
  kvPairsMap :: "(string \<times> string) list \<Rightarrow> string_map"
  newGenericIndex :: "string \<Rightarrow> string \<Rightarrow> string_map \<Rightarrow> index"
  newIndexFlat :: "string \<Rightarrow> index result"
  newIndexHNSW :: "string \<Rightarrow> int \<Rightarrow> int \<Rightarrow> index result"
  newIndexIvfFlat :: "string \<Rightarrow> int \<Rightarrow> index result"
  newIndexAUTOINDEX :: "string \<Rightarrow> index result"

end
