(* ===== verification/GoJson.thy ===== *)
theory GoJson
  imports GoFtoa GoQuote
begin

text \<open>
  \<open>encoding/json\<close> as far as the proxy uses it: \<open>json.Valid\<close>, \<open>json.Unmarshal\<close> into
  \<open>[]json.RawMessage\<close> and \<open>[]float32\<close>, and \<open>json.Marshal\<close> of \<open>map[string]string\<close> and \<open>[]float32\<close>.

  The checker is the package's own byte-at-a-time scanner: a state, a stack of the open objects
  and arrays, one transition per byte; nesting deeper than 10000 is an error.  Decoding an array
  runs the same scanner and cuts the text at the separators of the outermost array.
\<close>

section \<open>The scanner\<close>

datatype jstate =
    BeginValue | BeginValueOrEmpty | BeginString | BeginStringOrEmpty
  | EndValue | EndTop | InString | InStringEsc | InStringEscU nat
  | Neg | Int1 | Int0 | Dot | Dot0 | Exp | ExpSign | Exp0
  | Word string
  | ScanError

datatype jparse = ParseObjectKey | ParseObjectValue | ParseArrayValue

type_synonym jscan = "jstate \<times> jparse list"

definition is_json_space :: "char \<Rightarrow> bool" where
  "is_json_space c \<longleftrightarrow> c = CHR 0x20 \<or> c = CHR 0x09 \<or> c = CHR 0x0D \<or> c = CHR 0x0A"

definition is_hex_digit :: "char \<Rightarrow> bool" where
  "is_hex_digit c \<longleftrightarrow> is_digit c \<or> (97 \<le> byte (ascii_lower c) \<and> byte (ascii_lower c) \<le> 102)"

definition maxNestingDepth :: nat where "maxNestingDepth = 10000"

definition push_state :: "jstate \<Rightarrow> jparse \<Rightarrow> jparse list \<Rightarrow> jscan" where
  "push_state st p ps =
     (if length ps < maxNestingDepth then (st, p # ps) else (ScanError, p # ps))"

text \<open>After the last byte of a value: at the top level only space may follow.\<close>

definition pop_state :: "jparse list \<Rightarrow> jscan" where
  "pop_state ps = (if tl ps = [] then (EndTop, []) else (EndValue, tl ps))"

definition close_value :: "jparse list \<Rightarrow> jscan" where
  "close_value ps = (if ps = [] then (EndTop, []) else (EndValue, ps))"

definition end_value :: "jparse list \<Rightarrow> char \<Rightarrow> jscan" where
  "end_value ps c =
     (case ps of
        [] \<Rightarrow> if is_json_space c then (EndTop, []) else (ScanError, [])
      | p # r \<Rightarrow>
          if is_json_space c then (EndValue, ps)
          else case p of
            ParseObjectKey \<Rightarrow>
              if c = CHR '':'' then (BeginValue, ParseObjectValue # r) else (ScanError, ps)
          | ParseObjectValue \<Rightarrow>
              if c = CHR '','' then (BeginString, ParseObjectKey # r)
              else if c = CHR 0x7D then pop_state ps else (ScanError, ps)
          | ParseArrayValue \<Rightarrow>
              if c = CHR '','' then (BeginValue, ps)
              else if c = CHR '']'' then pop_state ps else (ScanError, ps))"

definition begin_value :: "jparse list \<Rightarrow> char \<Rightarrow> jscan" where
  "begin_value ps c =
     (if is_json_space c then (BeginValue, ps)
      else if c = CHR 0x7B then push_state BeginStringOrEmpty ParseObjectKey ps
      else if c = CHR ''['' then push_state BeginValueOrEmpty ParseArrayValue ps
      else if c = dquote then (InString, ps)
      else if c = CHR ''-'' then (Neg, ps)
      else if c = CHR ''0'' then (Int0, ps)
      else if c = CHR ''t'' then (Word ''rue'', ps)
      else if c = CHR ''f'' then (Word ''alse'', ps)
      else if c = CHR ''n'' then (Word ''ull'', ps)
      else if is_digit c then (Int1, ps)
      else (ScanError, ps))"

definition begin_string :: "jparse list \<Rightarrow> char \<Rightarrow> jscan" where
  "begin_string ps c =
     (if is_json_space c then (BeginString, ps)
      else if c = dquote then (InString, ps) else (ScanError, ps))"

fun json_step :: "jscan \<Rightarrow> char \<Rightarrow> jscan" where
  "json_step (BeginValue, ps) c = begin_value ps c"
| "json_step (BeginValueOrEmpty, ps) c =
     (if is_json_space c then (BeginValueOrEmpty, ps)
      else if c = CHR '']'' then end_value ps c else begin_value ps c)"
| "json_step (BeginString, ps) c = begin_string ps c"
| "json_step (BeginStringOrEmpty, ps) c =
     (if is_json_space c then (BeginStringOrEmpty, ps)
      else if c = CHR 0x7D then end_value (ParseObjectValue # tl ps) c
      else begin_string ps c)"
| "json_step (EndValue, ps) c = end_value ps c"
| "json_step (EndTop, ps) c = (if is_json_space c then (EndTop, ps) else (ScanError, ps))"
| "json_step (InString, ps) c =
     (if c = dquote then close_value ps
      else if c = bslash then (InStringEsc, ps)
      else if byte c < 0x20 then (ScanError, ps) else (InString, ps))"
| "json_step (InStringEsc, ps) c =
     (if c \<in> set ([bslash, dquote] @ ''bfnrt/'') then (InString, ps)
      else if c = CHR ''u'' then (InStringEscU 4, ps) else (ScanError, ps))"
| "json_step (InStringEscU n, ps) c =
     (if is_hex_digit c then (if n \<le> 1 then (InString, ps) else (InStringEscU (n - 1), ps))
      else (ScanError, ps))"
| "json_step (Neg, ps) c =
     (if c = CHR ''0'' then (Int0, ps) else if is_digit c then (Int1, ps) else (ScanError, ps))"
| "json_step (Int1, ps) c =
     (if is_digit c then (Int1, ps)
      else if c = CHR ''.'' then (Dot, ps)
      else if c = CHR ''e'' \<or> c = CHR ''E'' then (Exp, ps) else end_value ps c)"
| "json_step (Int0, ps) c =
     (if c = CHR ''.'' then (Dot, ps)
      else if c = CHR ''e'' \<or> c = CHR ''E'' then (Exp, ps) else end_value ps c)"
| "json_step (Dot, ps) c = (if is_digit c then (Dot0, ps) else (ScanError, ps))"
| "json_step (Dot0, ps) c =
     (if is_digit c then (Dot0, ps)
      else if c = CHR ''e'' \<or> c = CHR ''E'' then (Exp, ps) else end_value ps c)"
| "json_step (Exp, ps) c =
     (if c = CHR ''+'' \<or> c = CHR ''-'' then (ExpSign, ps)
      else if is_digit c then (Exp0, ps) else (ScanError, ps))"
| "json_step (ExpSign, ps) c = (if is_digit c then (Exp0, ps) else (ScanError, ps))"
| "json_step (Exp0, ps) c = (if is_digit c then (Exp0, ps) else end_value ps c)"
| "json_step (Word w, ps) c =
     (case w of
        [] \<Rightarrow> (ScanError, ps)
      | x # r \<Rightarrow> if c = x then (if r = [] then close_value ps else (Word r, ps)) else (ScanError, ps))"
| "json_step (ScanError, ps) c = (ScanError, ps)"

definition json_start :: jscan where "json_start = (BeginValue, [])"

text \<open>At the end of the input a space is fed to the scanner; the value must then be complete.\<close>

definition json_valid :: "string \<Rightarrow> bool" where
  "json_valid s \<longleftrightarrow> fst (json_step (run_steps json_step json_start s) CHR 0x20) = EndTop"

section \<open>Decoding arrays\<close>

definition trim_json :: "string \<Rightarrow> string" where
  "trim_json s = rev (dropWhile is_json_space (rev (dropWhile is_json_space s)))"

text \<open>The elements of the outermost array; \<open>cur\<close> is the text of the current one, reversed.\<close>

fun array_elements :: "jscan \<Rightarrow> string \<Rightarrow> string \<Rightarrow> string list" where
  "array_elements st cur [] = []"
| "array_elements st cur (c # s) =
     (let st' = json_step st c in
      if snd st = [] then array_elements st' [] s
      else if c = CHR '','' \<and> st' = (BeginValue, [ParseArrayValue])
      then trim_json (rev cur) # array_elements st' [] s
      else if snd st = [ParseArrayValue] \<and> snd st' = [] then
        (if fst st = BeginValueOrEmpty then [] else [trim_json (rev cur)])
      else array_elements st' (c # cur) s)"

text \<open>\<open>json.Unmarshal(data, &v)\<close> for \<open>v []json.RawMessage\<close>.\<close>

definition unmarshal_raw :: "string \<Rightarrow> string list result" where
  "unmarshal_raw s =
     (if \<not> json_valid s then Inl (JSONError ''syntax error'')
      else if trim_json s = ''null'' then Inr []
      else case trim_json s of
             c # _ \<Rightarrow> if c = CHR ''['' then Inr (array_elements json_start [] s)
                      else Inl (JSONError ''cannot unmarshal into []json.RawMessage'')
           | [] \<Rightarrow> Inl (JSONError ''syntax error''))"

text \<open>One element of a \<open>[]float32\<close>: \<open>null\<close> leaves the zero value.\<close>

definition unmarshal_float32 :: "string \<Rightarrow> float32 result" where
  "unmarshal_float32 x =
     (case x of
        [] \<Rightarrow> Inl (JSONError ''syntax error'')
      | c # _ \<Rightarrow>
          if x = ''null'' then Inr 0
          else if c = CHR ''-'' \<or> is_digit c then
            (case parse_float32 x of
               Inl e \<Rightarrow> Inl (JSONError ''cannot unmarshal number into float32'')
             | Inr w \<Rightarrow> Inr w)
          else Inl (JSONError ''cannot unmarshal into float32''))"

definition unmarshal_floats :: "string \<Rightarrow> float32 list result" where
  "unmarshal_floats s =
     (case unmarshal_raw s of Inl e \<Rightarrow> Inl e | Inr xs \<Rightarrow> traverse unmarshal_float32 xs)"

lemma unmarshal_floats_length:
  "unmarshal_raw s = Inr xs \<Longrightarrow> unmarshal_floats s = Inr v \<Longrightarrow> length v = length xs"
  by (simp add: unmarshal_floats_def traverse_length)

section \<open>Encoding\<close>

text \<open>A JSON string with HTML escaping, as \<open>json.Marshal\<close> writes it.\<close>

definition json_escape_byte :: "char \<Rightarrow> string" where
  "json_escape_byte c =
     (if c = dquote \<or> c = bslash then [bslash, c]
      else if byte c = 8 then [bslash, CHR ''b'']
      else if byte c = 12 then [bslash, CHR ''f'']
      else if byte c = 10 then [bslash, CHR ''n'']
      else if byte c = 13 then [bslash, CHR ''r'']
      else if byte c = 9 then [bslash, CHR ''t'']
      else if byte c < 0x20 \<or> c = CHR ''<'' \<or> c = CHR ''>'' \<or> c = CHR ''&''
      then [bslash, CHR ''u''] @ hex_digits 4 (byte c)
      else [c])"

function json_string_body :: "string \<Rightarrow> string" where
  "json_string_body s =
     (if s = [] then []
      else let (r, w) = decode_rune s in
        (if r < 0x80 then json_escape_byte (hd s)
         else if w = 1 \<and> r = rune_error then [bslash] @ ''ufffd''
         else if r = 0x2028 \<or> r = 0x2029 then [bslash, CHR ''u''] @ hex_digits 4 r
         else take w s) @ json_string_body (drop w s))"
  by pat_completeness auto
termination
proof (relation "measure length", simp)
  fix s :: string and x r w
  assume "s \<noteq> []" "x = decode_rune s" "(r, w) = x"
  then have "1 \<le> w" "s \<noteq> []" using decode_width [of s] by (metis snd_conv)+
  then show "(drop w s, s) \<in> measure length" by simp
qed

declare json_string_body.simps [simp del]

definition json_string :: "string \<Rightarrow> string" where
  "json_string s = [dquote] @ json_string_body s @ [dquote]"

text \<open>Byte-wise string order, in which \<open>json.Marshal\<close> writes the keys of a map.\<close>

fun bytes_less :: "string \<Rightarrow> string \<Rightarrow> bool" where
  "bytes_less [] [] = False"
| "bytes_less [] (c # s) = True"
| "bytes_less (c # s) [] = False"
| "bytes_less (c # s) (d # t) = (byte c < byte d \<or> c = d \<and> bytes_less s t)"

fun insert_key :: "string \<times> string \<Rightarrow> (string \<times> string) list \<Rightarrow> (string \<times> string) list" where
  "insert_key kv [] = [kv]"
| "insert_key kv (x # xs) = (if bytes_less (fst kv) (fst x) then kv # x # xs else x # insert_key kv xs)"

definition marshal_map :: "(string \<times> string) list \<Rightarrow> string" where
  "marshal_map m =
     CHR 0x7B # join (map (\<lambda>(k, v). json_string k @ '':'' @ json_string v) (foldr insert_key m []))
       '','' @ [CHR 0x7D]"

definition marshal_floats :: "float32 list \<Rightarrow> string result" where
  "marshal_floats v =
     (case traverse json_float32 v of
        Inl e \<Rightarrow> Inl e
      | Inr xs \<Rightarrow> Inr (''['' @ join xs '','' @ '']''))"

end
