(* ===== verification/Session.thy ===== *)
theory Session
  imports Milvus GoJson Sqlparser
begin

text \<open>
  The SQL session (\<open>pkg/conn.go\<close>) and the construction of results (\<open>pkg/conn_resultvalue.go\<close>,
  and \<open>rows\<close> of \<open>pkg/commands.go\<close>).

  The methods of \<open>ClientConn\<close> are actions on the record \<open>conn\<close>.  The client is fixed for the life of
  the session and is a parameter of the operations; what the calls change is the field \<open>c_world\<close>.
  \<open>c_calls\<close> lists the calls made so far, each with the context it was given, and \<open>c_closes\<close> counts
  the calls of the client's \<open>Close\<close>.
\<close>

section \<open>Results\<close>

text \<open>The zero value of a field's type is \<open>MYSQL_TYPE_DECIMAL\<close>, which is never left in a result.\<close>

datatype mysql_type =
    MYSQL_TYPE_DECIMAL | MYSQL_TYPE_TINY | MYSQL_TYPE_DOUBLE | MYSQL_TYPE_NULL | MYSQL_TYPE_LONGLONG
  | MYSQL_TYPE_VAR_STRING

datatype field_flag = NOT_NULL_FLAG | UNSIGNED_FLAG | BINARY_FLAG

record mysql_field =
  fd_name :: string
  fd_type :: mysql_type
  fd_charset :: nat
  fd_flag :: "field_flag list"

record resultset =
  rs_fields :: "mysql_field list"
  rs_fieldNames :: "string \<rightharpoonup> nat"
  rs_values :: "goval list list"

record mysql_result =
  r_affectedRows :: int64
  r_insertId :: int64
  r_status :: nat
  r_resultset :: "resultset option"

definition empty_result :: mysql_result where
  "empty_result = \<lparr>r_affectedRows = 0, r_insertId = 0, r_status = 0, r_resultset = None\<rparr>"

definition SERVER_STATUS_AUTOCOMMIT :: nat where "SERVER_STATUS_AUTOCOMMIT = 2"

section \<open>Cells and fields\<close>

fun formatValue :: "goval \<Rightarrow> string result" where
  "formatValue GNil = Inr ''NULL''"
| "formatValue (GBool b) = Inr (format_bool b)"
| "formatValue (GFloat32 w) = Inr (append_float64 (float64_of_32 w))"
| "formatValue (GFloat64 w) = Inr (append_float64 w)"
| "formatValue (GFloats v) = marshal_floats v"
| "formatValue (GBytes s) = Inr s"
| "formatValue (GString s) = Inr s"
| "formatValue v =
     (case int_value v of Some i \<Rightarrow> Inr (itoa i) | None \<Rightarrow> Inl (Err (''invalid type '' @ type_name v)))"

definition formatField :: "mysql_field \<Rightarrow> goval \<Rightarrow> mysql_field result" where
  "formatField f v =
     (case v of
        GNil \<Rightarrow> Inr (f\<lparr>fd_type := MYSQL_TYPE_NULL\<rparr>)
      | GBool _ \<Rightarrow> Inr (f\<lparr>fd_charset := 63, fd_type := MYSQL_TYPE_TINY\<rparr>)
      | GFloat32 _ \<Rightarrow> Inr (f\<lparr>fd_charset := 63, fd_type := MYSQL_TYPE_DOUBLE, fd_flag := [BINARY_FLAG, NOT_NULL_FLAG]\<rparr>)
      | GFloat64 _ \<Rightarrow> Inr (f\<lparr>fd_charset := 63, fd_type := MYSQL_TYPE_DOUBLE, fd_flag := [BINARY_FLAG, NOT_NULL_FLAG]\<rparr>)
      | GString _ \<Rightarrow> Inr (f\<lparr>fd_charset := 33, fd_type := MYSQL_TYPE_VAR_STRING\<rparr>)
      | GBytes _ \<Rightarrow> Inr (f\<lparr>fd_charset := 33, fd_type := MYSQL_TYPE_VAR_STRING\<rparr>)
      | GFloats _ \<Rightarrow> Inr (f\<lparr>fd_charset := 33, fd_type := MYSQL_TYPE_VAR_STRING\<rparr>)
      | GOther n _ \<Rightarrow> Inl (Err (''unsupport type '' @ n @ '' for resultset''))
      | _ \<Rightarrow>
          Inr (f\<lparr>fd_charset := 63, fd_type := MYSQL_TYPE_LONGLONG,
                fd_flag := (if type_name v \<in> {''uint8'', ''uint16'', ''uint32'', ''uint64'', ''uint''}
                            then [BINARY_FLAG, NOT_NULL_FLAG, UNSIGNED_FLAG]
                            else [BINARY_FLAG, NOT_NULL_FLAG])\<rparr>))"

definition empty_field :: "string \<Rightarrow> mysql_field" where
  "empty_field n = \<lparr>fd_name = n, fd_type = MYSQL_TYPE_VAR_STRING, fd_charset = 33, fd_flag = []\<rparr>"

text \<open>The index of a name that occurs twice is the last one, as the loop overwrites the map entry.\<close>

fun name_indices :: "nat \<Rightarrow> string list \<Rightarrow> (string \<rightharpoonup> nat)" where
  "name_indices i [] = Map.empty"
| "name_indices i (n # ns) = (name_indices (Suc i) ns)(n := (case name_indices (Suc i) ns n of None \<Rightarrow> Some i | Some j \<Rightarrow> Some j))"

definition newEmptyResultset :: "string list \<Rightarrow> resultset" where
  "newEmptyResultset names =
     \<lparr>rs_fields = map empty_field names, rs_fieldNames = name_indices 0 names, rs_values = []\<rparr>"

definition resultField :: "string \<Rightarrow> field_type \<Rightarrow> mysql_field" where
  "resultField name t =
     (let f = \<lparr>fd_name = name, fd_type = MYSQL_TYPE_DECIMAL, fd_charset = 63, fd_flag = []\<rparr> in
      case t of
        FieldTypeBool \<Rightarrow> f\<lparr>fd_type := MYSQL_TYPE_TINY\<rparr>
      | FieldTypeInt8 \<Rightarrow> f\<lparr>fd_type := MYSQL_TYPE_LONGLONG\<rparr>
      | FieldTypeInt16 \<Rightarrow> f\<lparr>fd_type := MYSQL_TYPE_LONGLONG\<rparr>
      | FieldTypeInt32 \<Rightarrow> f\<lparr>fd_type := MYSQL_TYPE_LONGLONG\<rparr>
      | FieldTypeInt64 \<Rightarrow> f\<lparr>fd_type := MYSQL_TYPE_LONGLONG\<rparr>
      | FieldTypeFloat \<Rightarrow> f\<lparr>fd_type := MYSQL_TYPE_DOUBLE\<rparr>
      | FieldTypeDouble \<Rightarrow> f\<lparr>fd_type := MYSQL_TYPE_DOUBLE\<rparr>
      | _ \<Rightarrow> f\<lparr>fd_type := MYSQL_TYPE_VAR_STRING, fd_charset := 33\<rparr>)"

section \<open>\<open>buildResultset\<close>\<close>

text \<open>\<open>formatField(r.Fields[j], v)\<close> over the first row.\<close>

definition formatFields :: "mysql_field list \<Rightarrow> goval list \<Rightarrow> mysql_field list result" where
  "formatFields fs row = traverse (\<lambda>(f, v). formatField f v) (zip fs row)"

text \<open>The loop over the rows; \<open>derive\<close> is \<open>len(fields) == 0\<close>.\<close>

fun check_rows :: "bool \<Rightarrow> nat \<Rightarrow> nat \<Rightarrow> mysql_field list \<Rightarrow> goval list list \<Rightarrow> mysql_field list result" where
  "check_rows derive n i fs [] = Inr fs"
| "check_rows derive n i fs (row # rows) =
     (if length row \<noteq> n
      then Inl (Err (''row '' @ itoa (int i) @ '' has '' @ itoa (int (length row)) @ '' columns, expected '' @ itoa (int n)))
      else if i = 0 \<and> derive then
        (case formatFields fs row of
           Inl e \<Rightarrow> Inl e
         | Inr fs' \<Rightarrow> check_rows derive n (i + 1) fs' rows)
      else check_rows derive n (i + 1) fs rows)"

definition buildResultset :: "mysql_field list \<Rightarrow> string list \<Rightarrow> goval list list \<Rightarrow> resultset result" where
  "buildResultset flds names values =
     (if flds \<noteq> [] \<and> length flds \<noteq> length names then Inl (ExtError ''ErrInvalidArgument'')
      else
        (let r0 = newEmptyResultset names;
             fs = (if flds \<noteq> [] then flds else rs_fields r0) in
         map_result (\<lambda>fs'. r0\<lparr>rs_fields := fs', rs_values := values\<rparr>)
           (check_rows (flds = []) (length names) 0 fs values)))"

section \<open>The session\<close>

record ('w, 'c) conn =
  c_ctx :: ctxt
  c_db :: string
  c_connectionId :: nat
  c_status :: nat
  c_affectedRows :: int64
  c_result :: "mysql_result option"
  c_describe :: bool
  c_world :: 'w
  c_calls :: "(ctxt \<times> 'c request) list"
  c_closes :: nat

type_synonym ('w, 'c, 'a) session_op = "(('w, 'c) conn, 'a) action"

definition NewSession :: "ctxt \<Rightarrow> 'w \<Rightarrow> ('w, 'c) conn" where
  "NewSession ctx w =
     \<lparr>c_ctx = ctx, c_db = ''default'', c_connectionId = 0, c_status = SERVER_STATUS_AUTOCOMMIT,
      c_affectedRows = 0, c_result = None, c_describe = False, c_world = w, c_calls = [],
      c_closes = 0\<rparr>"

text \<open>A remote call with the session's context.\<close>

definition call :: "'c request \<Rightarrow> (ctxt \<Rightarrow> ('w, 'a) rpc) \<Rightarrow> ('w, 'c, 'a) session_op" where
  "call req f = (\<lambda>s.
     (case f (c_ctx s) (c_world s) of
        (r, w) \<Rightarrow> (r, s\<lparr>c_world := w, c_calls := c_calls s @ [(c_ctx s, req)]\<rparr>)))"

definition writeOK :: "mysql_result option \<Rightarrow> ('w, 'c, unit) session_op" where
  "writeOK r = modify (\<lambda>s. s\<lparr>c_result := Some (case r of None \<Rightarrow> empty_result | Some x \<Rightarrow> x)\<rparr>)"

definition writeError :: "error \<Rightarrow> ('w, 'c, unit) session_op" where
  "writeError e = throw e"

definition writeResultset :: "nat \<Rightarrow> resultset \<Rightarrow> ('w, 'c, unit) session_op" where
  "writeResultset status r =
     modify (\<lambda>s. s\<lparr>c_result := Some (empty_result\<lparr>r_resultset := Some r, r_status := status\<rparr>)\<rparr>)"

definition rows :: "string list \<Rightarrow> goval list list \<Rightarrow> ('w, 'c, unit) session_op" where
  "rows names values = withState (\<lambda>s.
     andThen (lift_result (buildResultset [] names values)) (\<lambda>r. writeResultset (c_status s) r))"

text \<open>\<open>Execute\<close> and \<open>Describe\<close>; \<open>handleQuery\<close> is their parameter.\<close>

definition Execute ::
  "(string \<Rightarrow> ('w, 'c, unit) session_op) \<Rightarrow> ctxt \<Rightarrow> string \<Rightarrow> ('w, 'c, mysql_result) session_op" where
  "Execute handleQuery ctx sql =
     andThen (modify (\<lambda>s. s\<lparr>c_ctx := ctx, c_result := None\<rparr>)) (\<lambda>_.
     andThen (handleQuery sql) (\<lambda>_.
     withState (\<lambda>s.
       let r = (case c_result s of None \<Rightarrow> empty_result | Some r \<Rightarrow> r) in
       andThen (modify (\<lambda>s. s\<lparr>c_result := Some r\<rparr>)) (\<lambda>_. ret r))))"

text \<open>The deferred reset runs on success and on failure.\<close>

definition Describe ::
  "(string \<Rightarrow> ('w, 'c, unit) session_op) \<Rightarrow> ctxt \<Rightarrow> string \<Rightarrow> ('w, 'c, mysql_result) session_op" where
  "Describe handleQuery ctx sql = (\<lambda>s.
     (case Execute handleQuery ctx sql (s\<lparr>c_describe := True\<rparr>) of
        (r, s') \<Rightarrow> (r, s'\<lparr>c_describe := False\<rparr>)))"

text \<open>\<open>ClientConn.Close\<close>; a session made by \<open>NewSession\<close> always has its client.\<close>

definition CloseSession :: "('w, 'c) client \<Rightarrow> ('w, 'c, unit) session_op" where
  "CloseSession cl = modify (\<lambda>s. s\<lparr>c_world := cl_close cl (c_world s), c_closes := c_closes s + 1\<rparr>)"

definition GetCollectinSchema :: "('w, 'c) client \<Rightarrow> string \<Rightarrow> ('w, 'c, schema) session_op" where
  "GetCollectinSchema cl name =
     andThen (call (DescribeCollection name) (\<lambda>ctx. cl_describeCollection cl ctx name)) (\<lambda>col.
       case col of
         None \<Rightarrow> throw (Err ''collection has no schema'')
       | Some c \<Rightarrow>
           (case col_schema c of
              None \<Rightarrow> throw (Err ''collection has no schema'')
            | Some s \<Rightarrow> ret s))"

end
