(* ===== verification/Indexes.thy ===== *)
theory Indexes
  imports Session
begin

text \<open>
  \<open>pkg/indexes.go\<close>: the indexes of a collection and of one vector field.  The type assertion
  \<open>c.upstream.(*client.GrpcClient)\<close> succeeds when the client has its gRPC service, \<open>cl_grpc\<close>.
\<close>

definition generic_index :: "'c sdk \<Rightarrow> index_description \<Rightarrow> index" where
  "generic_index sdk d =
     (let params = kvPairsMap sdk (d_params d) in
      newGenericIndex sdk (d_indexName d) (map_get params ''index_type'') params)"

text \<open>The getters of a nil status give the zero values.\<close>

definition status_errorCode :: "grpc_status option \<Rightarrow> error_code" where
  "status_errorCode st = (case st of None \<Rightarrow> EC_Success | Some x \<Rightarrow> st_errorCode x)"

definition status_reason :: "grpc_status option \<Rightarrow> string" where
  "status_reason st = (case st of None \<Rightarrow> '''' | Some x \<Rightarrow> st_reason x)"

definition status_ok :: "grpc_status option \<Rightarrow> bool" where
  "status_ok st \<longleftrightarrow> (case st of None \<Rightarrow> False | Some x \<Rightarrow> st_errorCode x = EC_Success \<and> st_code x = 0)"

definition listIndexes :: "('w, 'c) client \<Rightarrow> 'c sdk \<Rightarrow> string \<Rightarrow> ('w, 'c, index list) session_op" where
  "listIndexes cl sdk table =
     (case cl_grpc cl of
        None \<Rightarrow> throw (Err ''index listing requires the Milvus gRPC client'')
      | Some service \<Rightarrow>
          andThen (call (GrpcDescribeIndex table '''') (\<lambda>ctx. service ctx table '''')) (\<lambda>resp.
            if status_errorCode (resp_status resp) = EC_IndexNotExist then ret []
            else if \<not> status_ok (resp_status resp)
            then throw (Err (''describe indexes: '' @ status_reason (resp_status resp)))
            else ret (map (generic_index sdk) (resp_descriptions resp))))"

definition vectorIndexes ::
  "('w, 'c) client \<Rightarrow> 'c sdk \<Rightarrow> string \<Rightarrow> string \<Rightarrow> ('w, 'c, index list) session_op" where
  "vectorIndexes cl sdk table fld =
     (case cl_grpc cl of
        Some service \<Rightarrow>
          andThen (call (GrpcDescribeIndex table fld) (\<lambda>ctx. service ctx table fld)) (\<lambda>resp.
            if \<not> status_ok (resp_status resp)
            then throw (Err (''describe vector index: '' @ status_reason (resp_status resp)))
            else ret (map (generic_index sdk) (filter (\<lambda>d. d_fieldName d = fld) (resp_descriptions resp))))
      | None \<Rightarrow> call (DescribeIndex table fld) (\<lambda>ctx. cl_describeIndex cl ctx table fld))"

end
