(* ===== verification/GoRegexp.thy ===== *)
theory GoRegexp
  imports GoQuote
begin

text \<open>
  Go's \<open>regexp\<close> for the patterns of the proxy: all are anchored at the start of the text, repeat
  only single-character classes, and are matched leftmost-first, so a backtracking matcher over a
  list of atoms gives the match and the groups that \<open>FindStringSubmatch\<close> returns.

  The text is decoded rune by rune.  With the flag \<open>(?i)\<close> the letters s and k also match the two
  runes that fold to them, the long s (U+017F) and the Kelvin sign (U+212A), as in the Go library.
\<close>

type_synonym rune_set = "(nat \<times> nat) list"

datatype atom =
    Rune rune_set
  | Star rune_set
  | Alt "atom list list"
  | Open nat
  | Close nat
  | End
  | Bound

type_synonym pattern = "atom list"

definition in_set :: "nat \<Rightarrow> rune_set \<Rightarrow> bool" where
  "in_set r rs \<longleftrightarrow> list_ex (\<lambda>(lo, hi). lo \<le> r \<and> r \<le> hi) rs"

definition word_rune :: "nat \<Rightarrow> bool" where
  "word_rune r \<longleftrightarrow> in_set r [(48, 57), (65, 90), (95, 95), (97, 122)]"

text \<open>The rune after the position; \<open>None\<close> at the end of the text.\<close>

definition next_rune :: "string \<Rightarrow> nat option" where
  "next_rune s = (if s = [] then None else Some (fst (decode_rune s)))"

definition at_boundary :: "nat option \<Rightarrow> string \<Rightarrow> bool" where
  "at_boundary prev s \<longleftrightarrow>
     (case prev of None \<Rightarrow> False | Some r \<Rightarrow> word_rune r) \<noteq>
     (case next_rune s of None \<Rightarrow> False | Some r \<Rightarrow> word_rune r)"

fun atom_size :: "atom \<Rightarrow> nat" and pattern_size :: "pattern \<Rightarrow> nat" and alts_size :: "pattern list \<Rightarrow> nat" where
  "atom_size (Alt ps) = Suc (alts_size ps)"
| "atom_size _ = 1"
| "pattern_size [] = 0"
| "pattern_size (a # p) = atom_size a + pattern_size p"
| "alts_size [] = 0"
| "alts_size (p # ps) = Suc (pattern_size p + alts_size ps)"

lemma atom_size_pos [simp]: "0 < atom_size a"
  by (cases a) simp_all

lemma pattern_size_append [simp]: "pattern_size (p @ q) = pattern_size p + pattern_size q"
  by (induction p) simp_all

lemma drop_rune_length: "next_rune s = Some r \<Longrightarrow> length (drop (snd (decode_rune s)) s) < length s"
  using decode_width [of s] by (cases s) (auto simp: next_rune_def)

text \<open>
  \<open>prev\<close> is the rune before the position; \<open>opens\<close> holds where the groups began; the result is the
  captured groups and the text after the match.
\<close>

type_synonym groups = "(nat \<times> string) list"

function match :: "pattern \<Rightarrow> nat option \<Rightarrow> string \<Rightarrow> groups \<Rightarrow> groups \<Rightarrow> (groups \<times> string) option" where
  "match [] prev s opens caps = Some (caps, s)"
| "match (Rune rs # p) prev s opens caps =
     (case next_rune s of
        None \<Rightarrow> None
      | Some r \<Rightarrow>
          if in_set r rs then match p (Some r) (drop (snd (decode_rune s)) s) opens caps else None)"
| "match (Star rs # p) prev s opens caps =
     (case next_rune s of
        None \<Rightarrow> match p prev s opens caps
      | Some r \<Rightarrow>
          if in_set r rs then
            (case match (Star rs # p) (Some r) (drop (snd (decode_rune s)) s) opens caps of
               Some m \<Rightarrow> Some m
             | None \<Rightarrow> match p prev s opens caps)
          else match p prev s opens caps)"
| "match (Alt [] # p) prev s opens caps = None"
| "match (Alt (q # qs) # p) prev s opens caps =
     (case match (q @ p) prev s opens caps of
        Some m \<Rightarrow> Some m
      | None \<Rightarrow> match (Alt qs # p) prev s opens caps)"
| "match (Open n # p) prev s opens caps = match p prev s ((n, s) # opens) caps"
| "match (Close n # p) prev s opens caps =
     (case map_of opens n of
        None \<Rightarrow> match p prev s opens caps
      | Some start \<Rightarrow> match p prev s opens ((n, take (length start - length s) start) # caps))"
| "match (End # p) prev s opens caps = (if s = [] then match p prev s opens caps else None)"
| "match (Bound # p) prev s opens caps = (if at_boundary prev s then match p prev s opens caps else None)"
  by pat_completeness auto

termination
  by (relation "measures [\<lambda>(p, prev, s, opens, caps). length s, \<lambda>(p, prev, s, opens, caps). pattern_size p]")
     (auto dest: drop_rune_length)

text \<open>\<open>FindStringSubmatch\<close>: the groups, or \<open>None\<close>; a group that took no part is empty.\<close>

definition find_submatch :: "pattern \<Rightarrow> string \<Rightarrow> groups option" where
  "find_submatch p s = map_option fst (match p None s [] [])"

definition match_string :: "pattern \<Rightarrow> string \<Rightarrow> bool" where
  "match_string p s \<longleftrightarrow> find_submatch p s \<noteq> None"

definition group :: "groups \<Rightarrow> nat \<Rightarrow> string" where
  "group m n = (case map_of m n of None \<Rightarrow> '''' | Some x \<Rightarrow> x)"

text \<open>An anchored pattern matches at most once, so \<open>ReplaceAllString\<close> replaces at most one prefix.\<close>

definition replace_match :: "pattern \<Rightarrow> string \<Rightarrow> string \<Rightarrow> string" where
  "replace_match p s repl = (case match p None s [] [] of None \<Rightarrow> s | Some (_, rest) \<Rightarrow> repl @ rest)"

section \<open>Building patterns with \<open>(?i)\<close>\<close>

definition fold_set :: "char \<Rightarrow> rune_set" where
  "fold_set c =
     (let u = byte (ascii_upper c); l = byte (ascii_lower c) in
      [(u, u), (l, l)] @ (if l = 115 then [(0x17F, 0x17F)] else if l = 107 then [(0x212A, 0x212A)] else []))"

definition lit :: "string \<Rightarrow> pattern" where
  "lit s = map (\<lambda>c. Rune (fold_set c)) s"

definition ident_start_set :: rune_set where
  "ident_start_set = [(65, 90), (97, 122), (95, 95), (0x17F, 0x17F), (0x212A, 0x212A)]"

definition ident_set :: rune_set where
  "ident_set = ident_start_set @ [(48, 57)]"

definition space_set :: rune_set where
  "space_set = [(9, 10), (12, 13), (32, 32)]"

definition any_rune :: rune_set where "any_rune = [(0, 0x10FFFF)]"

definition any_but_newline :: rune_set where "any_but_newline = [(0, 9), (11, 0x10FFFF)]"

definition grp :: "nat \<Rightarrow> pattern \<Rightarrow> pattern" where
  "grp n p = Open n # p @ [Close n]"

definition ident_chars :: pattern where
  "ident_chars = [Rune ident_start_set, Star ident_set]"

definition ident :: "nat \<Rightarrow> pattern" where
  "ident n = grp n ident_chars"

definition spaces :: pattern where "spaces = [Star space_set]"

definition spaces1 :: pattern where "spaces1 = [Rune space_set, Star space_set]"

end
