(* ===== verification/Commands.thy ===== *)
theory Commands
  imports Indexes GoRegexp
begin

text \<open>
  \<open>pkg/commands.go\<close>: the commands that are recognised by pattern before the SQL parser runs.
\<close>

section \<open>Patterns\<close>

definition lifecycleRE :: pattern where
  "lifecycleRE = grp 1 [Alt [lit ''LOAD'', lit ''RELEASE'', lit ''FLUSH'']] @ lit '' '' @
     [Alt [lit ''TABLE'', lit ''COLLECTION'']] @ lit '' '' @ ident 2 @ [End]"

definition describeRE :: pattern where
  "describeRE = [Alt [lit ''DESCRIBE'', lit ''DESC'']] @ lit '' '' @ ident 1 @ [End]"

definition createIndexRE :: pattern where
  "createIndexRE = lit ''CREATE INDEX '' @ ident 1 @ lit '' ON '' @ ident 2 @ spaces @ lit ''('' @ spaces @
     ident 3 @ spaces @ lit '') USING '' @
     grp 4 [Alt [lit ''FLAT'', lit ''IVF_FLAT'', lit ''HNSW'', lit ''AUTOINDEX'', lit ''INVERTED'']] @
     [Alt [lit '' WITH'' @ spaces @ lit ''('' @ grp 5 [Star any_but_newline] @ lit '')'', []]] @ [End]"

definition dropIndexRE :: pattern where
  "dropIndexRE = lit ''DROP INDEX '' @ ident 1 @ lit '' ON '' @ ident 2 @ [End]"

definition showIndexesRE :: pattern where
  "showIndexesRE = lit ''SHOW INDEXES FROM '' @ ident 1 @ [End]"

definition partitionRE :: pattern where
  "partitionRE = grp 1 [Alt [lit ''CREATE'', lit ''DROP'', lit ''LOAD'', lit ''RELEASE'']] @
     lit '' PARTITION '' @ ident 2 @ lit '' ON '' @ ident 3 @ [End]"

definition showPartitionsRE :: pattern where
  "showPartitionsRE = lit ''SHOW PARTITIONS FROM '' @ ident 1 @ [End]"

definition upsertRE :: pattern where
  "upsertRE = lit ''UPSERT'' @ spaces1 @ lit ''INTO'' @ [Bound]"

text \<open>\<open>strings.TrimSpace(strings.TrimSuffix(strings.TrimSpace(sql), ";"))\<close>\<close>

definition trim_command :: "string \<Rightarrow> string" where
  "trim_command sql = trim_space (trim_suffix (trim_space sql) '';'')"

section \<open>Index parameters\<close>

definition map_put :: "(string \<times> 'v) list \<Rightarrow> string \<Rightarrow> 'v \<Rightarrow> (string \<times> 'v) list" where
  "map_put m k v = (k, v) # filter (\<lambda>kv. fst kv \<noteq> k) m"

text \<open>\<open>if params[k] == "" { params[k] = v }\<close>\<close>

definition map_default :: "(string \<times> string) list \<Rightarrow> string \<Rightarrow> string \<Rightarrow> (string \<times> string) list" where
  "map_default m k v = (if map_get (Some m) k = '''' then map_put m k v else m)"

fun index_options :: "(string \<times> string) list \<Rightarrow> string list \<Rightarrow> (string \<times> string) list result" where
  "index_options params [] = Inr params"
| "index_options params (part # parts) =
     (case split2 (CHR ''='') part of
        [k, v] \<Rightarrow>
          (let key = trim_space k in
           if key \<notin> set [''metric_type'', ''M'', ''efConstruction'', ''nlist'']
           then Inl (Err (''unsupported index parameter '' @ key))
           else if map_of params key \<noteq> None then Inl (Err ''duplicate index parameter'')
           else index_options (map_put params key (trim_set (trim_space v) [squote, dquote])) parts)
      | _ \<Rightarrow> Inl (Err ''index options must be key=value''))"

definition default_metric :: "(string \<times> string) list \<Rightarrow> (string \<times> string) list result" where
  "default_metric params =
     (if map_get (Some params) ''index_type'' \<noteq> ''INVERTED'' then
        (let params' = map_default params ''metric_type'' ''L2'' in
         if map_get (Some params') ''metric_type'' \<in> set [''L2'', ''IP'', ''COSINE'']
         then Inr params' else Inl (Err ''metric_type must be L2, IP or COSINE''))
      else Inr params)"

definition default_build :: "(string \<times> string) list \<Rightarrow> (string \<times> string) list" where
  "default_build params =
     (let kind = map_get (Some params) ''index_type'' in
      if kind = ''HNSW'' then map_default (map_default params ''M'' ''16'') ''efConstruction'' ''200''
      else if kind = ''IVF_FLAT'' then map_default params ''nlist'' ''128''
      else params)"

definition index_params :: "string \<Rightarrow> string \<Rightarrow> (string \<times> string) list result" where
  "index_params kind options =
     (let params = [(''index_type'', to_upper kind)] in
      case (if options \<noteq> '''' then index_options params (split_on (CHR '','') options) else Inr params) of
        Inl e \<Rightarrow> Inl e
      | Inr params' \<Rightarrow> map_result default_build (default_metric params'))"

definition allowed_params :: "string \<Rightarrow> string list" where
  "allowed_params kind =
     [''index_type''] @ (if kind \<noteq> ''INVERTED'' then [''metric_type''] else []) @
     (if kind = ''HNSW'' then [''M'', ''efConstruction''] else if kind = ''IVF_FLAT'' then [''nlist''] else [])"

text \<open>
  The loop over the map has no fixed order; when several keys are not allowed Go may report any of
  them, and the definition reports the first.
\<close>

definition buildIndex :: "'c sdk \<Rightarrow> (string \<times> string) list \<Rightarrow> index result" where
  "buildIndex sdk params =
     (let get = map_get (Some params); kind = get ''index_type''; metric = get ''metric_type'' in
      case filter (\<lambda>k. k \<notin> set (allowed_params kind)) (map fst params) of
        key # _ \<Rightarrow> Inl (Err (''parameter '' @ key @ '' is not valid for '' @ kind))
      | [] \<Rightarrow>
          if kind = ''FLAT'' then newIndexFlat sdk metric
          else if kind = ''HNSW'' then
            (case atoi (get ''M'') of
               Inl e \<Rightarrow> Inl e
             | Inr m \<Rightarrow>
                 (case atoi (get ''efConstruction'') of
                    Inl e \<Rightarrow> Inl e
                  | Inr ef \<Rightarrow> newIndexHNSW sdk metric m ef))
          else if kind = ''IVF_FLAT'' then
            (case atoi (get ''nlist'') of
               Inl e \<Rightarrow> Inl e
             | Inr n \<Rightarrow> newIndexIvfFlat sdk metric n)
          else if kind = ''AUTOINDEX'' then newIndexAUTOINDEX sdk metric
          else if kind = ''INVERTED''
          then Inr (newGenericIndex sdk '''' kind (Some [(''index_type'', kind), (''params'', ''{}'')]))
          else Inl (Err (''unsupported index type '' @ kind)))"

section \<open>Commands\<close>

text \<open>\<open>if c.describe { return c.writeOK(nil) }\<close> and the same for an empty result.\<close>

definition unless_describing ::
  "('w, 'c, unit) session_op \<Rightarrow> ('w, 'c, unit) session_op \<Rightarrow> ('w, 'c, unit) session_op" where
  "unless_describing described act = withState (\<lambda>s. if c_describe s then described else act)"

definition then_OK :: "('w, 'c, unit) session_op \<Rightarrow> ('w, 'c, unit) session_op" where
  "then_OK act = andThen act (\<lambda>_. writeOK None)"

definition cmd_lifecycle :: "('w, 'c) client \<Rightarrow> groups \<Rightarrow> ('w, 'c, unit) session_op" where
  "cmd_lifecycle cl m =
     (let verb = to_upper (group m 1); t = group m 2 in
      unless_describing (writeOK None)
       (then_OK
         (if verb = ''LOAD'' then call (LoadCollection t) (\<lambda>ctx. cl_loadCollection cl ctx t)
          else if verb = ''RELEASE'' then call (ReleaseCollection t) (\<lambda>ctx. cl_releaseCollection cl ctx t)
          else if verb = ''FLUSH'' then call (FlushCollection t) (\<lambda>ctx. cl_flush cl ctx t)
          else ret ())))"

definition describe_names :: "string list" where
  "describe_names = [''Field'', ''Type'', ''PrimaryKey'', ''AutoID'', ''Parameters'']"

definition marshal_string_map :: "string_map \<Rightarrow> string" where
  "marshal_string_map m = (case m of None \<Rightarrow> ''null'' | Some kvs \<Rightarrow> marshal_map kvs)"

definition describe_row :: "'c sdk \<Rightarrow> field \<Rightarrow> goval list" where
  "describe_row sdk f =
     [GString (f_name f), GString (typeString sdk (f_dataType f)), GBool (f_primaryKey f), GBool (f_autoID f),
      GString (marshal_string_map (f_typeParams f))]"

definition cmd_describe :: "('w, 'c) client \<Rightarrow> 'c sdk \<Rightarrow> groups \<Rightarrow> ('w, 'c, unit) session_op" where
  "cmd_describe cl sdk m =
     unless_describing
       (withState (\<lambda>s.
          andThen (lift_result (buildResultset [] describe_names [])) (\<lambda>r.
            writeResultset (c_status s)
              (r\<lparr>rs_fields := (rs_fields r)[2 := resultField (describe_names ! 2) FieldTypeBool,
                                          3 := resultField (describe_names ! 3) FieldTypeBool]\<rparr>))))
       (andThen (GetCollectinSchema cl (group m 1)) (\<lambda>sch.
          rows describe_names (map (describe_row sdk) (s_fields sch))))"

definition cmd_createIndex :: "('w, 'c) client \<Rightarrow> 'c sdk \<Rightarrow> groups \<Rightarrow> ('w, 'c, unit) session_op" where
  "cmd_createIndex cl sdk m =
     unless_describing (writeOK None)
       (andThen (lift_result (index_params (group m 4) (group m 5))) (\<lambda>params.
        andThen (lift_result (buildIndex sdk params)) (\<lambda>idx.
        (let i = \<lparr>ix_name = group m 1, ix_type = map_get (Some params) ''index_type'', ix_params = ix_params idx\<rparr> in
         then_OK (call (CreateIndex (group m 2) (group m 3) i (group m 1))
                   (\<lambda>ctx. cl_createIndex cl ctx (group m 2) (group m 3) i (group m 1)))))))"

definition cmd_dropIndex :: "('w, 'c) client \<Rightarrow> groups \<Rightarrow> ('w, 'c, unit) session_op" where
  "cmd_dropIndex cl m =
     unless_describing (writeOK None)
       (then_OK (call (DropIndex (group m 2) '''' (group m 1))
                  (\<lambda>ctx. cl_dropIndex cl ctx (group m 2) '''' (group m 1))))"

definition index_row :: "index \<Rightarrow> goval list" where
  "index_row i = [GString (ix_name i), GString (ix_type i), GString (marshal_string_map (ix_params i))]"

definition cmd_showIndexes :: "('w, 'c) client \<Rightarrow> 'c sdk \<Rightarrow> groups \<Rightarrow> ('w, 'c, unit) session_op" where
  "cmd_showIndexes cl sdk m =
     (let names = [''Name'', ''Type'', ''Parameters''] in
      unless_describing (rows names [])
        (andThen (listIndexes cl sdk (group m 1)) (\<lambda>indexes. rows names (map index_row indexes))))"

definition cmd_partition :: "('w, 'c) client \<Rightarrow> groups \<Rightarrow> ('w, 'c, unit) session_op" where
  "cmd_partition cl m =
     (let verb = to_upper (group m 1); p = group m 2; t = group m 3 in
      unless_describing (writeOK None)
       (then_OK
         (if verb = ''CREATE'' then call (CreatePartition t p) (\<lambda>ctx. cl_createPartition cl ctx t p)
          else if verb = ''DROP'' then call (DropPartition t p) (\<lambda>ctx. cl_dropPartition cl ctx t p)
          else if verb = ''LOAD'' then call (LoadPartitions t [p]) (\<lambda>ctx. cl_loadPartitions cl ctx t [p])
          else if verb = ''RELEASE'' then call (ReleasePartitions t [p]) (\<lambda>ctx. cl_releasePartitions cl ctx t [p])
          else ret ())))"

definition cmd_showPartitions :: "('w, 'c) client \<Rightarrow> groups \<Rightarrow> ('w, 'c, unit) session_op" where
  "cmd_showPartitions cl m =
     (let names = [''Partition'']; t = group m 1 in
      unless_describing (rows names [])
        (andThen (call (ShowPartitions t) (\<lambda>ctx. cl_showPartitions cl ctx t)) (\<lambda>ps.
           rows names (map (\<lambda>p. [GString p]) ps))))"

text \<open>The commands in the order in which they are tried, \<open>UPSERT\<close> apart.\<close>

definition commands :: "('w, 'c) client \<Rightarrow> 'c sdk \<Rightarrow> (pattern \<times> (groups \<Rightarrow> ('w, 'c, unit) session_op)) list" where
  "commands cl sdk =
     [(lifecycleRE, cmd_lifecycle cl), (describeRE, cmd_describe cl sdk), (createIndexRE, cmd_createIndex cl sdk),
      (dropIndexRE, cmd_dropIndex cl), (showIndexesRE, cmd_showIndexes cl sdk), (partitionRE, cmd_partition cl),
      (showPartitionsRE, cmd_showPartitions cl)]"

fun run_command ::
  "(pattern \<times> (groups \<Rightarrow> ('w, 'c, unit) session_op)) list \<Rightarrow> string \<Rightarrow> ('w, 'c, bool) session_op" where
  "run_command [] sql = ret False"
| "run_command ((p, act) # cs) sql =
     (case find_submatch p sql of
        Some m \<Rightarrow> andThen (act m) (\<lambda>_. ret True)
      | None \<Rightarrow> run_command cs sql)"

text \<open>
  The pair \<open>(handled, err)\<close>: an error is only returned with \<open>handled\<close>, so \<open>Inr False\<close> is
  \<open>(false, nil)\<close>.  \<open>handleQuery\<close> is called back for UPSERT.
\<close>

definition handleMilvusCommand ::
  "('w, 'c) client \<Rightarrow> 'c sdk \<Rightarrow> (string \<Rightarrow> ('w, 'c, unit) session_op) \<Rightarrow> string \<Rightarrow> ('w, 'c, bool) session_op" where
  "handleMilvusCommand cl sdk handleQuery sql0 =
     (let sql = trim_command sql0 in
      if match_string upsertRE sql
      then andThen (unless_describing (writeOK None) (handleQuery (replace_match upsertRE sql ''REPLACE INTO'')))
             (\<lambda>_. ret True)
      else run_command (commands cl sdk) sql)"

end
