(* ===== verification/Insert.thy ===== *)
theory Insert
  imports Session SelectPlan
begin

text \<open>
  \<open>pkg/insert.go\<close>: INSERT, REPLACE (upsert) and DELETE.  The rows of the statement are turned into
  one column per field; every value is converted to the type of its field before any column is
  sent.
\<close>

section \<open>Values of fields\<close>

definition literalText :: "expr \<Rightarrow> string result" where
  "literalText e =
     (let failure = Inl (Err ''expected a literal value'') in
      case e of
        SQLVal t v \<Rightarrow> if t = StrVal \<or> t = IntVal \<or> t = FloatVal then Inr v else failure
      | BoolVal b \<Rightarrow> Inr (format_bool b)
      | UnaryExpr op x \<Rightarrow>
          if op = ''-'' \<or> op = ''+'' then
            (case x of
               SQLVal t v \<Rightarrow> if t = IntVal \<or> t = FloatVal then Inr (op @ v) else failure
             | _ \<Rightarrow> failure)
          else failure
      | _ \<Rightarrow> failure)"

text \<open>\<open>n, _ := strconv.Atoi(s)\<close>: 0 for a syntax error, the nearest limit when out of range.\<close>

definition atoi_value :: "string \<Rightarrow> int" where
  "atoi_value s =
     (case atoi s of
        Inr n \<Rightarrow> n
      | Inl (NumError _ _ ErrRange) \<Rightarrow> if has_prefix s ''-'' then - (2 ^ 63) else 2 ^ 63 - 1
      | Inl _ \<Rightarrow> 0)"

definition parse_field_int :: "field_type \<Rightarrow> string \<Rightarrow> goval result" where
  "parse_field_int t text =
     (case t of
        FieldTypeInt8 \<Rightarrow> map_result (\<lambda>n. GInt8 (word_of_int n)) (parse_int text 8)
      | FieldTypeInt16 \<Rightarrow> map_result (\<lambda>n. GInt16 (word_of_int n)) (parse_int text 16)
      | FieldTypeInt32 \<Rightarrow> map_result (\<lambda>n. GInt32 (word_of_int n)) (parse_int text 32)
      | _ \<Rightarrow> map_result (\<lambda>n. GInt64 (word_of_int n)) (parse_int text 64))"

definition parse_field_bool :: "string \<Rightarrow> goval result" where
  "parse_field_bool text =
     (if text = ''1'' then Inr (GBool True)
      else if text = ''0'' then Inr (GBool False)
      else map_result GBool (parse_bool text))"

definition parse_field_float :: "string \<Rightarrow> goval result" where
  "parse_field_float text =
     (case parse_float32 text of
        Inl e \<Rightarrow> Inl e
      | Inr w \<Rightarrow> if \<not> is_finite64 (float64_of_32 w) then Inl (Err ''non-finite float'') else Inr (GFloat32 w))"

definition parse_field_double :: "string \<Rightarrow> goval result" where
  "parse_field_double text =
     (case parse_float64 text of
        Inl e \<Rightarrow> Inl e
      | Inr w \<Rightarrow> if \<not> is_finite64 w then Inl (Err ''non-finite float'') else Inr (GFloat64 w))"

definition parse_field_varchar :: "string_map \<Rightarrow> expr \<Rightarrow> string \<Rightarrow> goval result" where
  "parse_field_varchar params e text =
     (case e of
        SQLVal StrVal _ \<Rightarrow>
          (case atoi (map_get params ''max_length'') of
             Inl _ \<Rightarrow> Inl (Err ''string exceeds max_length'')
           | Inr m \<Rightarrow>
               if m < int (length text) then Inl (Err ''string exceeds max_length'') else Inr (GString text))
      | _ \<Rightarrow> Inl (Err ''expected string literal''))"

definition parse_field_vector :: "string_map \<Rightarrow> string \<Rightarrow> goval result" where
  "parse_field_vector params text =
     (case unmarshal_raw text of
        Inl e \<Rightarrow> Inl e
      | Inr raw \<Rightarrow>
          if ''null'' \<in> set raw then Inl (Err ''vector elements must be numbers'')
          else
            (case unmarshal_floats text of
               Inl e \<Rightarrow> Inl e
             | Inr v \<Rightarrow>
                 (let dim = atoi_value (map_get params ''dim'') in
                  if int (length v) \<noteq> dim
                  then Inl (Err (''vector dimension '' @ itoa (int (length v)) @ '', expected '' @ itoa dim))
                  else Inr (GFloats v))))"

text \<open>The argument of \<open>json_vector(...)\<close> for a vector field; any other expression is kept.\<close>

definition vector_argument :: "field \<Rightarrow> expr \<Rightarrow> expr result" where
  "vector_argument f e =
     (if f_dataType f = FieldTypeFloatVector then
        (case e of
           FuncExpr _ name _ exprs \<Rightarrow>
             if \<not> equal_fold name ''json_vector'' \<or> length exprs \<noteq> 1
             then Inl (Err ''expected json_vector(string)'')
             else (case hd exprs of AliasedExpr x _ \<Rightarrow> Inr x | _ \<Rightarrow> Inl (Err ''invalid vector argument''))
         | _ \<Rightarrow> Inr e)
      else Inr e)"

definition fieldValue :: "'c sdk \<Rightarrow> field \<Rightarrow> expr \<Rightarrow> goval result" where
  "fieldValue sdk f e0 =
     (case vector_argument f e0 of
        Inl err \<Rightarrow> Inl err
      | Inr e \<Rightarrow>
          (case literalText e of
             Inl err \<Rightarrow> Inl err
           | Inr text \<Rightarrow>
               (case f_dataType f of
                  FieldTypeBool \<Rightarrow> parse_field_bool text
                | FieldTypeInt8 \<Rightarrow> parse_field_int FieldTypeInt8 text
                | FieldTypeInt16 \<Rightarrow> parse_field_int FieldTypeInt16 text
                | FieldTypeInt32 \<Rightarrow> parse_field_int FieldTypeInt32 text
                | FieldTypeInt64 \<Rightarrow> parse_field_int FieldTypeInt64 text
                | FieldTypeFloat \<Rightarrow> parse_field_float text
                | FieldTypeDouble \<Rightarrow> parse_field_double text
                | FieldTypeVarChar \<Rightarrow> parse_field_varchar (f_typeParams f) e text
                | FieldTypeJSON \<Rightarrow>
                    if json_valid text then Inr (GBytes text) else Inl (Err ''invalid JSON'')
                | FieldTypeFloatVector \<Rightarrow> parse_field_vector (f_typeParams f) text
                | t \<Rightarrow> Inl (Err (''unsupported field type '' @ typeString sdk t)))))"

section \<open>Columns\<close>

definition column_kind_of :: "'c sdk \<Rightarrow> field \<Rightarrow> column_kind result" where
  "column_kind_of sdk f =
     (case f_dataType f of
        FieldTypeBool \<Rightarrow> Inr ColumnBool
      | FieldTypeInt8 \<Rightarrow> Inr ColumnInt8
      | FieldTypeInt16 \<Rightarrow> Inr ColumnInt16
      | FieldTypeInt32 \<Rightarrow> Inr ColumnInt32
      | FieldTypeInt64 \<Rightarrow> Inr ColumnInt64
      | FieldTypeFloat \<Rightarrow> Inr ColumnFloat
      | FieldTypeDouble \<Rightarrow> Inr ColumnDouble
      | FieldTypeVarChar \<Rightarrow> Inr ColumnVarChar
      | FieldTypeJSON \<Rightarrow> Inr ColumnJSONBytes
      | FieldTypeFloatVector \<Rightarrow>
          (case atoi (map_get (f_typeParams f) ''dim'') of
             Inl _ \<Rightarrow> Inl (Err ''invalid vector dimension'')
           | Inr dim \<Rightarrow> if dim \<le> 0 then Inl (Err ''invalid vector dimension'') else Inr (ColumnFloatVector dim))
      | t \<Rightarrow> Inl (Err (''unsupported field type '' @ typeString sdk t)))"

definition emptyColumn :: "'c sdk \<Rightarrow> field \<Rightarrow> 'c result" where
  "emptyColumn sdk f = map_result (\<lambda>k. newColumn sdk k (f_name f)) (column_kind_of sdk f)"

text \<open>The map from names to fields; a later field of the same name replaces an earlier one.\<close>

definition field_map :: "field list \<Rightarrow> string \<Rightarrow> field option" where
  "field_map fs n = map_of (rev (map (\<lambda>f. (f_name f, f)) fs)) n"

lemma field_map_Some: "field_map fs n = Some f \<Longrightarrow> f \<in> set fs \<and> f_name f = n"
  by (auto simp: field_map_def dest: map_of_SomeD)

definition insert_names :: "schema \<Rightarrow> insert_stmt \<Rightarrow> string list" where
  "insert_names sch s =
     (if ins_columns s = [] then map f_name (filter (\<lambda>f. \<not> f_autoID f) (s_fields sch)) else ins_columns s)"

fun check_names :: "(string \<Rightarrow> field option) \<Rightarrow> string list \<Rightarrow> string list \<Rightarrow> unit result" where
  "check_names flds seen [] = Inr ()"
| "check_names flds seen (n # ns) =
     (case flds n of
        None \<Rightarrow> Inl (Err (''unknown field '' @ n))
      | Some f \<Rightarrow>
          if n \<in> set seen then Inl (Err (''duplicate field '' @ n))
          else if f_autoID f then Inl (Err (''auto-ID field '' @ n @ '' must be omitted''))
          else check_names flds (n # seen) ns)"

fun check_missing :: "string list \<Rightarrow> field list \<Rightarrow> unit result" where
  "check_missing seen [] = Inr ()"
| "check_missing seen (f # fs) =
     (if \<not> f_autoID f \<and> f_name f \<notin> set seen then Inl (Err (''missing field '' @ f_name f))
      else check_missing seen fs)"

fun check_row_lengths :: "nat \<Rightarrow> nat \<Rightarrow> expr list list \<Rightarrow> unit result" where
  "check_row_lengths n i [] = Inr ()"
| "check_row_lengths n i (row # rs) =
     (if length row \<noteq> n
      then Inl (Err (''row '' @ itoa (int i + 1) @ '' has '' @ itoa (int (length row)) @ '' values, expected '' @ itoa (int n)))
      else check_row_lengths n (i + 1) rs)"

text \<open>The loop that fills column \<open>j\<close>.\<close>

fun append_values :: "'c sdk \<Rightarrow> field \<Rightarrow> string \<Rightarrow> nat \<Rightarrow> nat \<Rightarrow> 'c \<Rightarrow> expr list list \<Rightarrow> 'c result" where
  "append_values sdk f name j i c [] = Inr c"
| "append_values sdk f name j i c (row # rs) =
     (if length row \<le> j then Inl (Panic ''index out of range'')
      else
        (case fieldValue sdk f (row ! j) of
           Inl e \<Rightarrow> Inl (WrapErr e (''field '' @ name @ '' row '' @ itoa (int i + 1)))
         | Inr v \<Rightarrow>
             (case appendValue sdk c v of
                Inl e \<Rightarrow> Inl e
              | Inr c' \<Rightarrow> append_values sdk f name j (i + 1) c' rs)))"

definition fill_column ::
  "'c sdk \<Rightarrow> (string \<Rightarrow> field option) \<Rightarrow> expr list list \<Rightarrow> nat \<times> string \<Rightarrow> 'c result" where
  "fill_column sdk flds rs jn =
     (case flds (snd jn) of
        None \<Rightarrow> Inl (Panic ''nil pointer dereference'')
      | Some f \<Rightarrow>
          (case emptyColumn sdk f of
             Inl e \<Rightarrow> Inl e
           | Inr c \<Rightarrow> append_values sdk f (snd jn) (fst jn) 0 c rs))"

definition FillInsertColumns :: "'c sdk \<Rightarrow> schema \<Rightarrow> insert_stmt \<Rightarrow> 'c list result" where
  "FillInsertColumns sdk sch s =
     (case ins_rows s of
        OtherRows _ \<Rightarrow> Inl (Err ''INSERT requires VALUES rows'')
      | Values rs \<Rightarrow>
          if rs = [] then Inl (Err ''INSERT requires VALUES rows'')
          else
            (let flds = field_map (s_fields sch); names = insert_names sch s in
             case check_names flds [] names of
               Inl e \<Rightarrow> Inl e
             | Inr _ \<Rightarrow>
                 if ins_action s = ReplaceStr \<and> list_ex f_autoID (s_fields sch)
                 then Inl (Err ''upsert requires an explicit primary key; auto-ID collections are unsupported'')
                 else
                   (case check_missing names (s_fields sch) of
                      Inl e \<Rightarrow> Inl e
                    | Inr _ \<Rightarrow>
                        (case check_row_lengths (length names) 0 rs of
                           Inl e \<Rightarrow> Inl e
                         | Inr _ \<Rightarrow> traverse (fill_column sdk flds rs) (List.enumerate 0 names)))))"

section \<open>Handlers\<close>

definition row_count :: "insert_rows \<Rightarrow> nat" where
  "row_count r = (case r of Values rs \<Rightarrow> length rs | OtherRows _ \<Rightarrow> 0)"

text \<open>The generated key of the first row, when the client reports a non-negative one.\<close>

definition insert_id :: "'c sdk \<Rightarrow> 'c option \<Rightarrow> int64" where
  "insert_id sdk ids =
     (case ids of
        None \<Rightarrow> 0
      | Some c \<Rightarrow>
          if 0 < columnLen sdk c then
            (case columnGet sdk c 0 of
               Inr (GInt64 n) \<Rightarrow> if 0 \<le> sint n then n else 0
             | _ \<Rightarrow> 0)
          else 0)"

definition send_columns ::
  "('w, 'c) client \<Rightarrow> insert_stmt \<Rightarrow> 'c list \<Rightarrow> ('w, 'c, 'c option) session_op" where
  "send_columns cl s columns =
     (let table = tn_name (ins_table s) in
      if ins_action s = ReplaceStr
      then call (Upsert table columns) (\<lambda>ctx. cl_upsert cl ctx table columns)
      else call (Insert table columns) (\<lambda>ctx. cl_insert cl ctx table columns))"

definition handleInsert :: "('w, 'c) client \<Rightarrow> 'c sdk \<Rightarrow> insert_stmt \<Rightarrow> ('w, 'c, unit) session_op" where
  "handleInsert cl sdk s =
     (if tn_qualifier (ins_table s) \<noteq> '''' \<or> ins_ignore s \<noteq> '''' \<or> 0 < ins_onDup s \<or> 0 < ins_partitions s
      then throw (Err ''qualified tables, IGNORE, ON DUPLICATE KEY and partition clauses are not supported'')
      else
        andThen (GetCollectinSchema cl (tn_name (ins_table s))) (\<lambda>sch.
        andThen (lift_result (FillInsertColumns sdk sch s)) (\<lambda>columns.
        andThen (send_columns cl s columns) (\<lambda>ids.
          writeOK (Some (empty_result\<lparr>r_affectedRows := word_of_nat (row_count (ins_rows s)),
                                      r_insertId := insert_id sdk ids\<rparr>))))))"

definition delete_target :: "table_expr list \<Rightarrow> string result" where
  "delete_target exprs =
     (case exprs of
        [AliasedTableExpr t as_name hints] \<Rightarrow>
          if as_name \<noteq> '''' \<or> hints then Inl (Err ''unsupported DELETE target'')
          else
            (case t of
               TableName n \<Rightarrow>
                 if tn_qualifier n \<noteq> '''' then Inl (Err ''unsupported DELETE target'') else Inr (tn_name n)
             | _ \<Rightarrow> Inl (Err ''unsupported DELETE target''))
      | [_] \<Rightarrow> Inl (Err ''unsupported DELETE target'')
      | _ \<Rightarrow> Inl (Err ''DELETE requires one collection''))"

definition handleDelete :: "('w, 'c) client \<Rightarrow> (nat \<Rightarrow> bool) \<Rightarrow> delete_stmt \<Rightarrow> ('w, 'c, unit) session_op" where
  "handleDelete cl tbl s =
     (case del_where s of
        None \<Rightarrow> throw (Err ''DELETE requires WHERE; multi-table, partition, ORDER BY and LIMIT are unsupported'')
      | Some e \<Rightarrow>
          if 0 < del_targets s \<or> 0 < del_partitions s \<or> del_limit s \<noteq> None \<or> 0 < del_orderBy s
          then throw (Err ''DELETE requires WHERE; multi-table, partition, ORDER BY and LIMIT are unsupported'')
          else
            andThen (lift_result (delete_target (del_tableExprs s))) (\<lambda>table.
            andThen (lift_result (scalarFilter tbl e)) (\<lambda>filt.
            andThen (call (Delete table filt) (\<lambda>ctx. cl_delete cl ctx table filt)) (\<lambda>_.
              writeOK None))))"

end
