(* ===== verification/Ddl.thy ===== *)
theory Ddl
  imports Insert
begin

text \<open>
  \<open>pkg/ddl.go\<close>, \<open>pkg/dbddl.go\<close>, \<open>pkg/use.go\<close> and \<open>pkg/types.go\<close>: creating and dropping
  collections and databases, and switching the session's database.
\<close>

record milvus_schema =
  ms_schema :: schema
  ms_shardNum :: int

section \<open>Columns\<close>

definition MilvusDataTypeMap :: "qtype \<Rightarrow> field_type option" where
  "MilvusDataTypeMap t =
     (case t of
        QINT8 \<Rightarrow> Some FieldTypeInt8
      | QINT16 \<Rightarrow> Some FieldTypeInt16
      | QINT32 \<Rightarrow> Some FieldTypeInt32
      | QINT64 \<Rightarrow> Some FieldTypeInt64
      | QFLOAT32 \<Rightarrow> Some FieldTypeFloat
      | QFLOAT64 \<Rightarrow> Some FieldTypeDouble
      | QTEXT \<Rightarrow> Some FieldTypeString
      | QVARCHAR \<Rightarrow> Some FieldTypeVarChar
      | QDATE \<Rightarrow> Some FieldTypeInt32
      | QDATETIME \<Rightarrow> Some FieldTypeInt64
      | QOther _ \<Rightarrow> None)"

definition colKeyNone :: nat where "colKeyNone = 0"
definition colKeyPrimary :: nat where "colKeyPrimary = 1"

definition column_options_ok :: "column_type \<Rightarrow> bool" where
  "column_options_ok t \<longleftrightarrow>
     ct_default t = None \<and> ct_onUpdate t = None \<and> \<not> ct_unsigned t \<and> \<not> ct_zerofill t \<and>
     ct_scale t = None \<and> ct_charset t = '''' \<and> ct_collate t = ''''"

text \<open>An integer type parameter and its bounds.\<close>

definition bounded_length :: "string \<Rightarrow> int \<Rightarrow> bool" where
  "bounded_length text hi \<longleftrightarrow> (case atoi text of Inl _ \<Rightarrow> False | Inr n \<Rightarrow> 1 \<le> n \<and> n \<le> hi)"

definition vector_params :: "string option \<Rightarrow> string_map result" where
  "vector_params len =
     (case len of
        None \<Rightarrow> Inl (Err ''vector dim is nil'')
      | Some v \<Rightarrow>
          if bounded_length v 32768 then Inr (Some [(''dim'', v)])
          else Inl (Err ''vector dimension must be 1..32768''))"

definition varchar_params :: "string option \<Rightarrow> string_map result" where
  "varchar_params len =
     (case len of
        None \<Rightarrow> Inl (Err ''varchar max_length must be specified'')
      | Some v \<Rightarrow>
          if bounded_length v 65535 then Inr (Some [(''max_length'', v)])
          else Inl (Err ''varchar length must be 1..65535''))"

text \<open>The field type and its parameters.\<close>

definition column_data_type :: "sqlparser \<Rightarrow> column_type \<Rightarrow> (field_type \<times> string_map) result" where
  "column_data_type sp t =
     (if equal_fold (ct_type t) ''bool'' \<or> equal_fold (ct_type t) ''boolean'' \<or>
         (ct_type t = ''tinyint'' \<and> ct_length t = Some ''1'')
      then Inr (FieldTypeBool, None)
      else if equal_fold (ct_type t) ''json'' then Inr (FieldTypeJSON, None)
      else if ct_type t = sp_vectorKeyword sp
      then map_result (\<lambda>p. (FieldTypeFloatVector, p)) (vector_params (ct_length t))
      else
        (case MilvusDataTypeMap (sp_sqlType sp t) of
           None \<Rightarrow> Inl (Err (''type['' @ sp_qtypeString sp (sp_sqlType sp t) @ ''] not supported''))
         | Some dt \<Rightarrow>
             if dt = FieldTypeVarChar
             then map_result (\<lambda>p. (dt, p)) (varchar_params (ct_length t))
             else Inr (dt, None)))"

text \<open>\<open>(PrimaryKey, AutoID)\<close>.\<close>

definition column_key :: "column_type \<Rightarrow> (bool \<times> bool) result" where
  "column_key t =
     (if ct_keyOpt t = colKeyPrimary then Inr (True, ct_autoincrement t)
      else if ct_keyOpt t = colKeyNone then
        (if ct_autoincrement t then Inl (Err ''not primarykey, autoincrement not supported'')
         else Inr (False, False))
      else Inl (Err (''key option['' @ itoa (int (ct_keyOpt t)) @ ''] not supported'')))"

definition columnToMilvusField :: "sqlparser \<Rightarrow> column_def \<Rightarrow> field result" where
  "columnToMilvusField sp col =
     (let t = cd_type col in
      if \<not> column_options_ok t then Inl (Err ''unsupported column options'')
      else
        (case column_data_type sp t of
           Inl e \<Rightarrow> Inl e
         | Inr (dt, params) \<Rightarrow>
             (case column_key t of
                Inl e \<Rightarrow> Inl e
              | Inr (pk, auto) \<Rightarrow>
                  Inr \<lparr>f_name = cd_name col, f_primaryKey = pk, f_autoID = auto, f_dataType = dt,
                       f_typeParams = params,
                       f_description = (case ct_comment t of None \<Rightarrow> '''' | Some c \<Rightarrow> c)\<rparr>)))"

section \<open>The schema\<close>

definition check_field :: "string list \<Rightarrow> field \<Rightarrow> unit result" where
  "check_field seen f =
     (if f_name f \<in> set seen then Inl (Err ''duplicate field'')
      else if f_name f = ''_distance'' then Inl (Err ''_distance is reserved for vector search scores'')
      else if \<not> fieldIdentifier (f_name f) then Inl (Err ''invalid field name'')
      else if f_primaryKey f \<and> f_dataType f \<noteq> FieldTypeInt64 \<and> f_dataType f \<noteq> FieldTypeVarChar
      then Inl (Err ''primary key must be BIGINT or VARCHAR'')
      else if f_primaryKey f \<and> f_autoID f \<and> f_dataType f \<noteq> FieldTypeInt64
      then Inl (Err ''auto-ID requires BIGINT'')
      else Inr ())"

text \<open>The loop over the fields; it returns the numbers of primary keys and of vector fields.\<close>

fun check_fields :: "string list \<Rightarrow> nat \<Rightarrow> nat \<Rightarrow> field list \<Rightarrow> (nat \<times> nat) result" where
  "check_fields seen pk vectors [] = Inr (pk, vectors)"
| "check_fields seen pk vectors (f # fs) =
     (case check_field seen f of
        Inl e \<Rightarrow> Inl e
      | Inr _ \<Rightarrow>
          check_fields (f_name f # seen) (if f_primaryKey f then pk + 1 else pk)
            (if f_dataType f = FieldTypeFloatVector then vectors + 1 else vectors) fs)"

definition schema_column :: "sqlparser \<Rightarrow> column_def \<Rightarrow> field result" where
  "schema_column sp col =
     (case columnToMilvusField sp col of
        Inl e \<Rightarrow> Inl (WrapErr e (''column['' @ cd_name col @ ''] to milvus field failed''))
      | Inr f \<Rightarrow> Inr f)"

definition DDLToMilvusSchema :: "sqlparser \<Rightarrow> ddl_stmt \<Rightarrow> milvus_schema result" where
  "DDLToMilvusSchema sp stmt =
     (case ddl_tableSpec stmt of
        None \<Rightarrow> Inl (Err ''table spec is nil'')
      | Some spec \<Rightarrow>
          if tn_qualifier (ddl_newName stmt) \<noteq> '''' \<or> ts_options spec \<noteq> '''' \<or> 0 < ts_indexes spec
          then Inl (Err ''qualified tables, table options and table-level constraints are not supported; use inline PRIMARY KEY and CREATE INDEX'')
          else
            (case traverse (schema_column sp) (ts_columns spec) of
               Inl e \<Rightarrow> Inl e
             | Inr fs \<Rightarrow>
                 (case check_fields [] 0 0 fs of
                    Inl e \<Rightarrow> Inl e
                  | Inr (pk, vectors) \<Rightarrow>
                      if pk \<noteq> 1 \<or> vectors = 0
                      then Inl (Err ''collection requires exactly one primary key and at least one vector field'')
                      else Inr \<lparr>ms_schema = \<lparr>s_collectionName = tn_name (ddl_newName stmt),
                                  s_description = '''', s_fields = fs\<rparr>, ms_shardNum = 1\<rparr>)))"

section \<open>Handlers\<close>

definition ER_UNKNOWN_ERROR :: nat where "ER_UNKNOWN_ERROR = 1105"
definition ER_ABORTING_CONNECTION :: nat where "ER_ABORTING_CONNECTION = 1152"
definition ER_CANT_CREATE_TABLE :: nat where "ER_CANT_CREATE_TABLE = 1005"
definition ER_CANT_DROP_FIELD_OR_KEY :: nat where "ER_CANT_DROP_FIELD_OR_KEY = 1091"
definition ER_DATABASE_NAME :: nat where "ER_DATABASE_NAME = 1102"

definition handleCreateTable :: "('w, 'c) client \<Rightarrow> sqlparser \<Rightarrow> ddl_stmt \<Rightarrow> ('w, 'c, unit) session_op" where
  "handleCreateTable cl sp stmt =
     andThen (mapErr (MySQLError ER_CANT_CREATE_TABLE) (lift_result (DDLToMilvusSchema sp stmt))) (\<lambda>ms.
     andThen (mapErr (MySQLError ER_CANT_CREATE_TABLE)
               (call (CreateCollection (ms_schema ms) (ms_shardNum ms))
                  (\<lambda>ctx. cl_createCollection cl ctx (ms_schema ms) (ms_shardNum ms)))) (\<lambda>_.
       writeOK None))"

definition handleDropTable :: "('w, 'c) client \<Rightarrow> ddl_stmt \<Rightarrow> ('w, 'c, unit) session_op" where
  "handleDropTable cl stmt =
     (if tn_qualifier (ddl_table stmt) \<noteq> '''' \<or> ddl_ifExists stmt
      then throw (Err ''qualified DROP and IF EXISTS are unsupported'')
      else
        (let table = tn_name (ddl_table stmt) in
         andThen (mapErr (MySQLError ER_CANT_DROP_FIELD_OR_KEY)
                   (call (DropCollection table) (\<lambda>ctx. cl_dropCollection cl ctx table))) (\<lambda>_.
           writeOK None)))"

definition handleDDL :: "('w, 'c) client \<Rightarrow> sqlparser \<Rightarrow> ddl_stmt \<Rightarrow> ('w, 'c, unit) session_op" where
  "handleDDL cl sp stmt =
     (if ddl_action stmt = CreateStr then handleCreateTable cl sp stmt
      else if ddl_action stmt = DropStr then handleDropTable cl stmt
      else throw (MySQLError ER_UNKNOWN_ERROR (Err (''ddl '' @ ddl_action stmt @ '' not supported''))))"

definition handleCreateDB :: "('w, 'c) client \<Rightarrow> dbddl_stmt \<Rightarrow> ('w, 'c, unit) session_op" where
  "handleCreateDB cl stmt =
     andThen (mapErr (MySQLError ER_ABORTING_CONNECTION)
               (call (CreateDatabase (db_name stmt)) (\<lambda>ctx. cl_createDatabase cl ctx (db_name stmt)))) (\<lambda>_.
       writeOK (Some (empty_result\<lparr>r_affectedRows := 1\<rparr>)))"

definition handleDropDB :: "('w, 'c) client \<Rightarrow> dbddl_stmt \<Rightarrow> ('w, 'c, unit) session_op" where
  "handleDropDB cl stmt =
     andThen (mapErr (MySQLError ER_ABORTING_CONNECTION)
               (call (DropDatabase (db_name stmt)) (\<lambda>ctx. cl_dropDatabase cl ctx (db_name stmt)))) (\<lambda>_.
       writeOK None)"

definition handleDBDDL :: "('w, 'c) client \<Rightarrow> dbddl_stmt \<Rightarrow> ('w, 'c, unit) session_op" where
  "handleDBDDL cl stmt =
     (if db_action stmt = CreateStr then handleCreateDB cl stmt
      else if db_action stmt = DropStr then handleDropDB cl stmt
      else throw (MySQLError ER_UNKNOWN_ERROR (Err (''create '' @ db_action stmt @ '' not supported''))))"

text \<open>The database of the session changes only when the client has switched.\<close>

definition handleUseDB :: "('w, 'c) client \<Rightarrow> string \<Rightarrow> ('w, 'c, unit) session_op" where
  "handleUseDB cl dbName =
     andThen (mapErr (MySQLError ER_DATABASE_NAME)
               (call (UsingDatabase dbName) (\<lambda>ctx. cl_usingDatabase cl ctx dbName))) (\<lambda>_.
     andThen (modify (\<lambda>s. s\<lparr>c_db := dbName\<rparr>)) (\<lambda>_.
       writeOK None))"

end
