(* ===== verification/Select.thy ===== *)
theory Select
  imports Insert Indexes Ddl
begin

text \<open>
  \<open>pkg/select.go\<close> and \<open>pkg/show.go\<close>: answering SELECT with a constant, a scalar query or a vector
  search, and SHOW DATABASES / SHOW TABLES.
\<close>

section \<open>SELECT without a collection\<close>

definition is_dual :: "sqlparser \<Rightarrow> select_stmt \<Rightarrow> bool" where
  "is_dual sp s \<longleftrightarrow>
     length (sel_from s) = 1 \<and> sp_tableExprString sp (hd (sel_from s)) = ''dual'' \<and> sel_where s = None \<and>
     sel_limit s = None \<and> sel_distinct s = '''' \<and> sel_groupBy s = 0 \<and> sel_having s = None \<and>
     sel_orderBy s = 0 \<and> sel_lock s = '''' \<and> length (sel_exprs s) = 1"

definition dual_select :: "sqlparser \<Rightarrow> string \<Rightarrow> select_stmt \<Rightarrow> (string list \<times> goval list list) option" where
  "dual_select sp db s =
     (if is_dual sp s then
        (let e = to_lower (sp_selectExprString sp (hd (sel_exprs s))) in
         if e = ''1'' then Some ([''1''], [[GInt64 1]])
         else if e = ''version()'' then Some ([''version''], [[GString ''milvus-sql-proxy'']])
         else if e = ''database()'' \<or> e = ''current_database()'' then Some ([''database''], [[GString db]])
         else None)
      else None)"

section \<open>The projection\<close>

definition primary_key :: "field list \<Rightarrow> string" where
  "primary_key fs = foldl (\<lambda>pk f. if f_primaryKey f then f_name f else pk) '''' fs"

definition select_name :: "sqlparser \<Rightarrow> select_expr \<Rightarrow> string result" where
  "select_name sp e =
     (if equal_fold (sp_selectExprString sp e) ''count(*)'' then Inr ''count(*)''
      else
        (case e of
           AliasedExpr x _ \<Rightarrow>
             (case x of ColName _ n \<Rightarrow> Inr n | _ \<Rightarrow> Inl (Panic ''interface conversion''))
         | _ \<Rightarrow> Inl (Panic ''interface conversion'')))"

definition select_column ::
  "sqlparser \<Rightarrow> (string \<Rightarrow> field option) \<Rightarrow> string \<Rightarrow> select_expr \<Rightarrow> (string \<times> field_type) result" where
  "select_column sp flds vectorField e =
     (case select_name sp e of
        Inl err \<Rightarrow> Inl err
      | Inr name \<Rightarrow>
          if name = ''count(*)'' then
            (if vectorField \<noteq> '''' then Inl (Err ''count with vector search is unsupported'')
             else Inr (name, FieldTypeInt64))
          else if name = ''_distance'' \<and> vectorField \<noteq> '''' then Inr (name, FieldTypeFloat)
          else
            (case flds name of
               None \<Rightarrow> Inl (Err (''unknown field '' @ name))
             | Some f \<Rightarrow> Inr (name, f_dataType f)))"

definition select_columns ::
  "sqlparser \<Rightarrow> schema \<Rightarrow> string \<Rightarrow> select_expr list \<Rightarrow> (string \<times> field_type) list result" where
  "select_columns sp sch vectorField exprs =
     (if length exprs = 1 \<and> sp_selectExprString sp (hd exprs) = ''*''
      then Inr (map (\<lambda>f. (f_name f, f_dataType f)) (s_fields sch))
      else traverse (select_column sp (field_map (s_fields sch)) vectorField) exprs)"

text \<open>The names to ask Milvus for: each once, without the score of a search.\<close>

fun output_names :: "bool \<Rightarrow> string list \<Rightarrow> string list \<Rightarrow> string list" where
  "output_names search seen [] = []"
| "output_names search seen (n # ns) =
     (if (n \<noteq> ''_distance'' \<or> \<not> search) \<and> n \<notin> set seen
      then n # output_names search (n # seen) ns
      else output_names search seen ns)"

section \<open>Rows\<close>

definition search_cell ::
  "'c sdk \<Rightarrow> 'c search_result \<Rightarrow> 'c list \<Rightarrow> string \<Rightarrow> nat \<Rightarrow> string \<Rightarrow> goval result" where
  "search_cell sdk r cols pk i n =
     (if n = ''_distance'' then
        (if length (sr_scores r) \<le> i then Inl (Err ''incomplete search scores'')
         else Inr (GFloat32 (sr_scores r ! i)))
      else
        (case (case getColumn sdk cols n of None \<Rightarrow> if n = pk then sr_ids r else None | Some c \<Rightarrow> Some c) of
           None \<Rightarrow> Inl (Err (''missing result field '' @ n))
         | Some c \<Rightarrow> columnGet sdk c i))"

definition search_rows :: "'c sdk \<Rightarrow> string list \<Rightarrow> string \<Rightarrow> 'c search_result \<Rightarrow> goval list list result" where
  "search_rows sdk names pk r =
     (let cols = (case sr_ids r of
                    Some ids \<Rightarrow> if getColumn sdk (sr_fields r) pk = None then sr_fields r @ [ids] else sr_fields r
                  | None \<Rightarrow> sr_fields r) in
      traverse (\<lambda>i. traverse (search_cell sdk r cols pk i) names) [0..<sr_resultCount r])"

definition query_cell :: "'c sdk \<Rightarrow> 'c list \<Rightarrow> nat \<Rightarrow> string \<Rightarrow> goval result" where
  "query_cell sdk cols i n =
     (case getColumn sdk cols n of
        None \<Rightarrow> Inl (Err (''missing result field '' @ n))
      | Some c \<Rightarrow> columnGet sdk c i)"

definition query_rows :: "'c sdk \<Rightarrow> string list \<Rightarrow> 'c list \<Rightarrow> goval list list result" where
  "query_rows sdk names cols =
     traverse (\<lambda>i. traverse (query_cell sdk cols i) names) [0..<columnLen sdk (hd cols)]"

text \<open>The closure \<open>result\<close> of \<open>handleSelect\<close>.\<close>

definition select_result :: "(string \<times> field_type) list \<Rightarrow> goval list list \<Rightarrow> ('w, 'c, unit) session_op" where
  "select_result cs values =
     (let flds = map (\<lambda>(n, t). resultField n t) cs in
      withState (\<lambda>s.
        andThen (lift_result (buildResultset flds (map fst cs) values)) (\<lambda>r.
          writeResultset (c_status s) (r\<lparr>rs_fields := flds\<rparr>))))"

section \<open>Vector search\<close>

definition search_params :: "string \<Rightarrow> int64 \<Rightarrow> int64 \<Rightarrow> (string \<times> int64) list" where
  "search_params kind l k =
     (if to_upper kind = ''HNSW'' then [(''ef'', if sint (l + k) < 64 then 64 else l + k)]
      else if to_upper kind \<in> set [''IVF_FLAT'', ''IVF_SQ8'', ''IVF_PQ''] then [(''nprobe'', 16)]
      else [])"

text \<open>The vector of the search; a plan with a vector field always has its expression.\<close>

definition search_vector :: "'c sdk \<Rightarrow> field \<Rightarrow> expr option \<Rightarrow> float32 list result" where
  "search_vector sdk f e =
     (case e of
        None \<Rightarrow> Inl (Err ''expected a literal value'')
      | Some x \<Rightarrow>
          (case fieldValue sdk f x of
             Inl err \<Rightarrow> Inl err
           | Inr (GFloats v) \<Rightarrow> Inr v
           | Inr _ \<Rightarrow> Inl (Panic ''interface conversion'')))"

definition search_index ::
  "('w, 'c) client \<Rightarrow> 'c sdk \<Rightarrow> string \<Rightarrow> string \<Rightarrow> ('w, 'c, index) session_op" where
  "search_index cl sdk table fld =
     andThen (vectorIndexes cl sdk table fld) (\<lambda>indexes.
       case indexes of
         [] \<Rightarrow> throw (Err ''vector field has no index'')
       | idx # _ \<Rightarrow>
           if map_get (ix_params idx) ''metric_type'' = '''' then throw (Err ''vector index has no metric_type'')
           else ret idx)"

definition search_field :: "schema \<Rightarrow> string \<Rightarrow> field result" where
  "search_field sch n =
     (case field_map (s_fields sch) n of
        None \<Rightarrow> Inl (Err ''search requires a FLOAT_VECTOR field'')
      | Some f \<Rightarrow>
          if f_dataType f \<noteq> FieldTypeFloatVector then Inl (Err ''search requires a FLOAT_VECTOR field'') else Inr f)"

definition select_search ::
  "('w, 'c) client \<Rightarrow> 'c sdk \<Rightarrow> select_plan \<Rightarrow> schema \<Rightarrow> (string \<times> field_type) list \<Rightarrow> ('w, 'c, unit) session_op" where
  "select_search cl sdk p sch cs =
     andThen (lift_result (search_field sch (pl_vectorField p))) (\<lambda>f.
     andThen (lift_result (search_vector sdk f (pl_vectorExpr p))) (\<lambda>v.
     andThen (search_index cl sdk (pl_table p) (pl_vectorField p)) (\<lambda>idx.
     (let req = \<lparr>sq_collection = pl_table p, sq_filter = pl_filter p,
                 sq_outputs = output_names True [] (map fst cs), sq_vector = v,
                 sq_vectorField = pl_vectorField p, sq_metric = map_get (ix_params idx) ''metric_type'',
                 sq_topK = pl_limit p, sq_params = search_params (ix_type idx) (pl_limit p) (pl_offset p),
                 sq_offset = pl_offset p\<rparr> in
      andThen (call (Search req) (\<lambda>ctx. cl_search cl ctx req)) (\<lambda>rs.
        case rs of
          [] \<Rightarrow> select_result cs []
        | r # _ \<Rightarrow>
            (case sr_err r of
               Some e \<Rightarrow> throw e
             | None \<Rightarrow>
                 andThen (lift_result (search_rows sdk (map fst cs) (primary_key (s_fields sch)) r))
                   (select_result cs)))))))"

section \<open>Scalar query\<close>

definition is_count :: "(string \<times> field_type) list \<Rightarrow> bool" where
  "is_count cs \<longleftrightarrow> map fst cs = [''count(*)'']"

definition select_query ::
  "('w, 'c) client \<Rightarrow> 'c sdk \<Rightarrow> select_plan \<Rightarrow> bool \<Rightarrow> (string \<times> field_type) list \<Rightarrow> ('w, 'c, unit) session_op" where
  "select_query cl sdk p has_limit cs =
     (if is_count cs \<and> has_limit then throw (Err ''LIMIT on count(*) is unsupported'')
      else
        (let req = \<lparr>qr_collection = pl_table p, qr_filter = pl_filter p,
                    qr_outputs = output_names False [] (map fst cs),
                    qr_window = (if is_count cs then None else Some (pl_limit p, pl_offset p))\<rparr> in
         andThen (call (Query req) (\<lambda>ctx. cl_query cl ctx req)) (\<lambda>cols.
           if cols = [] then select_result cs []
           else andThen (lift_result (query_rows sdk (map fst cs) cols)) (select_result cs))))"

section \<open>Handlers\<close>

definition reserved_distance :: "schema \<Rightarrow> string \<Rightarrow> bool" where
  "reserved_distance sch vectorField \<longleftrightarrow>
     vectorField \<noteq> '''' \<and> field_map (s_fields sch) ''_distance'' \<noteq> None"

definition select_collection ::
  "('w, 'c) client \<Rightarrow> 'c sdk \<Rightarrow> sqlparser \<Rightarrow> select_plan \<Rightarrow> select_stmt \<Rightarrow> ('w, 'c, unit) session_op" where
  "select_collection cl sdk sp p s =
     andThen (GetCollectinSchema cl (pl_table p)) (\<lambda>sch.
       if reserved_distance sch (pl_vectorField p)
       then throw (Err ''_distance is reserved for vector search scores'')
       else
         andThen (lift_result (select_columns sp sch (pl_vectorField p) (sel_exprs s))) (\<lambda>cs.
         withState (\<lambda>st.
           if c_describe st \<or> pl_limit p = 0 then select_result cs []
           else if pl_vectorField p \<noteq> '''' then select_search cl sdk p sch cs
           else select_query cl sdk p (sel_limit s \<noteq> None) cs)))"

definition handleSelect ::
  "('w, 'c) client \<Rightarrow> 'c sdk \<Rightarrow> sqlparser \<Rightarrow> (nat \<Rightarrow> bool) \<Rightarrow> select_stmt \<Rightarrow> ('w, 'c, unit) session_op" where
  "handleSelect cl sdk sp tbl s =
     withState (\<lambda>st.
       case dual_select sp (c_db st) s of
         Some (names, values) \<Rightarrow> rows names values
       | None \<Rightarrow>
           andThen (lift_result (planSelect sp tbl s)) (\<lambda>p. select_collection cl sdk sp p s))"

definition DatabasesStr :: string where "DatabasesStr = ''DATABASES''"
definition TableStr :: string where "TableStr = ''TABLES''"

definition databasesToValues :: "string list \<Rightarrow> goval list list" where
  "databasesToValues dbs = map (\<lambda>db. [GString db]) dbs"

definition collectionsToValues :: "string list \<Rightarrow> goval list list" where
  "collectionsToValues cols = map (\<lambda>c. [GString c]) cols"

definition build_failed :: "error \<Rightarrow> error" where
  "build_failed e = MySQLError ER_UNKNOWN_ERROR (WrapErr e ''build resultset failed'')"

definition show_values :: "string \<Rightarrow> goval list list \<Rightarrow> ('w, 'c, unit) session_op" where
  "show_values name values = withState (\<lambda>s.
     andThen (mapErr build_failed (lift_result (buildResultset [] [name] values))) (\<lambda>r.
       writeResultset (c_status s) r))"

definition handleShow :: "('w, 'c) client \<Rightarrow> string \<Rightarrow> ('w, 'c, unit) session_op" where
  "handleShow cl typ = withState (\<lambda>s.
     if to_upper typ = DatabasesStr then
       (if c_describe s then rows [DatabasesStr] []
        else
          andThen (mapErr (\<lambda>e. MySQLError ER_ABORTING_CONNECTION (WrapErr e ''list databases failed''))
                    (call ListDatabases (cl_listDatabases cl))) (\<lambda>dbs.
            if dbs = [] then rows [DatabasesStr] []
            else show_values DatabasesStr (databasesToValues dbs)))
     else if to_upper typ = TableStr then
       (if c_describe s then rows [TableStr] []
        else
          andThen (mapErr (\<lambda>e. MySQLError ER_ABORTING_CONNECTION (WrapErr e ''list collections failed''))
                    (call ListCollections (cl_listCollections cl))) (\<lambda>cols.
            show_values TableStr (collectionsToValues cols)))
     else throw (MySQLError ER_UNKNOWN_ERROR (Err (''show '' @ typ @ '' not supported''))))"

end
