(* ===== verification/Bind.thy ===== *)
theory Bind
  imports GoValue GoQuote
begin

text \<open>
  \<open>pkg/bind.go\<close>: substitution of parameters into SQL text and rewriting of column types.

  The scanning loops of \<open>bindSQL\<close> and \<open>normalizeTypes\<close> run over the index \<open>i\<close>; here the state is the
  suffix \<open>q[i:]\<close>.  The output builder \<open>b\<close> and the counter are returned rather than threaded, so a
  branch that writes \<open>x\<close> and continues is \<open>emit x\<close> of the result for the rest.
\<close>

section \<open>\<open>sqlLiteral\<close>\<close>

definition sql_escape :: "char \<Rightarrow> string" where
  "sql_escape c =
     (if c = bslash then [bslash, bslash]
      else if c = squote then [bslash, squote]
      else if c = CHR 0x00 then [bslash, CHR ''0'']
      else [c])"

definition sql_string :: "string \<Rightarrow> string" where
  "sql_string x = [squote] @ replace_bytes sql_escape x @ [squote]"

fun sqlLiteral :: "goval \<Rightarrow> string result" where
  "sqlLiteral GNil = Inr ''null''"
| "sqlLiteral (GString x) = Inr (sql_string x)"
| "sqlLiteral (GBytes x) = Inr (sql_string x)"
| "sqlLiteral (GBool x) = Inr (if x then ''true'' else ''false'')"
| "sqlLiteral (GFloats x) = Inl (Err (''unsupported parameter type '' @ type_name (GFloats x)))"
| "sqlLiteral (GOther n _) = Inl (Err (''unsupported parameter type '' @ n))"
| "sqlLiteral v = Inr (sprint v)"

section \<open>\<open>bindSQL\<close>\<close>

datatype dialect = MySQL | Postgres

text \<open>
  The quoted-token loop, started after the opening quote: the bytes consumed (closing quote
  included), the unescaped value, and the rest.  \<open>None\<close> when the token is not terminated.
\<close>

fun scan_quoted :: "dialect \<Rightarrow> char \<Rightarrow> string \<Rightarrow> (string \<times> string \<times> string) option" where
  "scan_quoted d quote [] = None"
| "scan_quoted d quote [c] = (if c = quote then Some ([c], [], []) else None)"
| "scan_quoted d quote (c # e # s) =
     (if c = quote then
        (if e = quote
         then map_option (\<lambda>(raw, valu, rest). (c # e # raw, quote # valu, rest)) (scan_quoted d quote s)
         else Some ([c], [], e # s))
      else if c = bslash \<and> d = MySQL
      then map_option (\<lambda>(raw, valu, rest). (c # e # raw, valu, rest)) (scan_quoted d quote s)
      else map_option (\<lambda>(raw, valu, rest). (c # raw, c # valu, rest)) (scan_quoted d quote (e # s)))"

lemma scan_quoted_split:
  "scan_quoted d quote s = Some (raw, valu, rest) \<Longrightarrow> s = raw @ rest \<and> raw \<noteq> []"
  by (induction d quote s arbitrary: raw valu rest rule: scan_quoted.induct)
     (auto split: if_splits)

lemma scan_quoted_length [length_bounds]:
  "scan_quoted d quote s = Some (raw, valu, rest) \<Longrightarrow> length rest < length s"
  using scan_quoted_split by fastforce

text \<open>A PostgreSQL quoted identifier becomes a backquoted one.\<close>

definition backquoted :: "string \<Rightarrow> string" where
  "backquoted v = [bquote] @ replace_bytes (\<lambda>c. if c = bquote then [bquote, bquote] else [c]) v @ [bquote]"

definition emit :: "string \<Rightarrow> (string \<times> nat) result \<Rightarrow> (string \<times> nat) result" where
  "emit x r = map_result (\<lambda>(b, n). (x @ b, n)) r"

text \<open>What is written for parameter \<open>idx\<close>.\<close>

definition placeholder :: "goval list \<Rightarrow> bool \<Rightarrow> nat \<Rightarrow> string result" where
  "placeholder args describe idx =
     (if describe then Inr ''0''
      else if length args < idx then Inl (Err (''missing parameter '' @ itoa (int idx)))
      else sqlLiteral (args ! (idx - 1)))"

definition line_comment_end :: "string \<Rightarrow> nat option" where
  "line_comment_end s = index_byte s (CHR 0x0A)"

function bind_loop :: "dialect \<Rightarrow> goval list \<Rightarrow> bool \<Rightarrow> string \<Rightarrow> nat \<Rightarrow> (string \<times> nat) result" where
  "bind_loop d args describe q count =
     (case q of
        [] \<Rightarrow> Inr ([], count)
      | ch # s \<Rightarrow>
          if ch = squote \<or> ch = dquote \<or> ch = bquote then
            (case scan_quoted d ch s of
               None \<Rightarrow> Inl (Err ''unterminated quoted token'')
             | Some (raw, valu, rest) \<Rightarrow>
                 if d = Postgres then
                   (if ch = dquote then emit (backquoted valu) (bind_loop d args describe rest count)
                    else if ch = squote then emit (sql_string valu) (bind_loop d args describe rest count)
                    else Inl (Err ''use double quotes for PostgreSQL identifiers''))
                 else emit (ch # raw) (bind_loop d args describe rest count))
          else if has_prefix q ''--'' then
            (case line_comment_end q of
               None \<Rightarrow> Inr (q, count)
             | Some j \<Rightarrow> emit (take (j + 1) q) (bind_loop d args describe (drop (j + 1) q) count))
          else if has_prefix q ''/*'' then
            (case index_of ''*/'' (drop 2 q) of
               None \<Rightarrow> Inl (Err ''unterminated comment'')
             | Some j \<Rightarrow> emit (take (j + 4) q) (bind_loop d args describe (drop (j + 4) q) count))
          else if d = MySQL \<and> ch = CHR ''?'' then
            (case placeholder args describe (count + 1) of
               Inl e \<Rightarrow> Inl e
             | Inr v \<Rightarrow> emit v (bind_loop d args describe s (count + 1)))
          else if d = Postgres \<and> ch = CHR ''$'' then
            (let digits = takeWhile is_digit s; rest = dropWhile is_digit s in
             if digits = [] then Inl (Err ''dollar-quoted strings are not supported'')
             else case atoi digits of
                    Inl _ \<Rightarrow> Inl (Err ''invalid parameter number'')
                  | Inr n \<Rightarrow>
                      if n < 1 \<or> 65535 < n then Inl (Err ''invalid parameter number'')
                      else case placeholder args describe (nat n) of
                             Inl e \<Rightarrow> Inl e
                           | Inr v \<Rightarrow> emit v (bind_loop d args describe rest (max count (nat n))))
          else emit [ch] (bind_loop d args describe s count))"
  by pat_completeness auto
termination
  by (relation "measure (\<lambda>(d, args, describe, q, count). length q)")
     (auto simp: length_dropWhile_le le_imp_less_Suc
        dest: scan_quoted_length)

declare bind_loop.simps [simp del]

definition bindSQL :: "string \<Rightarrow> dialect \<Rightarrow> goval list \<Rightarrow> bool \<Rightarrow> (string \<times> nat) result" where
  "bindSQL q d args describe =
     (case bind_loop d args describe q 0 of
        Inl e \<Rightarrow> Inl e
      | Inr (b, count) \<Rightarrow>
          if \<not> describe \<and> count \<noteq> length args
          then Inl (Err (''expected '' @ itoa (int count) @ '' parameters, got '' @ itoa (int (length args))))
          else Inr (b, count))"

section \<open>\<open>normalizeTypes\<close>\<close>

text \<open>The quoted-token loop here skips the byte after a backslash and accepts a missing end.\<close>

fun skip_quoted :: "char \<Rightarrow> string \<Rightarrow> string \<times> string" where
  "skip_quoted quote [] = ([], [])"
| "skip_quoted quote [c] = ([c], [])"
| "skip_quoted quote (c # e # s) =
     (if c = bslash \<or> (c = quote \<and> e = quote)
      then (let (raw, rest) = skip_quoted quote s in (c # e # raw, rest))
      else if c = quote then ([c], e # s)
      else (let (raw, rest) = skip_quoted quote (e # s) in (c # raw, rest)))"

lemma skip_quoted_split: "skip_quoted quote s = (raw, rest) \<Longrightarrow> s = raw @ rest"
  by (induction quote s arbitrary: raw rest rule: skip_quoted.induct)
     (auto split: if_splits prod.splits simp: Let_def)

definition rewrite_type :: "string \<Rightarrow> string" where
  "rewrite_type token =
     (if to_lower token = ''bool'' \<or> to_lower token = ''boolean'' then ''tinyint(1)'' else token)"

function normalize_loop :: "string \<Rightarrow> string" where
  "normalize_loop q =
     (case q of
        [] \<Rightarrow> []
      | c # s \<Rightarrow>
          if c = squote \<or> c = dquote \<or> c = bquote then
            (let (raw, rest) = skip_quoted c s in c # raw @ normalize_loop rest)
          else if is_ident_start c then
            rewrite_type (c # takeWhile is_word s) @ normalize_loop (dropWhile is_word s)
          else c # normalize_loop s)"
  by pat_completeness auto
termination
  by (relation "measure length")
     (auto simp: length_dropWhile_le le_imp_less_Suc dest!: sym [of "(_, _)"] skip_quoted_split)

declare normalize_loop.simps [simp del]

definition normalizeTypes :: "string \<Rightarrow> string" where
  "normalizeTypes q =
     (if \<not> has_prefix (to_upper (trim_space q)) ''CREATE TABLE'' then q else normalize_loop q)"

end
