(* ===== verification/Query.thy ===== *)
theory Query
  imports Commands Select Bind
begin

text \<open>
  \<open>pkg/conn_query.go\<close>: the dispatch of one SQL statement.

  UPSERT is answered by running the statement again as REPLACE, so \<open>handleQuery\<close> and
  \<open>handleMilvusCommand\<close> are mutually recursive.  \<open>handleQuery_step\<close> is the body with the recursive
  call as a parameter, \<open>handleQuery_fuel n\<close> allows \<open>n\<close> nested calls, and \<open>handleQuery\<close> allows two: the
  rewritten statement starts with REPLACE and is never rewritten again.
\<close>

definition name_pattern :: pattern where
  "name_pattern = [Alt [ident_chars, lit [bquote] @ ident_chars @ lit [bquote]]]"

definition createTableSQL :: pattern where
  "createTableSQL = lit ''CREATE'' @ spaces1 @ lit ''TABLE'' @ spaces1 @ name_pattern @ spaces @ lit ''('' @
     [Star any_rune] @ lit '')'' @ [End]"

definition nameOnlySQL :: pattern where
  "nameOnlySQL = [Alt [lit ''DROP TABLE'', lit ''CREATE DATABASE'', lit ''DROP DATABASE'', lit ''USE'']] @
     spaces1 @ name_pattern @ [End]"

definition validateStatementKind :: "string \<Rightarrow> unit result" where
  "validateStatementKind q0 =
     (let q = trim_command q0; unsupported = Inl (Err ''unsupported SQL statement or modifiers'') in
      case GoStrings.fields q of
        [] \<Rightarrow> Inl (Err ''empty statement'')
      | w # _ \<Rightarrow>
          (let verb = to_upper w in
           if verb = ''CREATE'' then
             (if match_string createTableSQL q \<or> match_string nameOnlySQL q then Inr () else unsupported)
           else if verb = ''DROP'' \<or> verb = ''USE'' then
             (if match_string nameOnlySQL q then Inr () else unsupported)
           else if verb = ''SHOW'' then
             (if equal_fold q ''show tables'' \<or> equal_fold q ''show databases'' then Inr () else unsupported)
           else if verb \<in> set [''SELECT'', ''INSERT'', ''REPLACE'', ''DELETE''] then Inr ()
           else unsupported))"

fun statement_type :: "statement \<Rightarrow> string" where
  "statement_type (SelectStmt _) = ''*sqlparser.Select''"
| "statement_type (InsertStmt _) = ''*sqlparser.Insert''"
| "statement_type (DeleteStmt _) = ''*sqlparser.Delete''"
| "statement_type (DDLStmt _) = ''*sqlparser.DDL''"
| "statement_type (DBDDLStmt _) = ''*sqlparser.DBDDL''"
| "statement_type (ShowStmt _) = ''*sqlparser.Show''"
| "statement_type (UseStmt _) = ''*sqlparser.Use''"
| "statement_type (OtherStmt n) = n"

definition run_statement ::
  "('w, 'c) client \<Rightarrow> 'c sdk \<Rightarrow> sqlparser \<Rightarrow> (nat \<Rightarrow> bool) \<Rightarrow> statement \<Rightarrow> ('w, 'c, unit) session_op" where
  "run_statement cl sdk sp tbl stmt =
     (case stmt of
        ShowStmt typ \<Rightarrow> handleShow cl typ
      | DBDDLStmt d \<Rightarrow> handleDBDDL cl d
      | DDLStmt d \<Rightarrow> handleDDL cl sp d
      | SelectStmt s \<Rightarrow> handleSelect cl sdk sp tbl s
      | InsertStmt s \<Rightarrow> handleInsert cl sdk s
      | DeleteStmt s \<Rightarrow> handleDelete cl tbl s
      | UseStmt db \<Rightarrow> handleUseDB cl db
      | _ \<Rightarrow> throw (Err (''statement '' @ statement_type stmt @ '' is not supported'')))"

definition describable :: "statement \<Rightarrow> bool" where
  "describable stmt = (case stmt of SelectStmt _ \<Rightarrow> True | ShowStmt _ \<Rightarrow> True | _ \<Rightarrow> False)"

definition handleSQL ::
  "('w, 'c) client \<Rightarrow> 'c sdk \<Rightarrow> sqlparser \<Rightarrow> (nat \<Rightarrow> bool) \<Rightarrow> string \<Rightarrow> ('w, 'c, unit) session_op" where
  "handleSQL cl sdk sp tbl sql =
     andThen (lift_result (validateStatementKind sql)) (\<lambda>_.
     andThen (lift_result (sp_parseStrictDDL sp (normalizeTypes sql))) (\<lambda>stmt.
     withState (\<lambda>s.
       if c_describe s \<and> \<not> describable stmt then writeOK None
       else run_statement cl sdk sp tbl stmt)))"

definition handleQuery_step ::
  "('w, 'c) client \<Rightarrow> 'c sdk \<Rightarrow> sqlparser \<Rightarrow> (nat \<Rightarrow> bool) \<Rightarrow>
     (string \<Rightarrow> ('w, 'c, unit) session_op) \<Rightarrow> string \<Rightarrow> ('w, 'c, unit) session_op" where
  "handleQuery_step cl sdk sp tbl self sql0 =
     (let sql = trim_space sql0 in
      if sql = '''' then throw (Err ''empty SQL statement'')
      else
        andThen (handleMilvusCommand cl sdk self sql) (\<lambda>handled.
          if handled then ret () else handleSQL cl sdk sp tbl sql))"

fun handleQuery_fuel ::
  "('w, 'c) client \<Rightarrow> 'c sdk \<Rightarrow> sqlparser \<Rightarrow> (nat \<Rightarrow> bool) \<Rightarrow> nat \<Rightarrow> string \<Rightarrow> ('w, 'c, unit) session_op" where
  "handleQuery_fuel cl sdk sp tbl 0 sql = throw (Panic ''stack overflow'')"
| "handleQuery_fuel cl sdk sp tbl (Suc n) sql =
     handleQuery_step cl sdk sp tbl (handleQuery_fuel cl sdk sp tbl n) sql"

definition handleQuery ::
  "('w, 'c) client \<Rightarrow> 'c sdk \<Rightarrow> sqlparser \<Rightarrow> (nat \<Rightarrow> bool) \<Rightarrow> string \<Rightarrow> ('w, 'c, unit) session_op" where
  "handleQuery cl sdk sp tbl sql = handleQuery_fuel cl sdk sp tbl 2 sql"

end
