(* ===== verification/Parameters.thy ===== *)
theory Parameters
  imports Query
begin

text \<open>
  \<open>pkg/parameters.go\<close>: the types of the parameters of a prepared PostgreSQL statement.  The
  statement is bound to marker strings, parsed, and a parameter gets the type of the field it is
  compared with or inserted into; 25 (text) when nothing is known.  Types are PostgreSQL object
  identifiers; 0 means that the client did not give one.
\<close>

definition pgOID :: "mysql_field \<Rightarrow> nat" where
  "pgOID f =
     (case fd_type f of
        MYSQL_TYPE_TINY \<Rightarrow> 16
      | MYSQL_TYPE_LONGLONG \<Rightarrow> 20
      | MYSQL_TYPE_DOUBLE \<Rightarrow> 701
      | _ \<Rightarrow> 25)"

definition param_marker :: "nat \<Rightarrow> string" where
  "param_marker i = ''__milvus_param_'' @ itoa (int i) @ ''__''"

definition default_oids :: "nat list \<Rightarrow> nat list" where
  "default_oids oids = map (\<lambda>o'. if o' = 0 then 25 else o') oids"

text \<open>The number in a marker, as the closure \<open>set\<close> reads it.\<close>

definition marker_number :: "string \<Rightarrow> int option" where
  "marker_number text =
     (if \<not> has_prefix text ''__milvus_param_'' \<or> \<not> has_suffix text ''__'' then None
      else
        (case atoi (trim_suffix (trim_prefix text ''__milvus_param_'') ''__'') of
           Inl _ \<Rightarrow> None
         | Inr n \<Rightarrow> Some n))"

definition set_oid :: "expr \<Rightarrow> nat \<Rightarrow> nat list \<Rightarrow> nat list" where
  "set_oid e oid oids =
     (case e of
        SQLVal _ v \<Rightarrow>
          (case marker_number v of
             None \<Rightarrow> oids
           | Some n \<Rightarrow>
               if 0 < n \<and> n \<le> int (length oids) \<and> oids ! (nat n - 1) = 0
               then oids[nat n - 1 := oid] else oids)
      | _ \<Rightarrow> oids)"

definition fieldOID :: "field option \<Rightarrow> nat" where
  "fieldOID f = (case f of None \<Rightarrow> 25 | Some x \<Rightarrow> pgOID (resultField (f_name x) (f_dataType x)))"

definition set_tuple :: "nat \<Rightarrow> expr \<Rightarrow> nat list \<Rightarrow> nat list" where
  "set_tuple oid e oids = (case e of ValTuple xs \<Rightarrow> fold (\<lambda>x. set_oid x oid) xs oids | _ \<Rightarrow> oids)"

text \<open>The visitor given to \<open>sqlparser.Walk\<close>.\<close>

definition visit_node :: "(string \<Rightarrow> field option) \<Rightarrow> sql_node \<Rightarrow> nat list \<Rightarrow> nat list" where
  "visit_node flds node oids =
     (case node of
        NComparison op l r \<Rightarrow>
          (let oids' = (case l of
                          ColName _ n \<Rightarrow> set_tuple (fieldOID (flds n)) r (set_oid r (fieldOID (flds n)) oids)
                        | _ \<Rightarrow> oids) in
           case r of ColName _ n \<Rightarrow> set_oid l (fieldOID (flds n)) oids' | _ \<Rightarrow> oids')
      | NLimit lim \<Rightarrow>
          (let oids' = set_oid (lim_rowcount lim) 20 oids in
           case lim_offset lim of None \<Rightarrow> oids' | Some e \<Rightarrow> set_oid e 20 oids'))"

text \<open>The rows of an INSERT: the value in position \<open>j\<close> belongs to the \<open>j\<close>-th name.\<close>

definition visit_row :: "(string \<Rightarrow> field option) \<Rightarrow> string list \<Rightarrow> expr list \<Rightarrow> nat list \<Rightarrow> nat list" where
  "visit_row flds names row oids = fold (\<lambda>(n, e). set_oid e (fieldOID (flds n))) (zip names row) oids"

definition visit_insert :: "schema \<Rightarrow> insert_stmt \<Rightarrow> nat list \<Rightarrow> nat list" where
  "visit_insert sch s oids =
     (case ins_rows s of
        Values rs \<Rightarrow> fold (visit_row (field_map (s_fields sch)) (insert_names sch s)) rs oids
      | OtherRows _ \<Rightarrow> oids)"

definition target_table :: "table_expr list \<Rightarrow> string" where
  "target_table exprs =
     (case exprs of
        [AliasedTableExpr (TableName t) _ _] \<Rightarrow> tn_name t
      | _ \<Rightarrow> '''')"

definition statement_table :: "statement \<Rightarrow> string" where
  "statement_table stmt =
     (case stmt of
        SelectStmt s \<Rightarrow> target_table (sel_from s)
      | InsertStmt s \<Rightarrow> tn_name (ins_table s)
      | DeleteStmt s \<Rightarrow> target_table (del_tableExprs s)
      | _ \<Rightarrow> '''')"

definition with_ctx :: "ctxt \<Rightarrow> ('w, 'c, 'a) session_op \<Rightarrow> ('w, 'c, 'a) session_op" where
  "with_ctx ctx m = (\<lambda>s. (case m (s\<lparr>c_ctx := ctx\<rparr>) of (r, s') \<Rightarrow> (r, s'\<lparr>c_ctx := c_ctx s\<rparr>)))"

text \<open>The types given the parsed statement and the schema of its collection.\<close>

definition infer_oids :: "sqlparser \<Rightarrow> statement \<Rightarrow> schema option \<Rightarrow> nat list \<Rightarrow> nat list" where
  "infer_oids sp stmt sch oids =
     (let flds = (case sch of None \<Rightarrow> (\<lambda>_. None) | Some s \<Rightarrow> field_map (s_fields s));
          oids1 = fold (visit_node flds) (sp_walk sp stmt) oids;
          oids2 = (case (stmt, sch) of (InsertStmt s, Some sc) \<Rightarrow> visit_insert sc s oids1 | _ \<Rightarrow> oids1) in
      default_oids oids2)"

definition parameterOIDs ::
  "('w, 'c) client \<Rightarrow> sqlparser \<Rightarrow> ctxt \<Rightarrow> string \<Rightarrow> nat list \<Rightarrow> ('w, 'c, nat list) session_op" where
  "parameterOIDs cl sp ctx q oids =
     (if oids = [] then ret oids
      else
        andThen (lift_result (bindSQL q Postgres
                   (map (\<lambda>i. GString (param_marker (i + 1))) [0..<length oids]) False)) (\<lambda>(bound, _).
          (case sp_parse sp (replace_match upsertRE bound ''REPLACE INTO'') of
             Inl _ \<Rightarrow> ret (default_oids oids)
           | Inr stmt \<Rightarrow>
               (let table = statement_table stmt in
                if table \<noteq> '''' \<and> table \<noteq> ''dual'' then
                  andThen (with_ctx ctx (GetCollectinSchema cl table)) (\<lambda>sch.
                    ret (infer_oids sp stmt (Some sch) oids))
                else ret (infer_oids sp stmt None oids)))))"

end
