(* ===== verification/Demo.thy ===== *)
theory Demo
  imports Parameters
begin

text \<open>
  A small concrete environment for evaluating statements: a service with one collection of three
  fields, whose state counts the writes, and the parse results of a few statements.
\<close>

type_synonym demo_column = "column_kind \<times> string \<times> goval list"

definition demo_sdk :: "demo_column sdk" where
  "demo_sdk = \<lparr>newColumn = (\<lambda>k n. (k, n, [])), appendValue = (\<lambda>(k, n, vs) v. Inr (k, n, vs @ [v])),
     columnLen = (\<lambda>(k, n, vs). length vs),
     columnGet = (\<lambda>(k, n, vs) i. if i < length vs then Inr (vs ! i) else Inl (ExtError ''index'')),
     getColumn = (\<lambda>cs n. find (\<lambda>(k, m, vs). m = n) cs), typeString = (\<lambda>_. ''type''),
     kvPairsMap = Some, newGenericIndex = (\<lambda>n k p. \<lparr>ix_name = n, ix_type = k, ix_params = p\<rparr>),
     newIndexFlat = (\<lambda>m. Inr \<lparr>ix_name = '''', ix_type = ''FLAT'', ix_params = Some [(''metric_type'', m)]\<rparr>),
     newIndexHNSW = (\<lambda>m _ _. Inr \<lparr>ix_name = '''', ix_type = ''HNSW'', ix_params = Some [(''metric_type'', m)]\<rparr>),
     newIndexIvfFlat = (\<lambda>m _. Inr \<lparr>ix_name = '''', ix_type = ''IVF_FLAT'', ix_params = Some [(''metric_type'', m)]\<rparr>),
     newIndexAUTOINDEX = (\<lambda>m. Inr \<lparr>ix_name = '''', ix_type = ''AUTOINDEX'', ix_params = Some [(''metric_type'', m)]\<rparr>)\<rparr>"

definition demo_field :: "string \<Rightarrow> bool \<Rightarrow> field_type \<Rightarrow> string_map \<Rightarrow> field" where
  "demo_field n pk t p = \<lparr>f_name = n, f_primaryKey = pk, f_autoID = False, f_dataType = t,
     f_typeParams = p, f_description = ''''\<rparr>"

definition demo_schema :: schema where
  "demo_schema = \<lparr>s_collectionName = ''t'', s_description = '''', s_fields =
     [demo_field ''id'' True FieldTypeInt64 None,
      demo_field ''name'' False FieldTypeVarChar (Some [(''max_length'', ''8'')]),
      demo_field ''v'' False FieldTypeFloatVector (Some [(''dim'', ''2'')])]\<rparr>"

definition demo_write :: "(nat, unit) rpc" where
  "demo_write n = (Inr (), Suc n)"

definition demo_ids :: "(nat, demo_column option) rpc" where
  "demo_ids n = (Inr (Some (ColumnInt64, ''id'', [GInt64 7])), Suc n)"

definition demo_columns :: "demo_column list" where
  "demo_columns = [(ColumnInt64, ''id'', [GInt64 7, GInt64 8]), (ColumnVarChar, ''name'', [GString ''a'', GString ''b''])]"

definition demo_index :: index where
  "demo_index = \<lparr>ix_name = ''i'', ix_type = ''HNSW'', ix_params = Some [(''metric_type'', ''L2'')]\<rparr>"

definition demo_client :: "(nat, demo_column) client" where
  "demo_client = \<lparr>
     cl_listDatabases = (\<lambda>_ w. (Inr [''default''], w)), cl_createDatabase = (\<lambda>_ _. demo_write),
     cl_dropDatabase = (\<lambda>_ _. demo_write), cl_usingDatabase = (\<lambda>_ _ w. (Inr (), w)),
     cl_listCollections = (\<lambda>_ w. (Inr [''t''], w)),
     cl_describeCollection = (\<lambda>_ n w. (if n = ''t'' then Inr (Some \<lparr>col_schema = Some demo_schema\<rparr>)
                                       else Inl (ExtError ''no collection''), w)),
     cl_createCollection = (\<lambda>_ _ _. demo_write), cl_dropCollection = (\<lambda>_ _. demo_write),
     cl_loadCollection = (\<lambda>_ _. demo_write), cl_releaseCollection = (\<lambda>_ _. demo_write),
     cl_flush = (\<lambda>_ _. demo_write), cl_createPartition = (\<lambda>_ _ _. demo_write),
     cl_dropPartition = (\<lambda>_ _ _. demo_write), cl_loadPartitions = (\<lambda>_ _ _. demo_write),
     cl_releasePartitions = (\<lambda>_ _ _. demo_write), cl_showPartitions = (\<lambda>_ _ w. (Inr [''_default''], w)),
     cl_createIndex = (\<lambda>_ _ _ _ _. demo_write), cl_dropIndex = (\<lambda>_ _ _ _. demo_write),
     cl_describeIndex = (\<lambda>_ _ _ w. (Inr [demo_index], w)), cl_grpc = None,
     cl_insert = (\<lambda>_ _ _. demo_ids), cl_upsert = (\<lambda>_ _ _. demo_ids), cl_delete = (\<lambda>_ _ _. demo_write),
     cl_query = (\<lambda>_ _ w. (Inr demo_columns, w)), cl_search = (\<lambda>_ _ w. (Inr [], w)),
     cl_close = id\<rparr>"

definition demo_table :: table_name where
  "demo_table = \<lparr>tn_name = ''t'', tn_qualifier = ''''\<rparr>"

definition demo_from :: "string \<Rightarrow> table_expr" where
  "demo_from n = AliasedTableExpr (TableName \<lparr>tn_name = n, tn_qualifier = ''''\<rparr>) '''' False"

definition demo_select :: select_stmt where
  "demo_select = \<lparr>sel_distinct = '''', sel_exprs = [AliasedExpr (ColName \<lparr>tn_name = '''', tn_qualifier = ''''\<rparr> ''id'') '''',
       AliasedExpr (ColName \<lparr>tn_name = '''', tn_qualifier = ''''\<rparr> ''name'') ''''],
     sel_from = [demo_from ''t''], sel_where = None, sel_groupBy = 0, sel_having = None, sel_orderBy = 0,
     sel_limit = None, sel_lock = ''''\<rparr>"

definition demo_insert :: insert_stmt where
  "demo_insert = \<lparr>ins_action = ''insert'', ins_ignore = '''', ins_table = demo_table, ins_partitions = 0,
     ins_columns = [''v'', ''id'', ''name''],
     ins_rows = Values [[SQLVal StrVal ''[1, 2.5]'', SQLVal IntVal ''7'', SQLVal StrVal ''a''],
                        [SQLVal StrVal ''[0, 1]'', SQLVal IntVal ''8'', SQLVal StrVal ''b'']],
     ins_onDup = 0\<rparr>"

definition demo_delete :: delete_stmt where
  "demo_delete = \<lparr>del_targets = 0, del_tableExprs = [demo_from ''t''], del_partitions = 0,
     del_where = Some (ComparisonExpr ''='' (ColName \<lparr>tn_name = '''', tn_qualifier = ''''\<rparr> ''id'') (SQLVal IntVal ''7'') None),
     del_orderBy = 0, del_limit = None\<rparr>"

definition demo_parse :: "string \<Rightarrow> statement result" where
  "demo_parse q =
     (if has_prefix q ''SELECT'' then Inr (SelectStmt demo_select)
      else if has_prefix q ''INSERT'' then Inr (InsertStmt demo_insert)
      else if has_prefix q ''REPLACE'' then Inr (InsertStmt (demo_insert\<lparr>ins_action := ReplaceStr\<rparr>))
      else if has_prefix q ''DELETE'' then Inr (DeleteStmt demo_delete)
      else if has_prefix q ''USE '' then Inr (UseStmt (drop 4 q))
      else Inl (ExtError ''syntax error''))"

definition demo_expr_text :: "expr \<Rightarrow> string" where
  "demo_expr_text e = (case e of ColName _ n \<Rightarrow> n | SQLVal _ v \<Rightarrow> v | _ \<Rightarrow> ''?'')"

definition demo_item_text :: "select_expr \<Rightarrow> string" where
  "demo_item_text e = (case e of AliasedExpr x _ \<Rightarrow> demo_expr_text x | _ \<Rightarrow> ''*'')"

definition demo_parser :: sqlparser where
  "demo_parser = \<lparr>sp_parse = demo_parse, sp_parseStrictDDL = demo_parse, sp_exprString = demo_expr_text,
     sp_selectExprString = demo_item_text, sp_tableExprString = (\<lambda>_. ''t''), sp_walk = (\<lambda>_. []),
     sp_sqlType = (\<lambda>_. QINT64), sp_qtypeString = (\<lambda>_. ''INT64''), sp_vectorKeyword = ''vector''\<rparr>"

definition demo_query :: "string \<Rightarrow> (nat, demo_column, unit) session_op" where
  "demo_query = handleQuery demo_client demo_sdk demo_parser (\<lambda>_. False)"

definition demo_session :: "(nat, demo_column) conn" where
  "demo_session = NewSession Background 0"

end
