(* ===== verification/InsertProps.thy ===== *)
theory InsertProps
  imports Demo
begin

text \<open>
  What INSERT and DELETE promise: every value has the type of its field, the rows arrive as columns
  without loss or reordering, and nothing is sent unless all of it is valid.
\<close>

section \<open>Values have the type of their field\<close>

definition value_fits :: "field_type \<Rightarrow> string_map \<Rightarrow> goval \<Rightarrow> bool" where
  "value_fits t p v \<longleftrightarrow>
     (case t of
        FieldTypeBool \<Rightarrow> (case v of GBool _ \<Rightarrow> True | _ \<Rightarrow> False)
      | FieldTypeInt8 \<Rightarrow> (case v of GInt8 _ \<Rightarrow> True | _ \<Rightarrow> False)
      | FieldTypeInt16 \<Rightarrow> (case v of GInt16 _ \<Rightarrow> True | _ \<Rightarrow> False)
      | FieldTypeInt32 \<Rightarrow> (case v of GInt32 _ \<Rightarrow> True | _ \<Rightarrow> False)
      | FieldTypeInt64 \<Rightarrow> (case v of GInt64 _ \<Rightarrow> True | _ \<Rightarrow> False)
      | FieldTypeFloat \<Rightarrow> (case v of GFloat32 w \<Rightarrow> is_finite64 (float64_of_32 w) | _ \<Rightarrow> False)
      | FieldTypeDouble \<Rightarrow> (case v of GFloat64 w \<Rightarrow> is_finite64 w | _ \<Rightarrow> False)
      | FieldTypeVarChar \<Rightarrow>
          (case v of
             GString x \<Rightarrow>
               (case atoi (map_get p ''max_length'') of Inl _ \<Rightarrow> False | Inr m \<Rightarrow> int (length x) \<le> m)
           | _ \<Rightarrow> False)
      | FieldTypeJSON \<Rightarrow> (case v of GBytes x \<Rightarrow> json_valid x | _ \<Rightarrow> False)
      | FieldTypeFloatVector \<Rightarrow>
          (case v of GFloats x \<Rightarrow> int (length x) = atoi_value (map_get p ''dim'') | _ \<Rightarrow> False)
      | _ \<Rightarrow> False)"

lemma parse_field_varchar_fits:
  "parse_field_varchar p e text = Inr v \<Longrightarrow> value_fits FieldTypeVarChar p v"
  by (auto simp: parse_field_varchar_def value_fits_def split: expr.splits val_type.splits sum.splits if_splits)

lemma parse_field_vector_fits: "parse_field_vector p text = Inr v \<Longrightarrow> value_fits FieldTypeFloatVector p v"
  by (auto simp: parse_field_vector_def value_fits_def Let_def split: sum.splits if_splits)

lemma parse_field_fits:
  "parse_field_bool text = Inr v \<Longrightarrow> value_fits FieldTypeBool p v"
  "parse_field_int FieldTypeInt8 text = Inr v \<Longrightarrow> value_fits FieldTypeInt8 p v"
  "parse_field_int FieldTypeInt16 text = Inr v \<Longrightarrow> value_fits FieldTypeInt16 p v"
  "parse_field_int FieldTypeInt32 text = Inr v \<Longrightarrow> value_fits FieldTypeInt32 p v"
  "parse_field_int FieldTypeInt64 text = Inr v \<Longrightarrow> value_fits FieldTypeInt64 p v"
  "parse_field_float text = Inr v \<Longrightarrow> value_fits FieldTypeFloat p v"
  "parse_field_double text = Inr v \<Longrightarrow> value_fits FieldTypeDouble p v"
  by (auto simp: parse_field_bool_def parse_field_int_def parse_field_float_def parse_field_double_def
      map_result_def value_fits_def split: if_splits sum.splits)

lemma fieldValue_Inr:
  assumes "fieldValue sdk f e = Inr v"
  obtains e' body where "vector_argument f e = Inr e'" "literalText e' = Inr body"
    "value_fits (f_dataType f) (f_typeParams f) v"
    "f_dataType f \<in> {FieldTypeInt8, FieldTypeInt16, FieldTypeInt32, FieldTypeInt64} \<Longrightarrow>
       parse_field_int (f_dataType f) body = Inr v"
proof -
  obtain e' body where t: "vector_argument f e = Inr e'" "literalText e' = Inr body"
    using assms by (auto simp: fieldValue_def split: sum.splits)
  with assms have "value_fits (f_dataType f) (f_typeParams f) v \<and>
      (f_dataType f \<in> {FieldTypeInt8, FieldTypeInt16, FieldTypeInt32, FieldTypeInt64} \<longrightarrow>
       parse_field_int (f_dataType f) body = Inr v)"
    by (cases "f_dataType f")
       (auto simp: fieldValue_def value_fits_def [of FieldTypeJSON] split: if_splits
         intro: parse_field_fits parse_field_varchar_fits parse_field_vector_fits)
  with t that show thesis by blast
qed

text \<open>The width of an integer field.\<close>

fun int_bits :: "field_type \<Rightarrow> nat" where
  "int_bits FieldTypeInt8 = 8"
| "int_bits FieldTypeInt16 = 16"
| "int_bits FieldTypeInt32 = 32"
| "int_bits _ = 64"

definition is_int_type :: "field_type \<Rightarrow> bool" where
  "is_int_type t \<longleftrightarrow> t \<in> {FieldTypeInt8, FieldTypeInt16, FieldTypeInt32, FieldTypeInt64}"

lemma parse_field_int_exact:
  assumes "parse_field_int t text = Inr v" and "is_int_type t"
  shows "\<exists>n. parse_int text (int_bits t) = Inr n \<and> int_value v = Some n"
proof -
  have "sint (word_of_int n :: int8) = n" if "parse_int text 8 = Inr n" for n
    using parse_int_bounds [OF that] by (intro sint_word_of_int_id) simp_all
  moreover have "sint (word_of_int n :: int16) = n" if "parse_int text 16 = Inr n" for n
    using parse_int_bounds [OF that] by (intro sint_word_of_int_id) simp_all
  moreover have "sint (word_of_int n :: int32) = n" if "parse_int text 32 = Inr n" for n
    using parse_int_bounds [OF that] by (intro sint_word_of_int_id) simp_all
  moreover have "sint (word_of_int n :: int64) = n" if "parse_int text 64 = Inr n" for n
    using parse_int_bounds [OF that] by (intro sint_word_of_int_id) simp_all
  ultimately show ?thesis
    using assms by (auto simp: parse_field_int_def is_int_type_def map_result_def split: sum.splits)
qed

section \<open>Rows become columns\<close>

lemma check_names_ok:
  "check_names flds seen ns = Inr () \<Longrightarrow>
     distinct ns \<and> set ns \<inter> set seen = {} \<and> (\<forall>n \<in> set ns. \<exists>f. flds n = Some f \<and> \<not> f_autoID f)"
  by (induction flds seen ns rule: check_names.induct) (auto split: option.splits if_splits)

lemma check_missing_ok:
  "check_missing seen fs = Inr () \<Longrightarrow> \<forall>f \<in> set fs. \<not> f_autoID f \<longrightarrow> f_name f \<in> set seen"
  by (induction seen fs rule: check_missing.induct) (auto split: if_splits)

text \<open>
  The documented behaviour of the SDK's columns, against an observation \<open>content\<close> of a column: a new
  column is empty, appending adds the value at the end.
\<close>

definition columns_faithful :: "'c sdk \<Rightarrow> ('c \<Rightarrow> column_kind \<times> string \<times> goval list) \<Rightarrow> bool" where
  "columns_faithful sdk content \<longleftrightarrow>
     (\<forall>k n. content (newColumn sdk k n) = (k, n, [])) \<and>
     (\<forall>c v c'. appendValue sdk c v = Inr c' \<longrightarrow>
        (case content c of (k, n, vs) \<Rightarrow> content c' = (k, n, vs @ [v])))"

lemma append_values_content:
  assumes cf: "columns_faithful sdk content"
  shows "append_values sdk f name j i c rs = Inr c' \<Longrightarrow> content c = (k, n, vs) \<Longrightarrow>
    \<exists>ws. content c' = (k, n, vs @ ws) \<and> list_all2 (\<lambda>row w. fieldValue sdk f (row ! j) = Inr w) rs ws"
proof (induction rs arbitrary: i c vs)
  case (Cons row rs)
  from Cons.prems(1) obtain v c1 where v: "fieldValue sdk f (row ! j) = Inr v" "appendValue sdk c v = Inr c1"
    "append_values sdk f name j (i + 1) c1 rs = Inr c'"
    by (auto split: sum.splits if_splits)
  have "content c1 = (k, n, vs @ [v])"
    using Cons.prems(2) v(2) cf by (fastforce simp: columns_faithful_def)
  then obtain ws where "content c' = (k, n, (vs @ [v]) @ ws)"
    "list_all2 (\<lambda>row w. fieldValue sdk f (row ! j) = Inr w) rs ws"
    using Cons.IH [OF v(3)] by blast
  with v(1) show ?case by (intro exI [of _ "v # ws"]) simp
qed (auto intro: exI [of _ "[]"])

text \<open>What one column holds: the field's values, in the order of the rows.\<close>

definition column_holds ::
  "'c sdk \<Rightarrow> ('c \<Rightarrow> column_kind \<times> string \<times> goval list) \<Rightarrow> field list \<Rightarrow> expr list list \<Rightarrow>
     nat \<times> string \<Rightarrow> 'c \<Rightarrow> bool" where
  "column_holds sdk content fs rs jn c \<longleftrightarrow>
     (\<exists>f k ws. field_map fs (snd jn) = Some f \<and> column_kind_of sdk f = Inr k \<and> content c = (k, snd jn, ws) \<and>
        list_all2 (\<lambda>row w. fieldValue sdk f (row ! fst jn) = Inr w) rs ws)"

lemma fill_column_holds:
  assumes cf: "columns_faithful sdk content" and c: "fill_column sdk (field_map fs) rs jn = Inr c"
  shows "column_holds sdk content fs rs jn c"
proof -
  from c obtain f k where f: "field_map fs (snd jn) = Some f" "column_kind_of sdk f = Inr k"
    "append_values sdk f (snd jn) (fst jn) 0 (newColumn sdk k (f_name f)) rs = Inr c"
    by (auto simp: fill_column_def emptyColumn_def map_result_def split: option.splits sum.splits)
  have "content (newColumn sdk k (f_name f)) = (k, f_name f, [])" using cf by (simp add: columns_faithful_def)
  from append_values_content [OF cf f(3) this] field_map_Some [OF f(1)] f show ?thesis
    by (auto simp: column_holds_def)
qed

lemma FillInsertColumns_Inr:
  assumes "FillInsertColumns sdk sch s = Inr cols"
  obtains rs where "ins_rows s = Values rs" "rs \<noteq> []"
    "check_names (field_map (s_fields sch)) [] (insert_names sch s) = Inr ()"
    "check_missing (insert_names sch s) (s_fields sch) = Inr ()"
    "traverse (fill_column sdk (field_map (s_fields sch)) rs) (List.enumerate 0 (insert_names sch s)) = Inr cols"
  using assms by (auto simp: FillInsertColumns_def Let_def split: insert_rows.splits if_splits sum.splits)

section \<open>Which calls are made\<close>

lemma call_calls: "call req f s = (r, s') \<Longrightarrow> c_calls s' = c_calls s @ [(c_ctx s, req)]"
  by (auto simp: call_def split: prod.splits)

lemma writeOK_calls: "writeOK x s = (r, s') \<Longrightarrow> c_calls s' = c_calls s"
  by (auto simp: writeOK_def action_simps)

lemma GetCollectinSchema_apply:
  "GetCollectinSchema cl name c =
     (case cl_describeCollection cl (c_ctx c) name (c_world c) of
        (answer, w) \<Rightarrow>
          (case answer of
             Inl e \<Rightarrow> Inl e
           | Inr None \<Rightarrow> Inl (Err ''collection has no schema'')
           | Inr (Some col) \<Rightarrow>
               (case col_schema col of None \<Rightarrow> Inl (Err ''collection has no schema'') | Some sch \<Rightarrow> Inr sch),
           c\<lparr>c_world := w, c_calls := c_calls c @ [(c_ctx c, DescribeCollection name)]\<rparr>))"
  by (simp add: GetCollectinSchema_def call_def action_simps split: prod.split sum.split option.split)

text \<open>The write of a statement: the request, and what the client answers to it.\<close>

definition write_request :: "insert_stmt \<Rightarrow> 'c list \<Rightarrow> 'c request" where
  "write_request s cols =
     (if ins_action s = ReplaceStr then Upsert (tn_name (ins_table s)) cols else Insert (tn_name (ins_table s)) cols)"

definition write_answer ::
  "('w, 'c) client \<Rightarrow> insert_stmt \<Rightarrow> 'c list \<Rightarrow> ctxt \<Rightarrow> ('w, 'c option) rpc" where
  "write_answer cl s cols ctx =
     (if ins_action s = ReplaceStr then cl_upsert cl ctx (tn_name (ins_table s)) cols
      else cl_insert cl ctx (tn_name (ins_table s)) cols)"

lemma send_columns_apply:
  "send_columns cl s cols c =
     (case write_answer cl s cols (c_ctx c) (c_world c) of
        (answer, w) \<Rightarrow> (answer, c\<lparr>c_world := w, c_calls := c_calls c @ [(c_ctx c, write_request s cols)]\<rparr>))"
  by (simp add: send_columns_def write_request_def write_answer_def call_def Let_def)

text \<open>
  A statement is accepted when it has no unsupported clause and all its rows can be converted for the
  schema that the lookup answers with; \<open>w\<close> is the state the lookup leaves.
\<close>

definition unsupported_insert :: "insert_stmt \<Rightarrow> bool" where
  "unsupported_insert s \<longleftrightarrow>
     tn_qualifier (ins_table s) \<noteq> '''' \<or> ins_ignore s \<noteq> '''' \<or> 0 < ins_onDup s \<or> 0 < ins_partitions s"

definition insert_accepts ::
  "('w, 'c) client \<Rightarrow> 'c sdk \<Rightarrow> insert_stmt \<Rightarrow> ('w, 'c) conn \<Rightarrow> 'c list \<Rightarrow> 'w \<Rightarrow> bool" where
  "insert_accepts cl sdk s c cols w \<longleftrightarrow>
     \<not> unsupported_insert s \<and>
     (\<exists>col sch. cl_describeCollection cl (c_ctx c) (tn_name (ins_table s)) (c_world c) = (Inr (Some col), w) \<and>
        col_schema col = Some sch \<and> FillInsertColumns sdk sch s = Inr cols)"

lemma handleInsert_accepted:
  assumes "handleInsert cl sdk s c = (r, c')" and "insert_accepts cl sdk s c cols w"
  shows "case write_answer cl s cols (c_ctx c) w of
    (answer, w') \<Rightarrow>
      c_world c' = w' \<and>
      c_calls c' = c_calls c @ [(c_ctx c, DescribeCollection (tn_name (ins_table s))), (c_ctx c, write_request s cols)] \<and>
      (case answer of
         Inl e \<Rightarrow> r = Inl e
       | Inr ids \<Rightarrow> r = Inr () \<and>
           c_result c' = Some (empty_result\<lparr>r_affectedRows := word_of_nat (row_count (ins_rows s)),
                                            r_insertId := insert_id sdk ids\<rparr>))"
proof -
  obtain col sch where 1: "\<not> unsupported_insert s" "col_schema col = Some sch" "FillInsertColumns sdk sch s = Inr cols"
    "cl_describeCollection cl (c_ctx c) (tn_name (ins_table s)) (c_world c) = (Inr (Some col), w)"
    using assms(2) by (auto simp: insert_accepts_def)
  then show ?thesis
    using assms(1)
    by (simp only: handleInsert_def unsupported_insert_def [symmetric] if_False)
       (auto simp: andThen_apply GetCollectinSchema_apply send_columns_apply action_simps writeOK_def
          split: prod.splits sum.splits)
qed

lemma handleInsert_refused:
  assumes "handleInsert cl sdk s c = (r, c')" and "\<nexists>cols w. insert_accepts cl sdk s c cols w"
  shows "\<not> is_ok r \<and> (c_calls c' = c_calls c \<or>
    c_calls c' = c_calls c @ [(c_ctx c, DescribeCollection (tn_name (ins_table s)))])"
proof (cases "unsupported_insert s")
  case True
  with assms(1) show ?thesis
    by (simp only: handleInsert_def unsupported_insert_def [symmetric] if_True) (auto simp: action_simps)
next
  case False
  obtain answer w where d: "cl_describeCollection cl (c_ctx c) (tn_name (ins_table s)) (c_world c) = (answer, w)"
    by (cases "cl_describeCollection cl (c_ctx c) (tn_name (ins_table s)) (c_world c)")
  have "\<exists>e. FillInsertColumns sdk sch s = Inl e" if "answer = Inr (Some col)" "col_schema col = Some sch" for col sch
    using assms(2) False d that by (cases "FillInsertColumns sdk sch s") (auto simp: insert_accepts_def)
  with assms(1) False d show ?thesis
    by (simp only: handleInsert_def unsupported_insert_def [symmetric] if_False)
       (fastforce simp: andThen_apply GetCollectinSchema_apply action_simps
          split: sum.splits option.splits)
qed

lemma filterPair_nonempty: "filterPair a b op = Inr x \<Longrightarrow> x \<noteq> []"
  by (auto simp: filterPair_def map_result_def split: sum.splits)

lemma filterComparison_nonempty: "filterComparison tbl op l r esc = Inr x \<Longrightarrow> x \<noteq> []"
  by (auto simp: filterComparison_def filterIn_def filterCompare_def map_result_def
      split: if_splits sum.splits expr.splits)

lemma scalarFilter_nonempty: "scalarFilter tbl e = Inr x \<Longrightarrow> x \<noteq> []"
  by (cases e) (auto simp: map_result_def dest: filterPair_nonempty filterComparison_nonempty split: sum.splits)

lemma handleDelete_calls:
  assumes "handleDelete cl tbl s c = (r, c')"
  shows "c_calls c' = c_calls c \<or>
    (\<exists>e table filt. del_where s = Some e \<and> scalarFilter tbl e = Inr filt \<and>
       delete_target (del_tableExprs s) = Inr table \<and> c_calls c' = c_calls c @ [(c_ctx c, Delete table filt)])"
  using assms
  by (auto simp: handleDelete_def action_simps split: option.splits if_splits sum.splits prod.splits
      dest!: call_calls writeOK_calls)

section \<open>Properties\<close>

text \<open>
  C13: A value accepted for a field has the field's type: integers of the field's width, finite
  floats, strings within \<open>max_length\<close>, valid JSON, and vectors of exactly the field's dimension.
\<close>

theorem fieldValue_typed:
  assumes "fieldValue sdk f e = Inr v"
  shows "value_fits (f_dataType f) (f_typeParams f) v"
  using assms by (rule fieldValue_Inr)

text \<open>
  C14: Integers are stored exactly or refused.  The value of an integer field denotes the number its
  literal is the decimal text of, and that number fits the field's width; nothing is truncated.
\<close>

theorem fieldValue_integer_exact:
  assumes "fieldValue sdk f e = Inr v" and "is_int_type (f_dataType f)"
  shows "\<exists>body n. literalText e = Inr body \<and> parse_int body (int_bits (f_dataType f)) = Inr n \<and>
    int_value v = Some n \<and> - (2 ^ (int_bits (f_dataType f) - 1)) \<le> n \<and> n < 2 ^ (int_bits (f_dataType f) - 1)"
proof -
  obtain e' body where t: "vector_argument f e = Inr e'" "literalText e' = Inr body"
    "parse_field_int (f_dataType f) body = Inr v"
    using fieldValue_Inr [OF assms(1)] assms(2) unfolding is_int_type_def by metis
  have "e' = e" using t(1) assms(2) by (auto simp: vector_argument_def is_int_type_def)
  moreover obtain n where "parse_int body (int_bits (f_dataType f)) = Inr n" "int_value v = Some n"
    using parse_field_int_exact [OF t(3) assms(2)] by blast
  ultimately show ?thesis using t(2) parse_int_bounds by blast
qed

text \<open>
  C8: An INSERT is transposed without loss.  When the statement is accepted, its columns are
  exactly the fields that are not generated, each once and in the order the statement lists them
  (in schema order when it lists none); the column of a name has the kind of its field and holds, in the order of the rows, the converted value of every row at the position of the
  name.
\<close>

theorem FillInsertColumns_transposes:
  assumes "columns_faithful sdk content" and "FillInsertColumns sdk sch s = Inr cols"
  shows "\<exists>rs. ins_rows s = Values rs \<and> rs \<noteq> [] \<and> distinct (insert_names sch s) \<and>
    set (insert_names sch s) = f_name ` {f \<in> set (s_fields sch). \<not> f_autoID f} \<and>
    list_all2 (column_holds sdk content (s_fields sch) rs) (List.enumerate 0 (insert_names sch s)) cols"
proof -
  obtain rs where rs: "ins_rows s = Values rs" "rs \<noteq> []"
    "check_names (field_map (s_fields sch)) [] (insert_names sch s) = Inr ()"
    "check_missing (insert_names sch s) (s_fields sch) = Inr ()"
    "traverse (fill_column sdk (field_map (s_fields sch)) rs) (List.enumerate 0 (insert_names sch s)) = Inr cols"
    using assms(2) by (rule FillInsertColumns_Inr)
  from rs(5) have "list_all2 (column_holds sdk content (s_fields sch) rs)
      (List.enumerate 0 (insert_names sch s)) cols"
    unfolding traverse_Inr by (rule list_all2_mono) (rule fill_column_holds [OF assms(1)])
  moreover have "set (insert_names sch s) = f_name ` {f \<in> set (s_fields sch). \<not> f_autoID f}"
    using check_names_ok [OF rs(3)] check_missing_ok [OF rs(4)] field_map_Some by fastforce
  ultimately show ?thesis using rs check_names_ok [OF rs(3)] by blast
qed

text \<open>
  C6: INSERT and REPLACE are all or nothing.  A statement that is accepted as a whole, with the schema
  the lookup answered, makes exactly one write after the lookup, with the columns of all its rows; it
  succeeds exactly when that write does and then reports the number of rows.  Any other statement,
  for example one with an invalid value in any row, fails and writes nothing.
\<close>

theorem insert_all_or_nothing:
  assumes "handleInsert cl sdk s c = (r, c')"
  shows "(\<exists>cols w answer w'. insert_accepts cl sdk s c cols w \<and> write_answer cl s cols (c_ctx c) w = (answer, w') \<and>
      c_world c' = w' \<and>
      c_calls c' = c_calls c @ [(c_ctx c, DescribeCollection (tn_name (ins_table s))), (c_ctx c, write_request s cols)] \<and>
      (case answer of
         Inl e \<Rightarrow> r = Inl e
       | Inr ids \<Rightarrow> r = Inr () \<and>
           c_result c' = Some (empty_result\<lparr>r_affectedRows := word_of_nat (row_count (ins_rows s)),
                                            r_insertId := insert_id sdk ids\<rparr>))) \<or>
    (\<nexists>cols w. insert_accepts cl sdk s c cols w) \<and> \<not> is_ok r \<and>
      (c_calls c' = c_calls c \<or> c_calls c' = c_calls c @ [(c_ctx c, DescribeCollection (tn_name (ins_table s)))])"
proof (cases "\<exists>cols w. insert_accepts cl sdk s c cols w")
  case True
  then obtain cols w where a: "insert_accepts cl sdk s c cols w" by blast
  obtain answer w' where "write_answer cl s cols (c_ctx c) w = (answer, w')" by (cases "write_answer cl s cols (c_ctx c) w")
  with handleInsert_accepted [OF assms a] a show ?thesis by auto
next
  case False
  with handleInsert_refused [OF assms this] show ?thesis by blast
qed

text \<open>
  C7: A DELETE always has a filter.  The handler makes at most one call; it deletes from the one
  collection the statement names, with the filter text of its WHERE clause, and that text is never
  empty, so a DELETE can not empty a collection by accident.
\<close>

theorem delete_never_unfiltered:
  assumes "handleDelete cl tbl s c = (r, c')"
  shows "c_calls c' = c_calls c \<or>
    (\<exists>e table filt. del_where s = Some e \<and> scalarFilter tbl e = Inr filt \<and> filt \<noteq> [] \<and>
       delete_target (del_tableExprs s) = Inr table \<and> c_calls c' = c_calls c @ [(c_ctx c, Delete table filt)])"
  using handleDelete_calls [OF assms] scalarFilter_nonempty by blast

section \<open>Instances\<close>

theorem fieldValue_typed_witness:
  "value_fits FieldTypeFloatVector (Some [(''dim'', ''2'')]) (GFloats [0x3F800000, 0xC0200000])"
proof -
  have "fieldValue demo_sdk (demo_field ''v'' False FieldTypeFloatVector (Some [(''dim'', ''2'')]))
      (FuncExpr '''' ''json_vector'' False [AliasedExpr (SQLVal StrVal ''[1, -2.5]'') ''''])
      = Inr (GFloats [0x3F800000, 0xC0200000])"
    by code_simp
  from fieldValue_typed [OF this] show ?thesis by (simp add: demo_field_def)
qed

theorem fieldValue_integer_exact_witness:
  "\<exists>n. parse_int ''-128'' 8 = Inr n \<and> int_value (GInt8 (- 128)) = Some n"
proof -
  have v: "fieldValue demo_sdk (demo_field ''n'' False FieldTypeInt8 None) (UnaryExpr ''-'' (SQLVal IntVal ''128''))
      = Inr (GInt8 (- 128))"
    by code_simp
  have t: "literalText (UnaryExpr ''-'' (SQLVal IntVal ''128'')) = Inr ''-128''" by (simp add: literalText_def)
  have "is_int_type (f_dataType (demo_field ''n'' False FieldTypeInt8 None))"
    by (simp add: demo_field_def is_int_type_def)
  from fieldValue_integer_exact [OF v this] t show ?thesis by (auto simp: demo_field_def)
qed

lemma demo_columns_faithful: "columns_faithful demo_sdk id"
  by (auto simp: columns_faithful_def demo_sdk_def)

lemma demo_filled: "FillInsertColumns demo_sdk demo_schema demo_insert
    = Inr [(ColumnFloatVector 2, ''v'', [GFloats [0x3F800000, 0x40200000], GFloats [0, 0x3F800000]]),
           (ColumnInt64, ''id'', [GInt64 7, GInt64 8]), (ColumnVarChar, ''name'', [GString ''a'', GString ''b''])]"
  by code_simp

theorem FillInsertColumns_transposes_witness:
  "set [''v'', ''id'', ''name''] = f_name ` {f \<in> set (s_fields demo_schema). \<not> f_autoID f}"
proof -
  have "insert_names demo_schema demo_insert = [''v'', ''id'', ''name'']"
    by (simp add: insert_names_def demo_insert_def)
  with FillInsertColumns_transposes [OF demo_columns_faithful demo_filled] show ?thesis by auto
qed

theorem insert_all_or_nothing_witness:
  "case handleInsert demo_client demo_sdk demo_insert demo_session of
     (r, c') \<Rightarrow> r = Inr () \<and> map snd (c_calls c') =
       [DescribeCollection ''t'',
        Insert ''t''
          [(ColumnFloatVector 2, ''v'', [GFloats [0x3F800000, 0x40200000], GFloats [0, 0x3F800000]]),
           (ColumnInt64, ''id'', [GInt64 7, GInt64 8]), (ColumnVarChar, ''name'', [GString ''a'', GString ''b''])]]"
proof -
  obtain r c' where h: "handleInsert demo_client demo_sdk demo_insert demo_session = (r, c')"
    by (cases "handleInsert demo_client demo_sdk demo_insert demo_session")
  have t: "tn_name (ins_table demo_insert) = ''t''" "\<not> unsupported_insert demo_insert" "ins_action demo_insert \<noteq> ReplaceStr"
    by code_simp+
  have d: "cl_describeCollection demo_client ctx ''t'' w = (Inr (Some \<lparr>col_schema = Some demo_schema\<rparr>), w)" for ctx w
    by (simp add: demo_client_def)
  have acc: "insert_accepts demo_client demo_sdk demo_insert demo_session cols w \<longleftrightarrow>
      w = c_world demo_session \<and> FillInsertColumns demo_sdk demo_schema demo_insert = Inr cols" for cols w
    using t(2) by (auto simp: insert_accepts_def t(1) d)
  have "is_ok (fst (write_answer demo_client demo_insert cols ctx w))" for cols ctx w
    by (simp add: write_answer_def t demo_client_def demo_ids_def)
  then have ok: "\<exists>ids. answer = Inr ids" if "write_answer demo_client demo_insert cols ctx w = (answer, w')" for cols ctx w answer w'
    using that by (metis fst_conv is_ok_iff)
  have "insert_accepts demo_client demo_sdk demo_insert demo_session
      [(ColumnFloatVector 2, ''v'', [GFloats [0x3F800000, 0x40200000], GFloats [0, 0x3F800000]]),
       (ColumnInt64, ''id'', [GInt64 7, GInt64 8]), (ColumnVarChar, ''name'', [GString ''a'', GString ''b''])]
      (c_world demo_session)"
    by (simp add: acc demo_filled)
  with insert_all_or_nothing [OF h] obtain cols w answer w' where
    a: "insert_accepts demo_client demo_sdk demo_insert demo_session cols w"
      "write_answer demo_client demo_insert cols (c_ctx demo_session) w = (answer, w')"
      "c_calls c' = c_calls demo_session @ [(c_ctx demo_session, DescribeCollection ''t''),
         (c_ctx demo_session, write_request demo_insert cols)]"
      "case answer of Inl e \<Rightarrow> r = Inl e | Inr ids \<Rightarrow> r = Inr () \<and>
           c_result c' = Some (empty_result\<lparr>r_affectedRows := word_of_nat (row_count (ins_rows demo_insert)),
                                            r_insertId := insert_id demo_sdk ids\<rparr>)"
    unfolding t(1) by blast
  have "r = Inr ()" using a(4) ok [OF a(2)] by auto
  moreover have "cols = [(ColumnFloatVector 2, ''v'', [GFloats [0x3F800000, 0x40200000], GFloats [0, 0x3F800000]]),
       (ColumnInt64, ''id'', [GInt64 7, GInt64 8]), (ColumnVarChar, ''name'', [GString ''a'', GString ''b''])]"
    using a(1) unfolding acc demo_filled by simp
  moreover have "c_calls demo_session = []" by (simp add: demo_session_def NewSession_def)
  ultimately show ?thesis using a(3) t(3) unfolding h by (simp add: write_request_def t(1))
qed

theorem delete_never_unfiltered_witness:
  "map snd (c_calls (snd (handleDelete demo_client (\<lambda>_. False) demo_delete demo_session)))
     = [Delete ''t'' ''id == 7'']"
proof -
  obtain r c' where h: "handleDelete demo_client (\<lambda>_. False) demo_delete demo_session = (r, c')"
    by (cases "handleDelete demo_client (\<lambda>_. False) demo_delete demo_session")
  have "length (c_calls (snd (handleDelete demo_client (\<lambda>_. False) demo_delete demo_session))) = 1"
    by code_simp
  moreover have "scalarFilter (\<lambda>_. False) (the (del_where demo_delete)) = Inr ''id == 7''" by code_simp
  moreover have "delete_target (del_tableExprs demo_delete) = Inr ''t''" by code_simp
  ultimately show ?thesis
    using delete_never_unfiltered [OF h] h by (auto simp: demo_session_def NewSession_def)
qed

end
