(* ===== verification/DdlProps.thy ===== *)
theory DdlProps
  imports InsertProps
begin

text \<open>
  What CREATE TABLE promises of the schemas it sends, and how they meet INSERT.
\<close>

section \<open>Schemas\<close>

definition field_ok :: "field \<Rightarrow> bool" where
  "field_ok f \<longleftrightarrow>
     fieldIdentifier (f_name f) \<and> f_name f \<noteq> ''_distance'' \<and>
     (f_primaryKey f \<longrightarrow> f_dataType f = FieldTypeInt64 \<or> f_dataType f = FieldTypeVarChar) \<and>
     (f_autoID f \<longrightarrow> f_primaryKey f \<and> f_dataType f = FieldTypeInt64) \<and>
     (f_dataType f = FieldTypeFloatVector \<longrightarrow> bounded_length (map_get (f_typeParams f) ''dim'') 32768) \<and>
     (f_dataType f = FieldTypeVarChar \<longrightarrow> bounded_length (map_get (f_typeParams f) ''max_length'') 65535)"

definition schema_ok :: "schema \<Rightarrow> bool" where
  "schema_ok s \<longleftrightarrow>
     distinct (map f_name (s_fields s)) \<and> list_all field_ok (s_fields s) \<and>
     length (filter f_primaryKey (s_fields s)) = 1 \<and>
     list_ex (\<lambda>f. f_dataType f = FieldTypeFloatVector) (s_fields s)"

lemma vector_params_Inr: "vector_params len = Inr p \<Longrightarrow> bounded_length (map_get p ''dim'') 32768"
  by (auto simp: vector_params_def split: option.splits if_splits)

lemma varchar_params_Inr: "varchar_params len = Inr p \<Longrightarrow> bounded_length (map_get p ''max_length'') 65535"
  by (auto simp: varchar_params_def split: option.splits if_splits)

definition params_ok :: "field_type \<Rightarrow> string_map \<Rightarrow> bool" where
  "params_ok t p \<longleftrightarrow>
     (t = FieldTypeFloatVector \<longrightarrow> bounded_length (map_get p ''dim'') 32768) \<and>
     (t = FieldTypeVarChar \<longrightarrow> bounded_length (map_get p ''max_length'') 65535)"

lemma MilvusDataTypeMap_no_vector: "MilvusDataTypeMap q \<noteq> Some FieldTypeFloatVector"
  by (cases q) (simp_all add: MilvusDataTypeMap_def)

lemma column_data_type_params: "column_data_type sp t = Inr (dt, p) \<Longrightarrow> params_ok dt p"
  by (auto simp: column_data_type_def params_ok_def map_result_def MilvusDataTypeMap_no_vector
      dest: vector_params_Inr varchar_params_Inr split: if_splits option.splits sum.splits)

lemma columnToMilvusField_params:
  "columnToMilvusField sp col = Inr f \<Longrightarrow> params_ok (f_dataType f) (f_typeParams f) \<and> (f_autoID f \<longrightarrow> f_primaryKey f)"
  by (auto simp: columnToMilvusField_def Let_def column_key_def dest: column_data_type_params
      split: if_splits sum.splits prod.splits)

lemma check_field_ok:
  "check_field seen f = Inr () \<Longrightarrow> params_ok (f_dataType f) (f_typeParams f) \<Longrightarrow>
     (f_autoID f \<longrightarrow> f_primaryKey f) \<Longrightarrow> field_ok f \<and> f_name f \<notin> set seen"
  by (auto simp: check_field_def field_ok_def params_ok_def split: if_splits)

lemma check_fields_ok:
  "check_fields seen pk vecs fs = Inr (pk', vecs') \<Longrightarrow>
     \<forall>f \<in> set fs. params_ok (f_dataType f) (f_typeParams f) \<and> (f_autoID f \<longrightarrow> f_primaryKey f) \<Longrightarrow>
     list_all field_ok fs \<and> distinct (map f_name fs) \<and> set (map f_name fs) \<inter> set seen = {} \<and>
     pk' = pk + length (filter f_primaryKey fs) \<and>
     (vecs' = vecs \<or> list_ex (\<lambda>f. f_dataType f = FieldTypeFloatVector) fs)"
proof (induction fs arbitrary: seen pk vecs)
  case (Cons f fs)
  from Cons.prems(1) have c: "check_field seen f = Inr ()"
    and r: "check_fields (f_name f # seen) (if f_primaryKey f then pk + 1 else pk)
      (if f_dataType f = FieldTypeFloatVector then vecs + 1 else vecs) fs = Inr (pk', vecs')"
    by (auto split: sum.splits)
  have "field_ok f \<and> f_name f \<notin> set seen" using check_field_ok [OF c] Cons.prems(2) by simp
  with Cons.IH [OF r] Cons.prems(2) show ?case by (auto split: if_splits)
qed simp

lemma schema_column_Inr: "schema_column sp col = Inr f \<Longrightarrow> columnToMilvusField sp col = Inr f"
  by (auto simp: schema_column_def split: sum.splits)

section \<open>Properties\<close>

text \<open>
  C15: Every schema CREATE TABLE produces is valid: distinct identifier names none of which is the
  reserved score, exactly one primary key of an allowed type, generated keys only on a BIGINT key, at
  least one vector, and vector dimensions and string lengths within Milvus's limits.
\<close>

theorem DDLToMilvusSchema_valid:
  assumes "DDLToMilvusSchema sp stmt = Inr ms"
  shows "schema_ok (ms_schema ms) \<and> ms_shardNum ms = 1"
proof -
  obtain spec where spec: "ddl_tableSpec stmt = Some spec"
    using assms by (cases "ddl_tableSpec stmt") (simp_all add: DDLToMilvusSchema_def)
  obtain fs where d1: "traverse (schema_column sp) (ts_columns spec) = Inr fs"
    using assms spec by (auto simp: DDLToMilvusSchema_def split: if_splits sum.splits)
  obtain pk vecs where d2: "check_fields [] 0 0 fs = Inr (pk, vecs)"
    using assms spec d1 by (auto simp: DDLToMilvusSchema_def split: if_splits sum.splits)
  have d3: "pk = 1" "vecs \<noteq> 0" "s_fields (ms_schema ms) = fs" "ms_shardNum ms = 1"
    using assms spec d1 d2 by (auto simp: DDLToMilvusSchema_def split: if_splits)
  note d = d1 d2 d3
  have "\<forall>f \<in> set fs. params_ok (f_dataType f) (f_typeParams f) \<and> (f_autoID f \<longrightarrow> f_primaryKey f)"
    using d(1) columnToMilvusField_params schema_column_Inr
    unfolding traverse_Inr list_all2_conv_all_nth by (metis in_set_conv_nth)
  from check_fields_ok [OF d(2) this] d show ?thesis by (auto simp: schema_ok_def)
qed

text \<open>
  A field of a created collection can be filled, unless it is of type TEXT: the column for it can
  be built.
\<close>

lemma created_field_has_column:
  assumes "columnToMilvusField sp col = Inr f" and "f_dataType f \<noteq> FieldTypeString"
  shows "is_ok (emptyColumn sdk f)"
proof -
  have p: "params_ok (f_dataType f) (f_typeParams f)" using columnToMilvusField_params [OF assms(1)] by simp
  have "\<forall>n. f_dataType f \<noteq> FieldTypeOther n"
    using assms(1)
    by (auto simp: columnToMilvusField_def Let_def column_data_type_def map_result_def MilvusDataTypeMap_def
        split: if_splits sum.splits prod.splits option.splits qtype.splits)
  with p assms(2) show ?thesis
    by (cases "f_dataType f")
       (auto simp: emptyColumn_def column_kind_of_def params_ok_def bounded_length_def split: sum.splits)
qed

text \<open>
  C16: A TEXT column makes a collection useless: CREATE TABLE accepts it, but no INSERT into a
  collection with such a field is ever accepted.
\<close>

theorem text_column_refuses_inserts:
  assumes "f \<in> set (s_fields sch)" and "f_dataType f = FieldTypeString" and "\<not> f_autoID f"
    and "distinct (map f_name (s_fields sch))"
  shows "\<not> is_ok (FillInsertColumns sdk sch s)"
proof
  assume "is_ok (FillInsertColumns sdk sch s)"
  then obtain cols where "FillInsertColumns sdk sch s = Inr cols" by (auto simp: is_ok_iff)
  then obtain rs where rs: "check_missing (insert_names sch s) (s_fields sch) = Inr ()"
    "traverse (fill_column sdk (field_map (s_fields sch)) rs) (List.enumerate 0 (insert_names sch s)) = Inr cols"
    by (rule FillInsertColumns_Inr)
  have "f_name f \<in> set (insert_names sch s)" using check_missing_ok [OF rs(1)] assms by blast
  then obtain j where j: "(j, f_name f) \<in> set (List.enumerate 0 (insert_names sch s))"
    by (metis in_set_impl_in_set_zip2 enumerate_eq_zip length_upt add_diff_cancel_left')
  have "distinct (map fst (rev (map (\<lambda>g. (f_name g, g)) (s_fields sch))))"
    using assms(4) by (simp add: rev_map [symmetric] o_def)
  then have "field_map (s_fields sch) (f_name f) = Some f"
    using assms(1) by (auto simp: field_map_def intro!: map_of_is_SomeI)
  then have "\<not> is_ok (fill_column sdk (field_map (s_fields sch)) rs (j, f_name f))"
    using assms(2) by (simp add: fill_column_def emptyColumn_def column_kind_of_def)
  moreover have "is_ok (fill_column sdk (field_map (s_fields sch)) rs (j, f_name f))"
    using rs(2) j by (auto simp: traverse_Inr list_all2_conv_all_nth in_set_conv_nth is_ok_iff)
  ultimately show False by simp
qed

section \<open>Instances\<close>

definition plain_type :: "string \<Rightarrow> string option \<Rightarrow> nat \<Rightarrow> column_type" where
  "plain_type t len key = \<lparr>ct_type = t, ct_autoincrement = False, ct_default = None, ct_onUpdate = None,
     ct_comment = None, ct_length = len, ct_unsigned = False, ct_zerofill = False, ct_scale = None,
     ct_charset = '''', ct_collate = '''', ct_keyOpt = key\<rparr>"

definition text_ddl :: ddl_stmt where
  "text_ddl = \<lparr>ddl_action = ''create'', ddl_table = demo_table, ddl_newName = demo_table, ddl_ifExists = False,
     ddl_tableSpec = Some \<lparr>ts_columns =
       [\<lparr>cd_name = ''id'', cd_type = plain_type ''bigint'' None 1\<rparr>,
        \<lparr>cd_name = ''note'', cd_type = plain_type ''text'' None 0\<rparr>,
        \<lparr>cd_name = ''v'', cd_type = plain_type ''vector'' (Some ''2'') 0\<rparr>],
       ts_indexes = 0, ts_options = ''''\<rparr>\<rparr>"

definition ddl_parser :: sqlparser where
  "ddl_parser = demo_parser\<lparr>sp_sqlType := (\<lambda>t. if ct_type t = ''text'' then QTEXT else QINT64)\<rparr>"

definition text_schema :: milvus_schema where
  "text_schema = \<lparr>ms_schema = \<lparr>s_collectionName = ''t'', s_description = '''', s_fields =
     [demo_field ''id'' True FieldTypeInt64 None, demo_field ''note'' False FieldTypeString None,
      demo_field ''v'' False FieldTypeFloatVector (Some [(''dim'', ''2'')])]\<rparr>, ms_shardNum = 1\<rparr>"

lemma text_ddl_accepted: "DDLToMilvusSchema ddl_parser text_ddl = Inr text_schema"
  by code_simp

theorem DDLToMilvusSchema_valid_witness: "schema_ok (ms_schema text_schema)"
  using DDLToMilvusSchema_valid [OF text_ddl_accepted] by simp

theorem text_column_refuses_inserts_witness:
  "DDLToMilvusSchema ddl_parser text_ddl = Inr text_schema \<and>
   \<not> is_ok (FillInsertColumns demo_sdk (ms_schema text_schema) demo_insert)"
proof
  let ?f = "demo_field ''note'' False FieldTypeString None"
  have f: "?f \<in> set (s_fields (ms_schema text_schema))" by (simp add: text_schema_def)
  have t: "f_dataType ?f = FieldTypeString" "\<not> f_autoID ?f" by (simp_all add: demo_field_def)
  have "distinct (map f_name (s_fields (ms_schema text_schema)))"
    by (simp add: text_schema_def demo_field_def)
  from text_column_refuses_inserts [OF f t this]
  show "\<not> is_ok (FillInsertColumns demo_sdk (ms_schema text_schema) demo_insert)" .
qed (rule text_ddl_accepted)

end
