(* ===== verification/Frames.thy ===== *)
theory Frames
  imports Parameters
begin

text \<open>
  What the operations of a session leave alone.  The locale \<open>session_frame\<close> is the contract between
  the session and its handlers: a relation between the states before and after that survives a
  remote call and the writing of a well-formed result is kept by every handler.  USE also changes
  the database, so everything that can reach it is in \<open>session_frame_db\<close>.
\<close>

section \<open>Well-formed results\<close>

definition wf_resultset :: "resultset \<Rightarrow> bool" where
  "wf_resultset r \<longleftrightarrow> (\<forall>row \<in> set (rs_values r). length row = length (rs_fields r))"

definition wf_result :: "mysql_result \<Rightarrow> bool" where
  "wf_result r \<longleftrightarrow> (case r_resultset r of None \<Rightarrow> True | Some rs \<Rightarrow> wf_resultset rs)"

lemma wf_result_simps [simp]:
  "wf_result empty_result"
  "wf_result (r\<lparr>r_affectedRows := n\<rparr>) = wf_result r"
  "wf_result (r\<lparr>r_insertId := n\<rparr>) = wf_result r"
  "wf_result (r\<lparr>r_status := st\<rparr>) = wf_result r"
  "wf_result (r\<lparr>r_resultset := Some rs\<rparr>) = wf_resultset rs"
  by (simp_all add: wf_result_def empty_result_def)

lemma formatFields_length: "formatFields fs row = Inr fs' \<Longrightarrow> length fs' = min (length fs) (length row)"
  by (auto simp: formatFields_def dest: traverse_length)

lemma check_rows_wf:
  "check_rows derive n i fs rws = Inr fs' \<Longrightarrow> length fs = n \<Longrightarrow>
     length fs' = n \<and> (\<forall>row \<in> set rws. length row = n)"
proof (induction derive n i fs rws arbitrary: fs' rule: check_rows.induct)
  case (2 derive n i fs row rws)
  have len: "length row = n" using 2(3) by (simp split: if_splits)
  show ?case
  proof (cases "i = 0 \<and> derive")
    case True
    with 2(3) len obtain gs where g: "formatFields fs row = Inr gs" "check_rows derive n (i + 1) gs rws = Inr fs'"
      by (auto split: sum.splits)
    moreover have "length gs = n" using formatFields_length [OF g(1)] len 2(4) by simp
    ultimately show ?thesis using 2(1) [of gs fs'] True len by auto
  next
    case False
    with 2(2) [of fs'] 2(3,4) len show ?thesis by simp
  qed
qed simp

lemma check_rows_fields: "check_rows False n i fs rws = Inr fs' \<Longrightarrow> fs' = fs"
  by (induction False n i fs rws rule: check_rows.induct) (auto split: if_splits)

lemma buildResultset_wf:
  assumes "buildResultset flds names values = Inr r"
  shows "wf_resultset r \<and> length (rs_fields r) = length names \<and> rs_values r = values \<and>
    (flds \<noteq> [] \<longrightarrow> rs_fields r = flds)"
proof -
  let ?fs = "if flds \<noteq> [] then flds else map empty_field names"
  obtain fs' where c: "check_rows (flds = []) (length names) 0 ?fs values = Inr fs'"
    "rs_fields r = fs'" "rs_values r = values" "flds \<noteq> [] \<longrightarrow> length flds = length names"
    using assms
    by (auto simp: buildResultset_def newEmptyResultset_def map_result_def Let_def split: if_splits sum.splits)
  have l: "length ?fs = length names" using c(4) by simp
  have "length fs' = length names \<and> (\<forall>row \<in> set values. length row = length names)"
    using check_rows_wf [OF c(1) l] by simp
  moreover have "fs' = flds" if "flds \<noteq> []"
    using that c(1) check_rows_fields by auto
  ultimately show ?thesis using c(2,3) by (auto simp: wf_resultset_def)
qed

section \<open>The contract\<close>

locale session_frame = action_frame R for R :: "('w, 'c) conn \<Rightarrow> ('w, 'c) conn \<Rightarrow> bool" +
  assumes frame_call: "R s (s\<lparr>c_world := w, c_calls := c_calls s @ [(c_ctx s, req)]\<rparr>)"
    and frame_result: "wf_result r \<Longrightarrow> R s (s\<lparr>c_result := Some r\<rparr>)"
begin

lemma keeps_call: "keeps (call req f)"
  by (rule keepsI) (simp add: call_def frame_call split: prod.split)

lemma keeps_writeOK: "(\<And>x. r = Some x \<Longrightarrow> wf_result x) \<Longrightarrow> keeps (writeOK r)"
  unfolding writeOK_def by (rule keeps_modify) (auto intro!: frame_result split: option.split)

lemma keeps_writeOK_None: "keeps (writeOK None)"
  by (rule keeps_writeOK) simp

lemma keeps_writeResultset: "wf_resultset r \<Longrightarrow> keeps (writeResultset st r)"
  unfolding writeResultset_def by (rule keeps_modify) (simp add: frame_result)

lemma keeps_build_mapErr:
  assumes "\<And>r. m = Inr r \<Longrightarrow> keeps (f r)"
  shows "keeps (andThen (mapErr h (lift_result m)) f)"
proof (rule keepsI)
  fix s
  show "R s (snd (andThen (mapErr h (lift_result m)) f s))"
    using assms by (cases m) (auto simp: action_simps frame_refl keeps_def)
qed

lemma keeps_rows: "keeps (rows names values)"
  unfolding rows_def
  by (intro keeps_withState_all keeps_lift_bind keeps_writeResultset) (simp add: buildResultset_wf)

lemma keeps_select_result: "keeps (select_result cs values)"
  unfolding select_result_def Let_def
proof (intro keeps_withState_all keeps_lift_bind keeps_writeResultset)
  fix r
  assume b: "buildResultset (map (\<lambda>(n, t). resultField n t) cs) (map fst cs) values = Inr r"
  have "length (rs_fields r) = length cs" "wf_resultset r" using buildResultset_wf [OF b] by auto
  then show "wf_resultset (r\<lparr>rs_fields := map (\<lambda>(n, t). resultField n t) cs\<rparr>)"
    by (simp add: wf_resultset_def)
qed

lemmas keeps_session =
  keeps_call keeps_writeOK_None keeps_rows keeps_select_result

lemma keeps_schema: "keeps (GetCollectinSchema cl name)"
  unfolding GetCollectinSchema_def by (intro keeps_intros keeps_session)

lemma keeps_handleInsert: "keeps (handleInsert cl sdk s)"
  unfolding handleInsert_def send_columns_def Let_def
  by (intro keeps_intros keeps_session keeps_schema keeps_writeOK) auto

lemma keeps_handleDelete: "keeps (handleDelete cl tbl s)"
  unfolding handleDelete_def by (intro keeps_intros keeps_session)

lemma keeps_handleDDL: "keeps (handleDDL cl sp stmt)"
  unfolding handleDDL_def handleCreateTable_def handleDropTable_def Let_def
  by (intro keeps_intros keeps_session)

lemma keeps_handleDBDDL: "keeps (handleDBDDL cl stmt)"
  unfolding handleDBDDL_def handleCreateDB_def handleDropDB_def
  by (intro keeps_intros keeps_session keeps_writeOK) auto

lemma keeps_vectorIndexes: "keeps (vectorIndexes cl sdk table fld)"
  unfolding vectorIndexes_def by (intro keeps_intros keeps_session)

lemma keeps_listIndexes: "keeps (listIndexes cl sdk table)"
  unfolding listIndexes_def by (intro keeps_intros keeps_session)

lemma keeps_search_index: "keeps (search_index cl sdk table fld)"
  unfolding search_index_def
  by (intro keeps_andThen keeps_vectorIndexes) (auto split: list.split intro!: keeps_ret keeps_throw)

lemma keeps_select_search: "keeps (select_search cl sdk p sch cs)"
  unfolding select_search_def Let_def
  by (intro keeps_intros keeps_session keeps_search_index)
     (auto split: list.split option.split intro!: keeps_intros keeps_session)

lemma keeps_select_query: "keeps (select_query cl sdk p l cs)"
  unfolding select_query_def Let_def by (intro keeps_intros keeps_session)

lemma keeps_select_collection: "keeps (select_collection cl sdk sp p s)"
  unfolding select_collection_def
  by (intro keeps_intros keeps_session keeps_schema keeps_select_search keeps_select_query)

lemma keeps_handleSelect: "keeps (handleSelect cl sdk sp tbl s)"
  unfolding handleSelect_def
  by (intro keeps_withState_all keeps_option keeps_andThen keeps_lift keeps_select_collection)
     (auto intro!: keeps_rows split: prod.split)

lemma keeps_show_values: "keeps (show_values name values)"
  unfolding show_values_def
  by (intro keeps_withState_all keeps_build_mapErr keeps_writeResultset) (simp add: buildResultset_wf)

lemma keeps_handleShow: "keeps (handleShow cl typ)"
  unfolding handleShow_def by (intro keeps_intros keeps_session keeps_show_values)

lemma keeps_unless_describing: "keeps a \<Longrightarrow> keeps b \<Longrightarrow> keeps (unless_describing a b)"
  unfolding unless_describing_def by (intro keeps_withState_all) simp

lemma keeps_then_OK: "keeps a \<Longrightarrow> keeps (then_OK a)"
  unfolding then_OK_def by (intro keeps_intros keeps_session)

lemmas keeps_command =
  keeps_intros keeps_session keeps_schema keeps_listIndexes keeps_unless_describing keeps_then_OK

lemma keeps_cmd_describe: "keeps (cmd_describe cl sdk m)"
  unfolding cmd_describe_def
proof (intro keeps_unless_describing keeps_withState_all keeps_lift_bind keeps_writeResultset)
  fix r
  assume "buildResultset [] describe_names [] = Inr r"
  then have "rs_values r = []" using buildResultset_wf by blast
  then show "wf_resultset (r\<lparr>rs_fields := (rs_fields r)
      [2 := resultField (describe_names ! 2) FieldTypeBool, 3 := resultField (describe_names ! 3) FieldTypeBool]\<rparr>)"
    by (simp add: wf_resultset_def)
qed (intro keeps_command)

lemma keeps_commands: "list_all (\<lambda>pa. \<forall>m. keeps (snd pa m)) (commands cl sdk)"
proof -
  have "keeps (cmd_lifecycle cl m)" "keeps (cmd_createIndex cl sdk m)" "keeps (cmd_dropIndex cl m)"
    "keeps (cmd_showIndexes cl sdk m)" "keeps (cmd_partition cl m)" "keeps (cmd_showPartitions cl m)" for m
    unfolding cmd_lifecycle_def cmd_createIndex_def cmd_dropIndex_def cmd_showIndexes_def cmd_partition_def
      cmd_showPartitions_def Let_def
    by (intro keeps_command)+
  with keeps_cmd_describe show ?thesis by (simp add: commands_def)
qed

lemma keeps_run_command: "list_all (\<lambda>pa. \<forall>m. keeps (snd pa m)) cs \<Longrightarrow> keeps (run_command cs sql)"
proof (induction cs sql rule: run_command.induct)
  case (2 p act cs sql)
  then show ?case by (cases "find_submatch p sql") (auto intro!: keeps_intros)
qed (simp add: keeps_ret)

lemma keeps_handleMilvusCommand:
  "(\<And>q. keeps (hq q)) \<Longrightarrow> keeps (handleMilvusCommand cl sdk hq sql)"
  unfolding handleMilvusCommand_def Let_def
  by (intro keeps_command keeps_run_command keeps_commands) auto

lemma keeps_handleQuery_step:
  assumes "\<And>q. keeps (hq q)" and "\<And>db. keeps (handleUseDB cl db)"
  shows "keeps (handleQuery_step cl sdk sp tbl hq sql)"
proof -
  have "keeps (run_statement cl sdk sp tbl stmt)" for stmt
    unfolding run_statement_def
    by (cases stmt) (auto intro!: keeps_handleShow keeps_handleDBDDL keeps_handleDDL keeps_handleSelect
        keeps_handleInsert keeps_handleDelete assms(2) keeps_throw)
  then have "keeps (handleSQL cl sdk sp tbl q)" for q
    unfolding handleSQL_def by (intro keeps_intros keeps_session)
  then show ?thesis
    unfolding handleQuery_step_def Let_def
    by (intro keeps_intros keeps_handleMilvusCommand assms(1))
qed

lemma keeps_handleQuery:
  assumes "\<And>db. keeps (handleUseDB cl db)"
  shows "keeps (handleQuery cl sdk sp tbl sql)"
proof -
  have "keeps (handleQuery_fuel cl sdk sp tbl n q)" for n q
    by (induction n arbitrary: q) (auto intro!: keeps_throw keeps_handleQuery_step assms)
  then show ?thesis by (simp add: handleQuery_def)
qed

end

text \<open>A frame that also allows the database to change is kept by every statement.\<close>

locale session_frame_db = session_frame +
  assumes frame_db: "R s (s\<lparr>c_db := d\<rparr>)"
begin

lemma keeps_handleUseDB: "keeps (handleUseDB cl db)"
  unfolding handleUseDB_def
  by (intro keeps_intros keeps_session) (rule frame_db)

lemma keeps_statement: "keeps (handleQuery cl sdk sp tbl sql)"
  by (rule keeps_handleQuery) (rule keeps_handleUseDB)

end

section \<open>The frames\<close>

text \<open>A log that only grew, by entries with a property.\<close>

definition extends :: "('x \<Rightarrow> bool) \<Rightarrow> 'x list \<Rightarrow> 'x list \<Rightarrow> bool" where
  "extends P xs ys \<longleftrightarrow> (\<exists>new. ys = xs @ new \<and> (\<forall>x \<in> set new. P x))"

lemma extends_refl [simp]: "extends P xs xs"
  by (simp add: extends_def)

lemma extends_snoc [simp]: "extends P xs (xs @ [x]) = P x"
  by (simp add: extends_def)

lemma extends_trans: "extends P xs ys \<Longrightarrow> extends P ys zs \<Longrightarrow> extends P xs zs"
  unfolding extends_def by (metis Un_iff append.assoc set_append)

text \<open>Every call is made with the context of the session, and nothing resets the context or the describe flag.\<close>

definition own_calls :: "('w, 'c) conn \<Rightarrow> ('w, 'c) conn \<Rightarrow> bool" where
  "own_calls s t \<longleftrightarrow> c_ctx t = c_ctx s \<and> c_describe t = c_describe s \<and>
     extends (\<lambda>x. fst x = c_ctx s) (c_calls s) (c_calls t)"

interpretation own_ctx: session_frame_db own_calls
  by unfold_locales (auto simp: own_calls_def intro: extends_trans)

text \<open>The stored result stays well-formed.\<close>

definition session_wf :: "('w, 'c) conn \<Rightarrow> bool" where
  "session_wf s \<longleftrightarrow> (case c_result s of None \<Rightarrow> True | Some r \<Rightarrow> wf_result r)"

lemma session_wf_update [simp]:
  "session_wf (s\<lparr>c_world := w, c_calls := cs\<rparr>) = session_wf s"
  "session_wf (s\<lparr>c_db := d\<rparr>) = session_wf s"
  "session_wf (s\<lparr>c_ctx := ctx\<rparr>) = session_wf s"
  "session_wf (s\<lparr>c_describe := b\<rparr>) = session_wf s"
  "session_wf (s\<lparr>c_result := Some r\<rparr>) = wf_result r"
  "session_wf (s\<lparr>c_ctx := ctx, c_result := None\<rparr>)"
  by (simp_all add: session_wf_def)

definition keeps_wf :: "('w, 'c) conn \<Rightarrow> ('w, 'c) conn \<Rightarrow> bool" where
  "keeps_wf s t \<longleftrightarrow> (session_wf s \<longrightarrow> session_wf t)"

interpretation result_wf: session_frame_db keeps_wf
  by unfold_locales (simp_all add: keeps_wf_def)

text \<open>Everything but USE leaves the database alone.\<close>

definition same_db :: "('w, 'c) conn \<Rightarrow> ('w, 'c) conn \<Rightarrow> bool" where
  "same_db s t \<longleftrightarrow> c_db t = c_db s"

interpretation same: session_frame same_db
  by unfold_locales (simp_all add: same_db_def)

text \<open>While describing, the only calls are for schemas.\<close>

definition is_schema_call :: "ctxt \<times> 'c request \<Rightarrow> bool" where
  "is_schema_call x \<longleftrightarrow> (case snd x of DescribeCollection _ \<Rightarrow> True | _ \<Rightarrow> False)"

definition describes_only :: "('w, 'c) conn \<Rightarrow> ('w, 'c) conn \<Rightarrow> bool" where
  "describes_only s t \<longleftrightarrow> (c_describe s \<longrightarrow> c_describe t \<and> c_db t = c_db s \<and>
     extends is_schema_call (c_calls s) (c_calls t))"

interpretation describing: action_frame describes_only
  by unfold_locales (auto simp: describes_only_def intro: extends_trans)

lemma describing_frame:
  "describes_only s (s\<lparr>c_result := r\<rparr>)"
  "describes_only s (s\<lparr>c_world := w, c_calls := c_calls s @ [(ctx, DescribeCollection n)]\<rparr>)"
  by (simp_all add: describes_only_def is_schema_call_def)

lemma describing_schema_call: "describing.keeps (call (DescribeCollection name) f)"
  by (rule describing.keepsI) (simp add: call_def describing_frame split: prod.split)

lemma describing_basic:
  "describing.keeps (writeOK r)"
  "describing.keeps (writeResultset st rs)"
  "describing.keeps (rows names values)"
  "describing.keeps (select_result cs values)"
  "describing.keeps (GetCollectinSchema cl name)"
proof -
  show w: "describing.keeps (writeResultset st rs)" for st rs
    unfolding writeResultset_def by (intro describing.keeps_intros describing_frame)
  show "describing.keeps (writeOK r)" 
    unfolding writeOK_def by (intro describing.keeps_intros describing_frame)
  show "describing.keeps (rows names values)" "describing.keeps (select_result cs values)"
    unfolding rows_def select_result_def Let_def by (intro describing.keeps_intros w)+
  show "describing.keeps (GetCollectinSchema cl name)"
    unfolding GetCollectinSchema_def by (intro describing.keeps_intros describing_schema_call)
qed

text \<open>Behind a test of the flag only the describing branch counts.\<close>

lemma describing_guard:
  assumes "describing.keeps a"
  shows "describing.keeps (withState (\<lambda>s. if c_describe s \<or> p s then a else b s))"
proof (rule describing.keeps_withState)
  fix s
  have "describes_only s (snd (a s))" using assms by (simp add: describing.keeps_def)
  then show "describes_only s (snd ((if c_describe s \<or> p s then a else b s) s))"
    by (cases "c_describe s") (simp_all add: describes_only_def)
qed

lemma describing_unless: "describing.keeps a \<Longrightarrow> describing.keeps (unless_describing a b)"
  using describing_guard [of a "\<lambda>_. False" "\<lambda>_. b"] by (simp add: unless_describing_def)

lemma describing_commands: "list_all (\<lambda>pa. \<forall>m. describing.keeps (snd pa m)) (commands cl sdk)"
proof -
  have "describing.keeps (cmd_lifecycle cl m)" "describing.keeps (cmd_createIndex cl sdk m)"
    "describing.keeps (cmd_dropIndex cl m)" "describing.keeps (cmd_showIndexes cl sdk m)"
    "describing.keeps (cmd_partition cl m)" "describing.keeps (cmd_showPartitions cl m)"
    "describing.keeps (cmd_describe cl sdk m)" for m
    unfolding cmd_lifecycle_def cmd_createIndex_def cmd_dropIndex_def cmd_showIndexes_def cmd_partition_def
      cmd_showPartitions_def cmd_describe_def Let_def
    by (intro describing_unless describing_basic describing.keeps_intros)+
  then show ?thesis by (simp add: commands_def)
qed

lemma describing_run_command:
  "list_all (\<lambda>pa. \<forall>m. describing.keeps (snd pa m)) cs \<Longrightarrow> describing.keeps (run_command cs sql)"
proof (induction cs sql rule: run_command.induct)
  case (2 p act cs sql)
  then show ?case by (cases "find_submatch p sql") (auto intro!: describing.keeps_intros)
qed (simp add: describing.keeps_ret)

lemma describing_handleShow:
  fixes cl :: "('w, 'c) client"
  shows "describing.keeps (handleShow cl typ)"
proof (rule describing.keepsI)
  fix s :: "('w, 'c) conn"
  have r: "describes_only s (snd (rows ns [] s))" for ns
    using describing_basic(3) [of ns "[]"] unfolding describing.keeps_def by blast
  show "describes_only s (snd (handleShow cl typ s))"
  proof (cases "c_describe s")
    case True
    then show ?thesis using r by (simp add: handleShow_def action_simps describing.frame_refl)
  qed (simp add: describes_only_def)
qed

lemma describing_handleSelect: "describing.keeps (handleSelect cl sdk sp tbl s)"
proof -
  have "describing.keeps (select_collection cl sdk sp p s)" for p
    unfolding select_collection_def
    by (intro describing.keeps_intros describing_guard describing_basic)
  then show ?thesis
    unfolding handleSelect_def
    by (intro describing.keeps_withState_all describing.keeps_option describing.keeps_andThen describing.keeps_lift)
       (auto intro!: describing_basic split: prod.split)
qed

lemma describing_handleSQL: "describing.keeps (handleSQL cl sdk sp tbl sql)"
proof -
  have "describing.keeps (withState (\<lambda>s. if c_describe s \<and> \<not> describable stmt then writeOK None
      else run_statement cl sdk sp tbl stmt))" for stmt
  proof (cases "describable stmt")
    case True
    then show ?thesis
      by (cases stmt)
         (auto simp: describable_def run_statement_def
           intro!: describing.keeps_withState_all describing_handleShow describing_handleSelect)
  next
    case False
    then show ?thesis
      using describing_guard [of "writeOK None" "\<lambda>_. False" "\<lambda>_. run_statement cl sdk sp tbl stmt"]
      by (simp add: describing_basic)
  qed
  then show ?thesis unfolding handleSQL_def by (intro describing.keeps_andThen describing.keeps_lift)
qed

lemma describing_handleQuery: "describing.keeps (handleQuery cl sdk sp tbl sql)"
proof -
  have "describing.keeps (handleMilvusCommand cl sdk hq q)" for hq q
    unfolding handleMilvusCommand_def Let_def
    by (intro describing.keeps_intros describing_unless describing_basic describing_run_command
        describing_commands) 
  then have "describing.keeps (handleQuery_step cl sdk sp tbl hq q)" for hq q
    unfolding handleQuery_step_def Let_def by (intro describing.keeps_intros describing_handleSQL)
  then show ?thesis by (simp add: handleQuery_def eval_nat_numeral)
qed

end
