(* ===== verification/SessionProps.thy ===== *)
theory SessionProps
  imports Frames Demo
begin

text \<open>
  What a transport may rely on when it runs or describes a statement, and why the mutual recursion
  of \<open>handleQuery\<close> and \<open>handleMilvusCommand\<close> ends.
\<close>

section \<open>The rewritten statement is not rewritten again\<close>

definition starts_R :: "string \<Rightarrow> bool" where
  "starts_R s \<longleftrightarrow> (\<exists>t. s = CHR ''R'' # t)"

lemma trim_seqs_removed: "\<exists>p. s = p @ trim_seqs ps s \<and> set p \<subseteq> \<Union> (set ` set ps)"
proof (induction ps s rule: trim_seqs.induct)
  case (1 ps s)
  show ?case
  proof (cases "[] \<in> set ps \<or> strip_any ps s = None")
    case True
    then show ?thesis by (auto simp: trim_seqs.simps [of ps s])
  next
    case False
    then obtain r where r: "strip_any ps s = Some r" by auto
    then obtain q where q: "q \<in> set ps" "s = q @ r" using strip_any_Some by blast
    obtain p where "r = p @ trim_seqs ps r" "set p \<subseteq> \<Union> (set ` set ps)" using 1 False r by auto
    moreover have "trim_seqs ps s = trim_seqs ps r" using False r by (subst trim_seqs.simps) simp
    moreover have "set q \<subseteq> \<Union> (set ` set ps)" using q(1) by auto
    ultimately show ?thesis using q(2) by (intro exI [of _ "q @ p"]) auto
  qed
qed

lemma space_bytes: "CHR ''R'' \<notin> \<Union> (set ` set space_seqs)"
  by (simp add: space_seqs_def)

lemma trim_space_R: "starts_R s \<Longrightarrow> starts_R (trim_space s)"
proof -
  assume "starts_R s"
  then obtain u where u: "s = CHR ''R'' # u" by (auto simp: starts_R_def)
  have "strip_any space_seqs s = None" by (simp add: u space_seqs_def)
  then have l: "trim_left s = s" by (simp add: trim_left_def trim_seqs_fixpoint)
  obtain p where p: "rev s = p @ trim_seqs (map rev space_seqs) (rev s)"
    "set p \<subseteq> \<Union> (set ` set (map rev space_seqs))" using trim_seqs_removed by blast
  let ?t = "trim_seqs (map rev space_seqs) (rev s)"
  have s: "s = rev ?t @ rev p" using p(1) by (metis rev_append rev_rev_ident)
  have "CHR ''R'' \<notin> set p" using p(2) space_bytes by auto
  then have "rev ?t \<noteq> []" using s u by (metis append_Nil list.set_intros(1) set_rev)
  with s u show ?thesis unfolding trim_space_def trim_right_def l starts_R_def
    by (metis append_eq_Cons_conv)
qed

lemma trim_suffix_R:
  assumes "starts_R s"
  shows "starts_R (trim_suffix s '';'')"
proof -
  have "s = trim_suffix s '';'' \<or> s = trim_suffix s '';'' @ '';''" using trim_suffix_cases [of s "'';''"] by auto
  with assms show ?thesis by (cases "trim_suffix s '';''") (auto simp: starts_R_def)
qed

lemma trim_command_R: "starts_R s \<Longrightarrow> starts_R (trim_command s)"
  by (simp add: trim_command_def trim_space_R trim_suffix_R)

lemma upsertRE_first: "\<exists>p. upsertRE = Rune [(85, 85), (117, 117)] # p"
  by (simp add: upsertRE_def lit_def fold_set_def ascii_upper_def ascii_lower_def is_lower_def is_upper_def)

lemma upsert_R:
  assumes "starts_R s"
  shows "\<not> match_string upsertRE s"
proof -
  obtain t where t: "s = CHR ''R'' # t" using assms by (auto simp: starts_R_def)
  obtain p where p: "upsertRE = Rune [(85, 85), (117, 117)] # p" using upsertRE_first by blast
  show ?thesis by (simp add: match_string_def find_submatch_def p t next_rune_def in_set_def)
qed

lemma replaced_R: "match_string p s \<Longrightarrow> starts_R (replace_match p s ''REPLACE INTO'')"
  by (auto simp: match_string_def find_submatch_def replace_match_def starts_R_def split: option.splits)

lemma step_R: "starts_R s \<Longrightarrow> handleQuery_step cl sdk sp tbl f s = handleQuery_step cl sdk sp tbl g s"
  by (simp add: handleQuery_step_def handleMilvusCommand_def Let_def upsert_R trim_command_R trim_space_R)

lemma step_cong:
  assumes "\<And>q. starts_R q \<Longrightarrow> f q = g q"
  shows "handleQuery_step cl sdk sp tbl f s = handleQuery_step cl sdk sp tbl g s"
  using assms [OF replaced_R] by (simp add: handleQuery_step_def handleMilvusCommand_def Let_def)

section \<open>Who changes the database\<close>

text \<open>
  \<open>USE\<close> switches exactly when the client switched: on success the session is on the new
  database, on an error it stays, and the error is reported as an unknown database.
\<close>

lemma use_switches_on_success:
  "handleUseDB cl db s =
     (case cl_usingDatabase cl (c_ctx s) db (c_world s) of
        (r, w) \<Rightarrow>
          (let t = s\<lparr>c_world := w, c_calls := c_calls s @ [(c_ctx s, UsingDatabase db)]\<rparr> in
           case r of
             Inl e \<Rightarrow> (Inl (MySQLError ER_DATABASE_NAME e), t)
           | Inr _ \<Rightarrow> (Inr (), t\<lparr>c_db := db, c_result := Some empty_result\<rparr>)))"
  by (simp add: handleUseDB_def action_simps call_def writeOK_def split: prod.split sum.split)

text \<open>The database stays, or the one call that was made switched to it.\<close>

definition db_switched :: "('w, 'c) client \<Rightarrow> ('w, 'c) conn \<Rightarrow> ('w, 'c) conn \<Rightarrow> bool" where
  "db_switched cl s t \<longleftrightarrow> c_db t = c_db s \<or>
     c_calls t = c_calls s @ [(c_ctx s, UsingDatabase (c_db t))] \<and>
     cl_usingDatabase cl (c_ctx s) (c_db t) (c_world s) = (Inr (), c_world t)"

lemma switched_same: "same_db s t \<Longrightarrow> db_switched cl s t"
  by (simp add: same_db_def db_switched_def)

lemma switched_use: "handleUseDB cl db s = (r, t) \<Longrightarrow> db_switched cl s t"
  by (auto simp: use_switches_on_success db_switched_def Let_def split: prod.splits sum.splits)

lemma switched_SQL:
  assumes "handleSQL cl sdk sp tbl q s = (r, t)"
  shows "db_switched cl s t"
proof -
  have st: "db_switched cl s t" if "run_statement cl sdk sp tbl stmt s = (r, t)" for stmt
  proof (cases stmt)
    case (UseStmt db)
    with that show ?thesis by (simp add: run_statement_def switched_use)
  next
    case OtherStmt
    with that show ?thesis by (auto simp: run_statement_def action_simps db_switched_def)
  qed (use that in \<open>auto simp: run_statement_def action_simps intro!: switched_same
      dest: same.keepsD [OF same.keeps_handleShow] same.keepsD [OF same.keeps_handleDBDDL]
        same.keepsD [OF same.keeps_handleDDL] same.keepsD [OF same.keeps_handleSelect]
        same.keepsD [OF same.keeps_handleInsert] same.keepsD [OF same.keeps_handleDelete]\<close>)
  have "db_switched cl s t" if "writeOK None s = (r, t)"
    using same.keepsD [OF same.keeps_writeOK_None that] by (rule switched_same)
  moreover have "db_switched cl s s" by (simp add: db_switched_def)
  ultimately show ?thesis
    using assms st by (auto simp: handleSQL_def action_simps split: sum.splits prod.splits if_splits)
qed

lemma run_command_False: "run_command cs q s = (Inr False, t) \<Longrightarrow> t = s"
  by (induction cs q rule: run_command.induct) (auto simp: action_simps split: option.splits sum.splits prod.splits)

lemma switched_command:
  assumes "\<And>p s r t. hq p s = (r, t) \<Longrightarrow> db_switched cl s t" and "handleMilvusCommand cl sdk hq q s = (r, t)"
  shows "db_switched cl s t \<and> (r = Inr False \<longrightarrow> t = s)"
proof (cases "match_string upsertRE (trim_command q)")
  case True
  then have "(\<exists>r1. hq (replace_match upsertRE (trim_command q) ''REPLACE INTO'') s = (r1, t) \<or> writeOK None s = (r1, t)) \<and>
      r \<noteq> Inr False"
    using assms(2) by (auto simp: handleMilvusCommand_def unless_describing_def action_simps Let_def
        split: sum.splits prod.splits if_splits)
  moreover have "db_switched cl s t" if "writeOK None s = (r1, t)" for r1
    using same.keepsD [OF same.keeps_writeOK_None that] by (rule switched_same)
  ultimately show ?thesis using assms(1) by blast
next
  case False
  then have c: "run_command (commands cl sdk) (trim_command q) s = (r, t)"
    using assms(2) by (simp add: handleMilvusCommand_def Let_def)
  have "same_db s t" by (rule same.keepsD [OF same.keeps_run_command [OF same.keeps_commands] c])
  then show ?thesis using switched_same run_command_False c by blast
qed

lemma switched_step:
  assumes "\<And>p s r t. hq p s = (r, t) \<Longrightarrow> db_switched cl s t" and "handleQuery_step cl sdk sp tbl hq q s = (r, t)"
  shows "db_switched cl s t"
proof (cases "trim_space q = ''''")
  case True
  with assms(2) show ?thesis by (simp add: handleQuery_step_def action_simps db_switched_def)
next
  case False
  obtain r1 s1 where m: "handleMilvusCommand cl sdk hq (trim_space q) s = (r1, s1)"
    by (cases "handleMilvusCommand cl sdk hq (trim_space q) s")
  note c = switched_command [OF assms(1) m]
  show ?thesis
  proof (cases "r1 = Inr False")
    case True
    with c m False assms(2) have "handleSQL cl sdk sp tbl (trim_space q) s = (r, t)"
      by (simp add: handleQuery_step_def action_simps Let_def)
    then show ?thesis by (rule switched_SQL)
  next
    case r1: False
    with m False assms(2) have "t = s1"
      by (auto simp: handleQuery_step_def action_simps Let_def split: sum.splits if_splits)
    with c show ?thesis by simp
  qed
qed

lemma switched_handleQuery:
  assumes "handleQuery cl sdk sp tbl q s = (r, t)"
  shows "db_switched cl s t"
proof -
  have "db_switched cl s t" if "handleQuery_fuel cl sdk sp tbl n q s = (r, t)" for n q s r t
    using that
  proof (induction n arbitrary: q s r t)
    case (Suc n)
    show ?case by (rule switched_step [OF Suc.IH Suc.prems [unfolded handleQuery_fuel.simps]])
  qed (simp add: action_simps db_switched_def)
  with assms show ?thesis by (simp add: handleQuery_def)
qed

section \<open>Sessions\<close>

lemma Execute_frame:
  assumes "Execute hq ctx q s = (r, s')"
  obtains r1 s1 where "hq q (s\<lparr>c_ctx := ctx, c_result := None\<rparr>) = (r1, s1)"
    and "s' = s1 \<or> (\<exists>x. s' = s1\<lparr>c_result := Some x\<rparr>)"
    and "\<And>x. r = Inr x \<Longrightarrow> x = (case c_result s1 of None \<Rightarrow> empty_result | Some y \<Rightarrow> y)"
  using assms
  by (cases "hq q (s\<lparr>c_ctx := ctx, c_result := None\<rparr>)")
     (auto simp: Execute_def action_simps Let_def split: sum.splits)

lemma extends_ctx_update [simp]:
  "own_calls s (s'\<lparr>c_result := x\<rparr>) = own_calls s s'"
  "describes_only s (s'\<lparr>c_result := x\<rparr>) = describes_only s s'"
  by (simp_all add: own_calls_def describes_only_def)

lemma Describe_frame:
  assumes "Describe (handleQuery cl sdk sp tbl) ctx q s = (r, s')"
  shows "c_db s' = c_db s \<and> \<not> c_describe s' \<and> extends is_schema_call (c_calls s) (c_calls s')"
proof -
  obtain t where t: "Execute (handleQuery cl sdk sp tbl) ctx q (s\<lparr>c_describe := True\<rparr>) = (r, t)"
    "s' = t\<lparr>c_describe := False\<rparr>"
    using assms by (auto simp: Describe_def split: prod.splits)
  obtain r1 s1 where 1: "handleQuery cl sdk sp tbl q
      (s\<lparr>c_describe := True, c_ctx := ctx, c_result := None\<rparr>) = (r1, s1)"
    "t = s1 \<or> (\<exists>x. t = s1\<lparr>c_result := Some x\<rparr>)"
    using t(1) by (rule Execute_frame) simp
  have "describes_only (s\<lparr>c_describe := True, c_ctx := ctx, c_result := None\<rparr>) s1"
    by (rule describing.keepsD [OF describing_handleQuery 1(1)])
  then have "c_db s1 = c_db s" "extends is_schema_call (c_calls s) (c_calls s1)"
    by (simp_all add: describes_only_def)
  with 1(2) t(2) show ?thesis by auto
qed

lemma Execute_calls:
  assumes "Execute (handleQuery cl sdk sp tbl) ctx q s = (r, s')"
  shows "c_ctx s' = ctx \<and> c_describe s' = c_describe s \<and>
    extends (\<lambda>x. fst x = ctx) (c_calls s) (c_calls s')"
proof -
  obtain r1 s1 where 1: "handleQuery cl sdk sp tbl q (s\<lparr>c_ctx := ctx, c_result := None\<rparr>) = (r1, s1)"
    "s' = s1 \<or> (\<exists>x. s' = s1\<lparr>c_result := Some x\<rparr>)"
    using assms by (rule Execute_frame) simp
  have "own_calls (s\<lparr>c_ctx := ctx, c_result := None\<rparr>) s1"
    by (rule own_ctx.keepsD [OF own_ctx.keeps_statement 1(1)])
  with 1(2) show ?thesis by (auto simp: own_calls_def)
qed

lemma Execute_wf_result:
  assumes "Execute (handleQuery cl sdk sp tbl) ctx q s = (Inr x, s')"
  shows "wf_result x"
proof -
  obtain r1 s1 where 1: "handleQuery cl sdk sp tbl q (s\<lparr>c_ctx := ctx, c_result := None\<rparr>) = (r1, s1)"
    "x = (case c_result s1 of None \<Rightarrow> empty_result | Some y \<Rightarrow> y)"
    using assms by (rule Execute_frame) simp
  have "keeps_wf (s\<lparr>c_ctx := ctx, c_result := None\<rparr>) s1"
    by (rule result_wf.keepsD [OF result_wf.keeps_statement 1(1)])
  then have "session_wf s1" by (simp add: keeps_wf_def)
  with 1(2) show ?thesis by (simp add: session_wf_def split: option.splits)
qed

section \<open>Properties\<close>

text \<open>
  C9: Describing a statement never executes it.  Whatever the statement is, the only remote calls
  made are lookups of collection schemas, the session keeps its database, and the describe mode is
  off again afterwards, also after an error.
\<close>

theorem describe_never_executes:
  assumes "Describe (handleQuery cl sdk sp tbl) ctx q s = (r, s')"
  shows "c_db s' = c_db s \<and> \<not> c_describe s' \<and> extends is_schema_call (c_calls s) (c_calls s')"
  using assms by (rule Describe_frame)

text \<open>
  C10: Every result set of a successful statement is rectangular: each row has as many cells as the
  result has fields.  The adapters index the fields by the position of the cell.
\<close>

theorem execute_result_rectangular:
  assumes "Execute (handleQuery cl sdk sp tbl) ctx q s = (Inr x, s')" and "r_resultset x = Some rs"
    and "row \<in> set (rs_values rs)"
  shows "length row = length (rs_fields rs)"
  using Execute_wf_result [OF assms(1)] assms(2,3) by (simp add: wf_result_def wf_resultset_def)

text \<open>
  C11: The session's database follows the client.  After any statement the database is the old one, or
  the statement made exactly one call, which switched the client to the new database and succeeded.
  USE answers as its call does: when the client switched, the session is on the new database; when
  it refused, the session stays where it was and the error is reported.
\<close>

theorem database_follows_client:
  assumes "handleQuery cl sdk sp tbl q s = (r, s')"
  shows "(c_db s' = c_db s \<or>
      c_calls s' = c_calls s @ [(c_ctx s, UsingDatabase (c_db s'))] \<and>
      cl_usingDatabase cl (c_ctx s) (c_db s') (c_world s) = (Inr (), c_world s')) \<and>
    (case (cl_usingDatabase cl (c_ctx s) db (c_world s), handleUseDB cl db s) of
       ((answer, w), (res, t)) \<Rightarrow>
         c_world t = w \<and> c_calls t = c_calls s @ [(c_ctx s, UsingDatabase db)] \<and>
         (case answer of
            Inl e \<Rightarrow> res = Inl (MySQLError ER_DATABASE_NAME e) \<and> c_db t = c_db s
          | Inr _ \<Rightarrow> res = Inr () \<and> c_db t = db))"
  using switched_handleQuery [OF assms]
  by (simp add: db_switched_def use_switches_on_success Let_def split: prod.split sum.split)

text \<open>
  C12: The recursion through UPSERT ends after one rewriting.  Whatever function stands for the nested
  calls, after two unfoldings the answer is that of \<open>handleQuery\<close>, so no statement makes a third
  call; and \<open>handleQuery\<close> is the only function that satisfies the recursion equation, which a
  recursion that runs on would not determine.
\<close>

theorem handleQuery_recursion_ends:
  "handleQuery_step cl sdk sp tbl (handleQuery_step cl sdk sp tbl self) = handleQuery cl sdk sp tbl \<and>
   (self = handleQuery_step cl sdk sp tbl self \<longleftrightarrow> self = handleQuery cl sdk sp tbl)"
proof -
  have two: "handleQuery_step cl sdk sp tbl (handleQuery_step cl sdk sp tbl f) = handleQuery cl sdk sp tbl" for f
  proof
    fix q
    have "handleQuery_step cl sdk sp tbl (handleQuery_step cl sdk sp tbl f) q
        = handleQuery_step cl sdk sp tbl (handleQuery_fuel cl sdk sp tbl 1) q"
      by (rule step_cong) (simp add: step_R [of _ cl sdk sp tbl f])
    then show "handleQuery_step cl sdk sp tbl (handleQuery_step cl sdk sp tbl f) q = handleQuery cl sdk sp tbl q"
      by (simp add: handleQuery_def eval_nat_numeral)
  qed
  from two [of "handleQuery_step cl sdk sp tbl self"] two [of self]
  have "handleQuery_step cl sdk sp tbl (handleQuery cl sdk sp tbl) = handleQuery cl sdk sp tbl" by simp
  with two [of self] show ?thesis by metis
qed

section \<open>Instances\<close>

theorem describe_never_executes_witness:
  "c_calls (snd (Describe demo_query Background ''DROP INDEX i ON t'' demo_session)) = []
    \<and> extends is_schema_call [] (c_calls (snd (Describe demo_query Background ''SELECT id, name FROM t'' demo_session)))"
proof -
  obtain r s' where d: "Describe demo_query Background ''SELECT id, name FROM t'' demo_session = (r, s')"
    by (cases "Describe demo_query Background ''SELECT id, name FROM t'' demo_session")
  have "c_calls (snd (Describe demo_query Background ''DROP INDEX i ON t'' demo_session)) = []" by code_simp
  with describe_never_executes [OF d [unfolded demo_query_def]] d show ?thesis
    by (simp add: demo_session_def NewSession_def)
qed

lemma demo_select_rows:
  "(case fst (Execute demo_query Background ''SELECT id, name FROM t'' demo_session) of
      Inl _ \<Rightarrow> False
    | Inr x \<Rightarrow> (case r_resultset x of None \<Rightarrow> False
                | Some rs \<Rightarrow> rs_values rs = [[GInt64 7, GString ''a''], [GInt64 8, GString ''b'']]))"
  by code_simp

theorem execute_result_rectangular_witness:
  "\<exists>x rs. fst (Execute demo_query Background ''SELECT id, name FROM t'' demo_session) = Inr x \<and>
     r_resultset x = Some rs \<and> length (rs_fields rs) = 2"
proof -
  obtain x rs where x: "fst (Execute demo_query Background ''SELECT id, name FROM t'' demo_session) = Inr x"
    "r_resultset x = Some rs" "rs_values rs = [[GInt64 7, GString ''a''], [GInt64 8, GString ''b'']]"
    using demo_select_rows by (auto split: sum.splits option.splits)
  obtain s' where e: "Execute demo_query Background ''SELECT id, name FROM t'' demo_session = (Inr x, s')"
    using x(1) by (metis prod.collapse)
  have "[GInt64 7, GString ''a''] \<in> set (rs_values rs)" by (simp add: x(3))
  from execute_result_rectangular [OF e [unfolded demo_query_def] x(2) this] x show ?thesis by auto
qed

theorem database_follows_client_witness:
  "c_db (snd (demo_query ''USE db2'' demo_session)) = ''db2'' \<and>
   UsingDatabase ''db2'' \<in> snd ` set (c_calls (snd (demo_query ''USE db2'' demo_session)))"
proof -
  obtain r s' where q: "demo_query ''USE db2'' demo_session = (r, s')"
    by (cases "demo_query ''USE db2'' demo_session")
  have db: "c_db (snd (demo_query ''USE db2'' demo_session)) = ''db2''" by code_simp
  have s: "c_calls demo_session = []" "c_db demo_session = ''default''" by (simp_all add: demo_session_def NewSession_def)
  have d: "c_db s' = ''db2''" using db q by simp
  have "c_calls s' = [(c_ctx demo_session, UsingDatabase ''db2'')]"
    using database_follows_client [OF q [unfolded demo_query_def]] by (simp add: s d)
  with d q show ?thesis by simp
qed

end
