(* ===== verification/CommandProps.thy ===== *)
theory CommandProps
  imports SessionProps
begin

text \<open>
  The commands that are recognised by pattern (\<open>pkg/commands.go\<close>): what LOAD, RELEASE and FLUSH do for
  every table name, and what the parameters of a created index can be.
\<close>

section \<open>Matching identifiers\<close>

definition ident_name :: "string \<Rightarrow> bool" where
  "ident_name n \<longleftrightarrow> n \<noteq> [] \<and> is_ident_start (hd n) \<and> list_all is_word n"

lemma next_rune_ascii: "byte c < 128 \<Longrightarrow> next_rune (c # s) = Some (byte c) \<and> decode_rune (c # s) = (byte c, 1)"
  by (simp add: next_rune_def)

lemma word_ascii: "is_word c \<Longrightarrow> byte c < 128"
  by (auto simp: char_class_defs)

lemma word_in_set: "is_word c \<Longrightarrow> in_set (byte c) ident_set"
  by (auto simp: char_class_defs in_set_def ident_set_def ident_start_set_def)

lemma start_in_set: "is_ident_start c \<Longrightarrow> in_set (byte c) ident_start_set"
  by (auto simp: char_class_defs in_set_def ident_start_set_def)

text \<open>The greedy star runs to the end of the text when what follows it matches there.\<close>

lemma match_star_all:
  assumes "list_all is_word n" and "\<And>prev. match p prev [] opens caps = Some m"
  shows "match (Star ident_set # p) prev n opens caps = Some m"
  using assms(1)
proof (induction n arbitrary: prev)
  case Nil
  then show ?case using assms(2) by (simp add: next_rune_def)
next
  case (Cons c n)
  then have c: "byte c < 128" "in_set (byte c) ident_set" by (simp_all add: word_ascii word_in_set)
  show ?case
    using Cons c(2) next_rune_ascii [OF c(1), of n] by (simp del: decode_rune.simps)
qed

lemma match_ident_end:
  assumes "ident_name n"
  shows "match (ident k @ [End]) prev n opens caps = Some ((k, n) # caps, [])"
proof -
  obtain c r where n: "n = c # r" "is_ident_start c" "is_word c" "list_all is_word r"
    using assms by (cases n) (auto simp: ident_name_def)
  have "match (Star ident_set # [Close k, End]) pr r ((k, n) # opens) caps = Some ((k, n) # caps, [])" for pr
    by (rule match_star_all [OF n(4)]) simp
  then show ?thesis
    using next_rune_ascii [OF word_ascii [OF n(3)], of r] start_in_set [OF n(2)]
    by (simp add: ident_def grp_def ident_chars_def n(1) del: decode_rune.simps)
qed

section \<open>Trimming\<close>

lemma strip_any_other: "\<forall>p \<in> set ps. p \<noteq> [] \<and> hd p \<noteq> c \<Longrightarrow> strip_any ps (c # s) = None"
  by (induction ps) (auto simp: neq_Nil_conv)

lemma space_edges:
  "\<forall>p \<in> set space_seqs. p \<noteq> [] \<and> (byte (hd p) < 48 \<or> 122 < byte (hd p))"
  "\<forall>p \<in> set (map rev space_seqs). p \<noteq> [] \<and> (byte (hd p) < 48 \<or> 122 < byte (hd p))"
  by (simp_all add: space_seqs_def)

lemma word_range: "is_word c \<Longrightarrow> 48 \<le> byte c \<and> byte c \<le> 122"
  by (auto simp: char_class_defs)

lemma trim_space_word:
  assumes "is_word c" and "is_word d" and "c # s = t @ [d]"
  shows "trim_space (c # s) = c # s"
proof -
  have "strip_any space_seqs (c # s) = None"
    by (rule strip_any_other) (use space_edges(1) word_range [OF assms(1)] in fastforce)
  then have l: "trim_left (c # s) = c # s" by (simp add: trim_left_def trim_seqs_fixpoint)
  have "strip_any (map rev space_seqs) (rev (c # s)) = None"
    unfolding assms(3) rev_append rev.simps append.simps
    by (rule strip_any_other) (use space_edges(2) word_range [OF assms(2)] in fastforce)
  then show ?thesis by (simp only: trim_space_def trim_right_def l trim_seqs_fixpoint rev_rev_ident)
qed

lemma trim_command_word:
  assumes "is_word c" and "is_word d" and "c # s = t @ [d]"
  shows "trim_command (c # s) = c # s"
proof -
  have "d \<noteq> CHR '';''" using assms(2) by (auto simp: char_class_defs)
  then have "trim_suffix (t @ [d]) '';'' = t @ [d]" by (simp add: trim_suffix_def)
  then show ?thesis
    by (simp add: trim_command_def trim_space_word [OF assms] assms(3) trim_space_word [OF assms, unfolded assms(3)])
qed

section \<open>LOAD, RELEASE and FLUSH\<close>

definition lifecycle_verbs :: "string list" where
  "lifecycle_verbs = [''LOAD'', ''RELEASE'', ''FLUSH'']"

definition lifecycle_call :: "('w, 'c) client \<Rightarrow> string \<Rightarrow> string \<Rightarrow> ('w, 'c, unit) session_op" where
  "lifecycle_call cl verb n =
     (if verb = ''LOAD'' then call (LoadCollection n) (\<lambda>ctx. cl_loadCollection cl ctx n)
      else if verb = ''RELEASE'' then call (ReleaseCollection n) (\<lambda>ctx. cl_releaseCollection cl ctx n)
      else call (FlushCollection n) (\<lambda>ctx. cl_flush cl ctx n))"

lemma lit_simps: "lit [] = []" "lit (c # w) = Rune (fold_set c) # lit w"
  by (simp_all add: lit_def)

lemma fold_set_self: "in_set (byte c) (fold_set c)"
  by (auto simp: fold_set_def in_set_def ascii_upper_def ascii_lower_def is_lower_def is_upper_def Let_def)

lemma match_rune_self:
  "byte c < 128 \<Longrightarrow> match (Rune (fold_set c) # p) prev (c # s) opens caps = match p (Some (byte c)) s opens caps"
  using next_rune_ascii [of c s] fold_set_self [of c] by (simp del: decode_rune.simps)

lemma match_rune_other:
  "byte d < 128 \<Longrightarrow> \<not> in_set (byte d) (fold_set c) \<Longrightarrow> match (Rune (fold_set c) # p) prev (d # s) opens caps = None"
  using next_rune_ascii [of d s] by (simp del: decode_rune.simps)

lemma first_letters:
  "\<not> in_set 82 (fold_set (CHR ''L''))" "\<not> in_set 70 (fold_set (CHR ''L''))"
  "\<not> in_set 70 (fold_set (CHR ''R''))" "\<not> in_set 67 (fold_set (CHR ''T''))"
  "\<not> in_set 76 (fold_set (CHR ''U''))" "\<not> in_set 82 (fold_set (CHR ''U''))"
  "\<not> in_set 70 (fold_set (CHR ''U''))"
  by code_simp+

text \<open>The part after the verb, for either spelling of the kind.\<close>

lemma match_kind:
  assumes "ident_name n" and "kind \<in> set [''TABLE'', ''COLLECTION'']"
  shows "match (lit '' '' @ [Alt [lit ''TABLE'', lit ''COLLECTION'']] @ lit '' '' @ ident 2 @ [End]) prev
      ('' '' @ kind @ '' '' @ n) opens caps = Some ((2, n) # caps, [])"
  using assms(2) match_ident_end [OF assms(1)]
  by (auto simp: lit_simps match_rune_self match_rune_other first_letters simp del: match.simps(2))

lemma match_lifecycle:
  assumes "ident_name n" and "verb \<in> set lifecycle_verbs" and "kind \<in> set [''TABLE'', ''COLLECTION'']"
  shows "match lifecycleRE None (verb @ '' '' @ kind @ '' '' @ n) [] [] = Some ([(2, n), (1, verb)], [])"
proof -
  let ?rest = "'' '' @ kind @ '' '' @ n"
  let ?p = "Close 1 # lit '' '' @ [Alt [lit ''TABLE'', lit ''COLLECTION'']] @ lit '' '' @ ident 2 @ [End]"
  have close: "match ?p pr ?rest [(1, verb @ ?rest)] [] = Some ([(2, n), (1, verb)], [])" for pr
    using match_kind [OF assms(1,3)] by simp
  have "match (Alt [lit ''LOAD'', lit ''RELEASE'', lit ''FLUSH''] # ?p) None (verb @ ?rest) [(1, verb @ ?rest)] []
      = Some ([(2, n), (1, verb)], [])"
    using assms(2) close unfolding lifecycle_verbs_def
    by (auto simp: lit_simps match_rune_self match_rune_other first_letters simp del: match.simps(2) match.simps(7))
  then show ?thesis by (simp add: lifecycleRE_def grp_def)
qed

lemma lifecycle_verb_facts:
  assumes "verb \<in> set lifecycle_verbs"
  shows "to_upper verb = verb" and "\<exists>c v. verb = c # v \<and> is_word c \<and> c \<in> set ''LRF''"
proof -
  have "list_all (\<lambda>v. to_upper v = v \<and> v \<noteq> [] \<and> is_word (hd v) \<and> hd v \<in> set ''LRF'') lifecycle_verbs"
    by code_simp
  then have v: "to_upper verb = verb" "verb \<noteq> []" "is_word (hd verb)" "hd verb \<in> set ''LRF''"
    using assms by (auto simp: list_all_iff)
  then show "to_upper verb = verb" by blast
  from v show "\<exists>c v. verb = c # v \<and> is_word c \<and> c \<in> set ''LRF''" by (cases verb) auto
qed

lemma cmd_lifecycle_groups:
  assumes "verb \<in> set lifecycle_verbs"
  shows "cmd_lifecycle cl [(2, n), (1, verb)] = unless_describing (writeOK None) (then_OK (lifecycle_call cl verb n))"
proof -
  have g: "group [(2, n), (1, verb)] 1 = verb" "group [(2, n), (1, verb)] 2 = n" by (simp_all add: group_def)
  have "verb = ''LOAD'' \<or> verb = ''RELEASE'' \<or> verb = ''FLUSH''" using assms by (simp add: lifecycle_verbs_def)
  then show ?thesis
    unfolding cmd_lifecycle_def g lifecycle_verb_facts(1) [OF assms] lifecycle_call_def Let_def by auto
qed

text \<open>
  C33: LOAD, RELEASE and FLUSH act on exactly the named collection.  For every identifier and both spellings
  of the kind, the statement makes the one call of its verb for that name and no other, reports its
  error or an empty result, and while describing it makes no call at all.
\<close>

theorem lifecycle_command:
  assumes "ident_name n" and "verb \<in> set lifecycle_verbs" and "kind \<in> set [''TABLE'', ''COLLECTION'']"
  shows "handleQuery cl sdk sp tbl (verb @ '' '' @ kind @ '' '' @ n) s =
    (if c_describe s then (Inr (), s\<lparr>c_result := Some empty_result\<rparr>)
     else then_OK (lifecycle_call cl verb n) s)"
proof -
  let ?q = "verb @ '' '' @ kind @ '' '' @ n"
  obtain c v where v: "verb = c # v" "is_word c" "c \<in> set ''LRF''"
    using lifecycle_verb_facts(2) [OF assms(2)] by blast
  have last: "is_word (last n)" "n = butlast n @ [last n]"
    using assms(1) by (auto simp: ident_name_def list_all_iff)
  have q: "c # (v @ '' '' @ kind @ '' '' @ n) = (verb @ '' '' @ kind @ '' '' @ butlast n) @ [last n]"
    using last(2) v(1) by simp
  have trim: "trim_space ?q = ?q" "trim_command ?q = ?q"
    using trim_space_word [OF v(2) last(1) q] trim_command_word [OF v(2) last(1) q] v(1) by simp_all
  have "\<not> match_string upsertRE ?q"
    using v(1,3) by (auto simp: match_string_def find_submatch_def upsertRE_def lit_simps match_rune_other first_letters
        simp del: match.simps(2))
  moreover have "find_submatch lifecycleRE ?q = Some [(2, n), (1, verb)]"
    using match_lifecycle [OF assms] by (simp add: find_submatch_def)
  ultimately have h: "handleMilvusCommand cl sdk f ?q
      = andThen (unless_describing (writeOK None) (then_OK (lifecycle_call cl verb n))) (\<lambda>_. ret True)" for f
    using trim by (simp add: handleMilvusCommand_def commands_def Let_def cmd_lifecycle_groups [OF assms(2), simplified])
  moreover have "?q \<noteq> []" using v(1) by simp
  moreover note trim(1)
  moreover define q where "q = ?q"
  ultimately have q: "handleMilvusCommand cl sdk f q
      = andThen (unless_describing (writeOK None) (then_OK (lifecycle_call cl verb n))) (\<lambda>_. ret True)"
    "q \<noteq> []" "trim_space q = q" for f
    by simp_all
  obtain r t where "then_OK (lifecycle_call cl verb n) s = (r, t)" by (cases "then_OK (lifecycle_call cl verb n) s")
  then show ?thesis
    unfolding q_def [symmetric] using q(2,3)
    by (cases r) (simp_all add: handleQuery_def eval_nat_numeral handleQuery_step_def q(1) unless_describing_def
        action_simps writeOK_def Let_def)
qed

section \<open>Index parameters\<close>

definition index_keys :: "string list" where
  "index_keys = [''index_type'', ''metric_type'', ''M'', ''efConstruction'', ''nlist'']"

text \<open>What the loop over the options keeps: distinct known keys, and the type of the index.\<close>

definition params_known :: "string \<Rightarrow> (string \<times> string) list \<Rightarrow> bool" where
  "params_known kind ps \<longleftrightarrow> distinct (map fst ps) \<and> fst ` set ps \<subseteq> set index_keys \<and> map_of ps ''index_type'' = Some kind"

lemma map_of_put: "map_of (map_put m k v) x = (if x = k then Some v else map_of m x)"
  by (induction m) (auto simp: map_put_def)

lemma params_known_put:
  "params_known kind ps \<Longrightarrow> k \<in> set index_keys \<Longrightarrow> k \<noteq> ''index_type'' \<Longrightarrow> params_known kind (map_put ps k v)"
  by (auto simp: params_known_def map_of_put map_put_def distinct_map_filter)

lemma params_known_default:
  "params_known kind ps \<Longrightarrow> k \<in> set index_keys \<Longrightarrow> k \<noteq> ''index_type'' \<Longrightarrow> params_known kind (map_default ps k v)"
  by (simp add: map_default_def params_known_put)









section \<open>Instances\<close>

theorem lifecycle_command_witness:
  "c_calls (snd (demo_query ''RELEASE TABLE t_1'' demo_session)) = [(Background, ReleaseCollection ''t_1'')]"
proof -
  have "ident_name ''t_1''" by code_simp
  from lifecycle_command [OF this, of "''RELEASE''" "''TABLE''" demo_client demo_sdk demo_parser "\<lambda>_. False" demo_session]
  show ?thesis
    by (simp add: demo_query_def lifecycle_verbs_def demo_session_def NewSession_def then_OK_def lifecycle_call_def
        action_simps call_def writeOK_def demo_client_def demo_write_def)
qed


end
