(* ===== verification/SelectRows.thy ===== *)
theory SelectRows
  imports SelectProps SessionProps
begin

text \<open>
  What SELECT asks of Milvus (\<open>pkg/select.go\<close>): only reading calls, and requests that are faithful
  to the plan and within the limits of the service.
\<close>

section \<open>Output fields\<close>

lemma output_names_set:
  "set (output_names search seen ns) = {n \<in> set ns. (n \<noteq> ''_distance'' \<or> \<not> search) \<and> n \<notin> set seen}"
  by (induction search seen ns rule: output_names.induct) auto

lemma output_names_distinct: "distinct (output_names search seen ns)"
  by (induction search seen ns rule: output_names.induct) (auto simp: output_names_set)

lemma search_params_ef:
  assumes "(''ef'', v) \<in> set (search_params kind l k)"
  shows "64 \<le> sint v \<and> sint (l + k) \<le> sint v"
  using assms by (auto simp: search_params_def split: if_splits)

section \<open>The calls of a SELECT\<close>

text \<open>
  The requests a plan allows: a search when it has a vector predicate, with the vector of that
  predicate, and a query otherwise.
\<close>

definition search_of_plan :: "'c sdk \<Rightarrow> select_plan \<Rightarrow> search_request \<Rightarrow> bool" where
  "search_of_plan sdk p q \<longleftrightarrow>
     pl_vectorField p \<noteq> '''' \<and>
     (\<exists>f x. pl_vectorExpr p = Some x \<and> f_name f = pl_vectorField p \<and> f_dataType f = FieldTypeFloatVector \<and>
        fieldValue sdk f x = Inr (GFloats (sq_vector q))) \<and>
     sq_collection q = pl_table p \<and> sq_filter q = pl_filter p \<and> sq_vectorField q = pl_vectorField p \<and>
     sq_metric q \<noteq> '''' \<and> sq_topK q = pl_limit p \<and> sq_offset q = pl_offset p \<and>
     0 < sint (sq_topK q) \<and> 0 \<le> sint (sq_offset q) \<and> sint (sq_topK q) + sint (sq_offset q) \<le> 16384 \<and>
     distinct (sq_outputs q) \<and> ''_distance'' \<notin> set (sq_outputs q) \<and>
     (\<forall>v. (''ef'', v) \<in> set (sq_params q) \<longrightarrow> 64 \<le> sint v \<and> sint (sq_topK q) + sint (sq_offset q) \<le> sint v)"

definition query_of_plan :: "select_plan \<Rightarrow> query_request \<Rightarrow> bool" where
  "query_of_plan p q \<longleftrightarrow>
     pl_vectorField p = '''' \<and>
     qr_collection q = pl_table p \<and> qr_filter q = pl_filter p \<and> distinct (qr_outputs q) \<and>
     (case qr_window q of
        None \<Rightarrow> qr_outputs q = [''count(*)'']
      | Some (l, k) \<Rightarrow> l = pl_limit p \<and> k = pl_offset p \<and> 0 < sint l \<and> 0 \<le> sint k \<and> sint l + sint k \<le> 16384)"

definition select_call :: "'c sdk \<Rightarrow> sqlparser \<Rightarrow> (nat \<Rightarrow> bool) \<Rightarrow> select_stmt \<Rightarrow> 'c request \<Rightarrow> bool" where
  "select_call sdk sp tbl s req \<longleftrightarrow> read_only req \<and>
     (case req of
        Search q \<Rightarrow> \<exists>p. planSelect sp tbl s = Inr p \<and> search_of_plan sdk p q
      | Query q \<Rightarrow> \<exists>p. planSelect sp tbl s = Inr p \<and> query_of_plan p q
      | _ \<Rightarrow> True)"

definition calls_in :: "('c request \<Rightarrow> bool) \<Rightarrow> ('w, 'c) conn \<Rightarrow> ('w, 'c) conn \<Rightarrow> bool" where
  "calls_in P s t \<longleftrightarrow> extends (\<lambda>x. P (snd x)) (c_calls s) (c_calls t)"

interpretation calls: action_frame "calls_in P" for P
  by unfold_locales (auto simp: calls_in_def intro: extends_trans)

lemma calls_call: "P req \<Longrightarrow> calls.keeps P (call req f)"
  by (rule calls.keepsI) (simp add: call_def calls_in_def split: prod.split)

lemma calls_result: "calls.keeps P (select_result cs values)" "calls.keeps P (rows names vals)"
  unfolding select_result_def rows_def writeResultset_def Let_def
  by (intro calls.keeps_intros; simp add: calls_in_def)+

lemma calls_search_index:
  assumes "\<And>t f. P (GrpcDescribeIndex t f)" "\<And>t f. P (DescribeIndex t f)"
  shows "calls.keeps P (search_index cl sdk t f)"
  unfolding search_index_def vectorIndexes_def
  by (intro calls.keeps_intros calls_call assms)
     (auto split: list.split intro!: calls.keeps_ret calls.keeps_throw)

context action_frame
begin

text \<open>A binding whose first part only succeeds with values that have a property.\<close>

lemma keeps_andThen_post:
  assumes m: "keeps m" and post: "\<And>s x s'. m s = (Inr x, s') \<Longrightarrow> Q x" and f: "\<And>x. Q x \<Longrightarrow> keeps (f x)"
  shows "keeps (andThen m f)"
proof (rule keepsI)
  fix s
  obtain r s' where ms: "m s = (r, s')" by (cases "m s")
  show "R s (snd (andThen m f s))"
  proof (cases r)
    case (Inl e)
    then show ?thesis using ms keepsD [OF m ms] by (simp add: action_simps)
  next
    case (Inr x)
    then have "R s' (snd (f x s'))" using f post ms by (auto simp: keeps_def)
    with keepsD [OF m ms] show ?thesis using ms Inr by (auto simp: action_simps intro: frame_trans)
  qed
qed

end

lemma search_index_metric:
  "search_index cl sdk t f s = (Inr idx, s') \<Longrightarrow> map_get (ix_params idx) ''metric_type'' \<noteq> ''''"
  by (auto simp: search_index_def action_simps split: sum.splits prod.splits list.splits if_splits)

lemma search_field_Inr:
  "search_field sch n = Inr f \<Longrightarrow> f_name f = n \<and> f_dataType f = FieldTypeFloatVector"
  using field_map_Some [of "s_fields sch" n f] by (auto simp: search_field_def split: option.splits if_splits)

lemma search_vector_Inr:
  "search_vector sdk f e = Inr v \<Longrightarrow> \<exists>x. e = Some x \<and> fieldValue sdk f x = Inr (GFloats v)"
  by (auto simp: search_vector_def split: option.splits sum.splits goval.splits)

lemma calls_select_search:
  assumes "planSelect sp tbl s = Inr p" and "pl_limit p \<noteq> 0" and "pl_vectorField p \<noteq> ''''"
  shows "calls.keeps (select_call sdk sp tbl s) (select_search cl sdk p sch cs)"
proof -
  have pos: "0 < sint (pl_limit p)"
    using plan_window(1) [OF assms(1)] assms(2) by (metis order_le_less signed_0 signed_word_eqI)
  have ok: "select_call sdk sp tbl s (Search \<lparr>sq_collection = pl_table p, sq_filter = pl_filter p,
      sq_outputs = output_names True [] (map fst cs), sq_vector = v, sq_vectorField = pl_vectorField p,
      sq_metric = map_get (ix_params idx) ''metric_type'', sq_topK = pl_limit p,
      sq_params = search_params (ix_type idx) (pl_limit p) (pl_offset p), sq_offset = pl_offset p\<rparr>)"
    if "map_get (ix_params idx) ''metric_type'' \<noteq> ''''" "search_field sch (pl_vectorField p) = Inr f"
      "search_vector sdk f (pl_vectorExpr p) = Inr v" for v f and idx :: index
    using that(1) assms(1,3) pos plan_window [OF assms(1)] search_field_Inr [OF that(2)] search_vector_Inr [OF that(3)]
      search_params_ef [of _ "ix_type idx" "pl_limit p" "pl_offset p"]
    by (auto simp: select_call_def search_of_plan_def output_names_distinct output_names_set)
  show ?thesis
    unfolding select_search_def Let_def
  proof (rule calls.keeps_lift_bind, rule calls.keeps_lift_bind, rule calls.keeps_andThen_post)
    show "calls.keeps (select_call sdk sp tbl s) (search_index cl sdk (pl_table p) (pl_vectorField p))"
      by (rule calls_search_index) (simp_all add: select_call_def)
  next
    show "map_get (ix_params idx) ''metric_type'' \<noteq> ''''"
      if "search_index cl sdk (pl_table p) (pl_vectorField p) c = (Inr idx, c')" for idx c c'
      using that by (rule search_index_metric)
  qed (auto intro!: calls.keeps_andThen calls_call ok calls.keeps_lift calls.keeps_throw calls_result
        split: list.split option.split)
qed

lemma calls_select_query:
  assumes "planSelect sp tbl s = Inr p" and "pl_limit p \<noteq> 0" and "pl_vectorField p = ''''"
  shows "calls.keeps (select_call sdk sp tbl s) (select_query cl sdk p l cs)"
proof -
  have pos: "0 < sint (pl_limit p)"
    using plan_window(1) [OF assms(1)] assms(2) by (metis order_le_less signed_0 signed_word_eqI)
  have "select_call sdk sp tbl s (Query \<lparr>qr_collection = pl_table p, qr_filter = pl_filter p,
      qr_outputs = output_names False [] (map fst cs),
      qr_window = (if is_count cs then None else Some (pl_limit p, pl_offset p))\<rparr>)"
    using assms(1,3) pos plan_window [OF assms(1)]
    by (auto simp: select_call_def query_of_plan_def output_names_distinct is_count_def)
  then show ?thesis
    unfolding select_query_def Let_def
    by (auto intro!: calls.keeps_andThen calls_call calls.keeps_lift calls.keeps_throw calls_result)
qed

lemma calls_handleSelect: "calls.keeps (select_call sdk sp tbl s) (handleSelect cl sdk sp tbl s)"
proof -
  have "calls.keeps (select_call sdk sp tbl s) (GetCollectinSchema cl n)" for n
    unfolding GetCollectinSchema_def
    by (intro calls.keeps_intros calls_call) (simp add: select_call_def)
  then have "calls.keeps (select_call sdk sp tbl s) (select_collection cl sdk sp p s)"
    if "planSelect sp tbl s = Inr p" for p
    unfolding select_collection_def
    using that by (intro calls.keeps_intros calls_result calls_select_search calls_select_query) simp_all
  then show ?thesis
    unfolding handleSelect_def
    by (intro calls.keeps_withState_all calls.keeps_option calls.keeps_lift_bind)
       (auto intro!: calls_result split: prod.split)
qed

section \<open>Property\<close>

text \<open>
  C17: SELECT only reads, and asks for what the plan says.  Every remote call of a SELECT is a reading
  call.  There is a search only for a plan with a vector predicate, and with the vector of that
  predicate converted for its field; there is a query only for a plan without one.  Either goes to
  the collection of the plan with its filter and window, within the
  limit of 16384 rows, asks for each output field once and never for the score, uses the metric of
  the index, and searches an HNSW index with \<open>ef\<close> at least 64 and at least the window.
\<close>

theorem select_requests_faithful:
  assumes "handleSelect cl sdk sp tbl s c = (r, c')"
  shows "\<exists>new. c_calls c' = c_calls c @ new \<and> (\<forall>x \<in> set new. select_call sdk sp tbl s (snd x))"
  using calls.keepsD [OF calls_handleSelect assms] by (simp add: calls_in_def extends_def)

theorem select_requests_faithful_witness:
  "\<exists>new. c_calls (snd (handleSelect demo_client demo_sdk demo_parser (\<lambda>_. False) demo_select demo_session)) = new \<and>
     length new = 2 \<and> list_all (\<lambda>x. select_call demo_sdk demo_parser (\<lambda>_. False) demo_select (snd x)) new"
proof -
  let ?h = "handleSelect demo_client demo_sdk demo_parser (\<lambda>_. False) demo_select demo_session"
  have n: "length (c_calls (snd ?h)) = 2" by code_simp
  obtain r c' where h: "?h = (r, c')" by (cases ?h)
  from select_requests_faithful [OF h] h n show ?thesis
    by (auto simp: demo_session_def NewSession_def list_all_iff)
qed

end
