(* ===== verification/SelectAnswer.thy ===== *)
theory SelectAnswer
  imports SelectRows
begin

text \<open>
  What SELECT answers (\<open>pkg/select.go\<close>): the result shows the columns of the select list, and its cells
  are the values Milvus returned to the one query or search of the statement.
\<close>

section \<open>Tables\<close>

text \<open>\<open>vals\<close> has \<open>n\<close> rows with a cell for each name, and the cells are those \<open>cell\<close> allows.\<close>

definition table_of ::
  "(nat \<Rightarrow> string \<Rightarrow> goval \<Rightarrow> bool) \<Rightarrow> string list \<Rightarrow> nat \<Rightarrow> goval list list \<Rightarrow> bool" where
  "table_of cell names n vals \<longleftrightarrow>
     length vals = n \<and>
     (\<forall>i < n. length (vals ! i) = length names \<and>
        (\<forall>j < length names. cell i (names ! j) (vals ! i ! j)))"

lemma table_of_mono:
  "table_of cell names n vals \<Longrightarrow> (\<And>i x v. i < n \<Longrightarrow> cell i x v \<Longrightarrow> cell' i x v) \<Longrightarrow> table_of cell' names n vals"
  by (simp add: table_of_def)

lemma table_of_empty [simp]: "table_of cell names 0 vals \<longleftrightarrow> vals = []"
  by (simp add: table_of_def)

lemma table_of_cell:
  "table_of cell names n vals \<Longrightarrow> i < n \<Longrightarrow> j < length names \<Longrightarrow> cell i (names ! j) (vals ! i ! j)"
  by (simp add: table_of_def)

lemma table_of_rows: "table_of cell names n vals \<Longrightarrow> length vals = n"
  by (simp add: table_of_def)

lemma traverse_table:
  "traverse (\<lambda>i. traverse (cell i) names) [0..<n] = Inr vals \<Longrightarrow>
     table_of (\<lambda>i x v. cell i x = Inr v) names n vals"
  by (simp add: table_of_def traverse_Inr list_all2_conv_all_nth)

section \<open>Results\<close>

definition shown :: "(string \<times> field_type) list \<Rightarrow> goval list list \<Rightarrow> ('w, 'c) conn \<Rightarrow> bool" where
  "shown cs vals s \<longleftrightarrow>
     (\<exists>r rs. c_result s = Some r \<and> r_resultset r = Some rs \<and>
        rs_fields rs = map (\<lambda>(n, t). resultField n t) cs \<and> rs_values rs = vals)"

lemma select_result_Inr:
  assumes "select_result cs vals s = (Inr u, s')"
  shows "shown cs vals s' \<and> c_calls s' = c_calls s \<and> c_world s' = c_world s"
  using assms
  by (auto simp: select_result_def writeResultset_def buildResultset_def shown_def action_simps Let_def map_result_def
      split: sum.splits if_splits)

text \<open>A remote call that succeeds: the request is logged, and the state is the one it left.\<close>

lemma call_Inr:
  assumes "call req f s = (Inr x, s')"
  shows "f (c_ctx s) (c_world s) = (Inr x, c_world s') \<and> c_calls s' = c_calls s @ [(c_ctx s, req)] \<and>
    c_ctx s' = c_ctx s \<and> c_describe s' = c_describe s"
  using assms by (auto simp: call_def split: prod.splits)

lemma andThen_Inr:
  assumes "andThen m f s = (Inr y, t)"
  obtains x s' where "m s = (Inr x, s')" "f x s' = (Inr y, t)"
  using assms by (auto simp: action_simps split: prod.splits sum.splits)

lemma lift_Inr: "lift_result r s = (Inr x, s') \<longleftrightarrow> r = Inr x \<and> s' = s"
  by (auto simp: action_simps)

lemma lift_andThen_Inr: "andThen (lift_result r) f s = (Inr y, t) \<longleftrightarrow> (\<exists>x. r = Inr x \<and> f x s = (Inr y, t))"
  by (cases r) (simp_all add: action_simps)

lemma throw_Inr [simp]: "throw e s \<noteq> (Inr x, s')"
  by (simp add: action_simps)

lemma schema_Inr:
  assumes "GetCollectinSchema cl n s = (Inr sch, s')"
  shows "c_calls s' = c_calls s @ [(c_ctx s, DescribeCollection n)] \<and> c_ctx s' = c_ctx s \<and> c_describe s' = c_describe s \<and>
    (\<exists>col. fst (cl_describeCollection cl (c_ctx s) n (c_world s)) = Inr (Some col) \<and> col_schema col = Some sch)"
proof -
  obtain x t where c: "call (DescribeCollection n) (\<lambda>ctx. cl_describeCollection cl ctx n) s = (Inr x, t)"
    and r: "(case x of None \<Rightarrow> throw (Err ''collection has no schema'')
       | Some c \<Rightarrow> (case col_schema c of None \<Rightarrow> throw (Err ''collection has no schema'') | Some s \<Rightarrow> ret s)) t = (Inr sch, s')"
    using assms unfolding GetCollectinSchema_def by (rule andThen_Inr)
  from r have "s' = t" "\<exists>col. x = Some col \<and> col_schema col = Some sch"
    by (auto simp: action_simps split: option.splits)
  with call_Inr [OF c] show ?thesis by auto
qed

lemma select_calls:
  assumes "handleSelect cl sdk sp tbl s c = (r, c')" and "c_calls c' = c_calls c @ new"
  shows "\<forall>x \<in> set new. select_call sdk sp tbl s (snd x)"
  using calls.keepsD [OF calls_handleSelect assms(1)] assms(2) by (auto simp: calls_in_def extends_def)

text \<open>A SELECT on a collection, up to the query or search.\<close>

lemma select_start:
  assumes "handleSelect cl sdk sp tbl s c = (Inr u, c')" and "dual_select sp (c_db c) s = None"
    and "planSelect sp tbl s = Inr p" and "pl_limit p \<noteq> 0" and "\<not> c_describe c"
  obtains sch cs d where
    "select_columns sp sch (pl_vectorField p) (sel_exprs s) = Inr cs"
    "\<exists>col. fst (cl_describeCollection cl (c_ctx c) (pl_table p) (c_world c)) = Inr (Some col) \<and> col_schema col = Some sch"
    "c_calls d = c_calls c @ [(c_ctx c, DescribeCollection (pl_table p))]" "c_ctx d = c_ctx c"
    "(if pl_vectorField p \<noteq> '''' then select_search cl sdk p sch cs
      else select_query cl sdk p (sel_limit s \<noteq> None) cs) d = (Inr u, c')"
proof -
  have "select_collection cl sdk sp p s c = (Inr u, c')"
    using assms(1-3) by (simp add: handleSelect_def action_simps)
  then obtain sch d where g: "GetCollectinSchema cl (pl_table p) c = (Inr sch, d)"
    and r: "(if reserved_distance sch (pl_vectorField p)
       then throw (Err ''_distance is reserved for vector search scores'')
       else
         andThen (lift_result (select_columns sp sch (pl_vectorField p) (sel_exprs s))) (\<lambda>cs.
         withState (\<lambda>st.
           if c_describe st \<or> pl_limit p = 0 then select_result cs []
           else if pl_vectorField p \<noteq> '''' then select_search cl sdk p sch cs
           else select_query cl sdk p (sel_limit s \<noteq> None) cs))) d = (Inr u, c')"
    unfolding select_collection_def by (rule andThen_Inr)
  note g' = schema_Inr [OF g]
  from r obtain cs d' where cs: "lift_result (select_columns sp sch (pl_vectorField p) (sel_exprs s)) d = (Inr cs, d')"
    and q: "withState (\<lambda>st.
           if c_describe st \<or> pl_limit p = 0 then select_result cs []
           else if pl_vectorField p \<noteq> '''' then select_search cl sdk p sch cs
           else select_query cl sdk p (sel_limit s \<noteq> None) cs) d' = (Inr u, c')"
    by (auto split: if_splits elim: andThen_Inr)
  from cs q g' assms(4,5) show thesis
    by (intro that [of sch cs d]) (auto simp: lift_Inr action_simps)
qed

section \<open>Queries\<close>

text \<open>
  The documented behaviour of \<open>GetColumn\<close> of the SDK's result sets: the first column with the name.
\<close>

definition columns_by_name :: "'c sdk \<Rightarrow> ('c \<Rightarrow> string) \<Rightarrow> bool" where
  "columns_by_name sdk name \<longleftrightarrow> (\<forall>cs n. getColumn sdk cs n = find (\<lambda>c. name c = n) cs)"

lemma getColumn_Some:
  assumes "columns_by_name sdk name" and "getColumn sdk cs n = Some col"
  shows "col \<in> set cs \<and> name col = n"
  using assms by (auto simp: columns_by_name_def find_Some_iff)

text \<open>The value at place \<open>i\<close> of the returned column with that name.\<close>

definition query_value :: "'c sdk \<Rightarrow> ('c \<Rightarrow> string) \<Rightarrow> 'c list \<Rightarrow> nat \<Rightarrow> string \<Rightarrow> goval \<Rightarrow> bool" where
  "query_value sdk name cols i n v \<longleftrightarrow> (\<exists>col \<in> set cols. name col = n \<and> columnGet sdk col i = Inr v)"

lemma query_cell_value:
  assumes "columns_by_name sdk name" and "query_cell sdk cols i n = Inr v"
  shows "query_value sdk name cols i n v"
  using assms(2) getColumn_Some [OF assms(1), of cols n]
  by (auto simp: query_cell_def query_value_def split: option.splits)

lemma select_query_Inr:
  assumes "select_query cl sdk p l cs d = (Inr u, c')" and "columns_by_name sdk name"
  obtains q cols vals w where
    "qr_collection q = pl_table p" "qr_filter q = pl_filter p" "set (qr_outputs q) = fst ` set cs"
    "qr_window q = (if is_count cs then None else Some (pl_limit p, pl_offset p))"
    "cl_query cl (c_ctx d) q w = (Inr cols, c_world c')" "c_calls c' = c_calls d @ [(c_ctx d, Query q)]"
    "shown cs vals c'"
    "table_of (query_value sdk name cols) (map fst cs) (if cols = [] then 0 else columnLen sdk (hd cols)) vals"
proof -
  let ?q = "\<lparr>qr_collection = pl_table p, qr_filter = pl_filter p,
                    qr_outputs = output_names False [] (map fst cs),
                    qr_window = (if is_count cs then None else Some (pl_limit p, pl_offset p))\<rparr>"
  have "andThen (call (Query ?q) (\<lambda>ctx. cl_query cl ctx ?q)) (\<lambda>cols.
           if cols = [] then select_result cs []
           else andThen (lift_result (query_rows sdk (map fst cs) cols)) (select_result cs)) d = (Inr u, c')"
    using assms(1) by (auto simp: select_query_def Let_def split: if_splits)
  then obtain cols e where c: "call (Query ?q) (\<lambda>ctx. cl_query cl ctx ?q) d = (Inr cols, e)"
    and r: "(if cols = [] then select_result cs []
           else andThen (lift_result (query_rows sdk (map fst cs) cols)) (select_result cs)) e = (Inr u, c')"
    by (rule andThen_Inr)
  have "\<exists>vals. select_result cs vals e = (Inr u, c') \<and>
    table_of (query_value sdk name cols) (map fst cs) (if cols = [] then 0 else columnLen sdk (hd cols)) vals"
  proof (cases "cols = []")
    case True
    then show ?thesis using r by simp
  next
    case False
    with r obtain vals where v: "query_rows sdk (map fst cs) cols = Inr vals" "select_result cs vals e = (Inr u, c')"
      by (auto simp: lift_Inr elim: andThen_Inr)
    have "table_of (\<lambda>i x v. query_cell sdk cols i x = Inr v) (map fst cs) (columnLen sdk (hd cols)) vals"
      using v(1) unfolding query_rows_def by (rule traverse_table)
    then have "table_of (query_value sdk name cols) (map fst cs) (columnLen sdk (hd cols)) vals"
      by (rule table_of_mono) (rule query_cell_value [OF assms(2)])
    with v(2) False show ?thesis by auto
  qed
  then obtain vals where v: "select_result cs vals e = (Inr u, c')"
    "table_of (query_value sdk name cols) (map fst cs) (if cols = [] then 0 else columnLen sdk (hd cols)) vals" by blast
  show thesis
    using call_Inr [OF c] select_result_Inr [OF v(1)] v(2)
    by (intro that [of ?q "c_world d" cols vals]) (auto simp: output_names_set)
qed


section \<open>Searches\<close>

text \<open>
  The value of a hit: its score, or the value of the returned column with that name; the identifiers
  of the hits also stand for the primary key.
\<close>

definition search_value ::
  "'c sdk \<Rightarrow> ('c \<Rightarrow> string) \<Rightarrow> string \<Rightarrow> 'c search_result \<Rightarrow> nat \<Rightarrow> string \<Rightarrow> goval \<Rightarrow> bool" where
  "search_value sdk name pk r i n v \<longleftrightarrow>
     (if n = ''_distance'' then i < length (sr_scores r) \<and> v = GFloat32 (sr_scores r ! i)
      else \<exists>col. (col \<in> set (sr_fields r) \<union> set_option (sr_ids r) \<and> name col = n \<or>
                  n = pk \<and> sr_ids r = Some col) \<and> columnGet sdk col i = Inr v)"

lemma search_rows_value:
  assumes "columns_by_name sdk name" and "search_rows sdk names pk r = Inr vals"
  shows "table_of (search_value sdk name pk r) names (sr_resultCount r) vals"
proof -
  define cols where "cols = (case sr_ids r of
      Some ids \<Rightarrow> if getColumn sdk (sr_fields r) pk = None then sr_fields r @ [ids] else sr_fields r
    | None \<Rightarrow> sr_fields r)"
  have cols: "set cols \<subseteq> set (sr_fields r) \<union> set_option (sr_ids r)"
    by (auto simp: cols_def split: option.splits if_splits)
  have t: "traverse (\<lambda>i. traverse (search_cell sdk r cols pk i) names) [0..<sr_resultCount r] = Inr vals"
    using assms(2) by (simp add: search_rows_def Let_def cols_def)
  have "search_value sdk name pk r i n v" if "search_cell sdk r cols pk i n = Inr v" for i n v
    using that cols getColumn_Some [OF assms(1), of cols n]
    by (auto simp: search_cell_def search_value_def split: if_splits option.splits)
  with traverse_table [OF t] show ?thesis by (rule table_of_mono)
qed

lemma search_index_Inr:
  assumes "search_index cl sdk t f s = (Inr idx, s')"
  shows "c_ctx s' = c_ctx s \<and>
    (\<exists>req \<in> {GrpcDescribeIndex t f, DescribeIndex t f}. c_calls s' = c_calls s @ [(c_ctx s, req)])"
  using assms
  by (auto simp: search_index_def vectorIndexes_def call_def action_simps
      split: option.splits prod.splits sum.splits list.splits if_splits)

text \<open>What the answer to a search is for the result: no row without hits, otherwise the rows of the hit list.\<close>

definition search_table ::
  "'c sdk \<Rightarrow> ('c \<Rightarrow> string) \<Rightarrow> string \<Rightarrow> 'c search_result list \<Rightarrow> string list \<Rightarrow> goval list list \<Rightarrow> bool" where
  "search_table sdk name pk rs names vals \<longleftrightarrow>
     (case rs of
        [] \<Rightarrow> vals = []
      | r # _ \<Rightarrow> sr_err r = None \<and> table_of (search_value sdk name pk r) names (sr_resultCount r) vals)"

lemma select_search_Inr:
  assumes "select_search cl sdk p sch cs d = (Inr u, c')" and "columns_by_name sdk name"
  obtains fld x v q rs vals w req where
    "field_map (s_fields sch) (pl_vectorField p) = Some fld" "f_dataType fld = FieldTypeFloatVector"
    "pl_vectorExpr p = Some x" "fieldValue sdk fld x = Inr (GFloats v)" "sq_vector q = v"
    "set (sq_outputs q) = fst ` set cs - {''_distance''}"
    "req \<in> {GrpcDescribeIndex (pl_table p) (pl_vectorField p), DescribeIndex (pl_table p) (pl_vectorField p)}"
    "cl_search cl (c_ctx d) q w = (Inr rs, c_world c')"
    "c_calls c' = c_calls d @ [(c_ctx d, req), (c_ctx d, Search q)]"
    "shown cs vals c'" "search_table sdk name (primary_key (s_fields sch)) rs (map fst cs) vals"
proof -
  define qf where "qf v idx = \<lparr>sq_collection = pl_table p, sq_filter = pl_filter p,
                 sq_outputs = output_names True [] (map fst cs), sq_vector = v,
                 sq_vectorField = pl_vectorField p, sq_metric = map_get (ix_params idx) ''metric_type'',
                 sq_topK = pl_limit p, sq_params = search_params (ix_type idx) (pl_limit p) (pl_offset p),
                 sq_offset = pl_offset p\<rparr>" for v and idx :: index
  let ?rest = "\<lambda>rs. case rs of
          [] \<Rightarrow> select_result cs []
        | r # _ \<Rightarrow>
            (case sr_err r of
               Some e \<Rightarrow> throw e
             | None \<Rightarrow>
                 andThen (lift_result (search_rows sdk (map fst cs) (primary_key (s_fields sch)) r))
                   (select_result cs))"
  obtain fld v where f: "search_field sch (pl_vectorField p) = Inr fld" "search_vector sdk fld (pl_vectorExpr p) = Inr v"
    and "andThen (search_index cl sdk (pl_table p) (pl_vectorField p))
        (\<lambda>idx. andThen (call (Search (qf v idx)) (\<lambda>ctx. cl_search cl ctx (qf v idx))) ?rest) d = (Inr u, c')"
    using assms(1) unfolding select_search_def Let_def qf_def [symmetric] lift_andThen_Inr by blast
  then obtain idx e where i: "search_index cl sdk (pl_table p) (pl_vectorField p) d = (Inr idx, e)"
    and "andThen (call (Search (qf v idx)) (\<lambda>ctx. cl_search cl ctx (qf v idx))) ?rest e = (Inr u, c')"
    by (blast elim: andThen_Inr)
  then obtain rs g where c: "call (Search (qf v idx)) (\<lambda>ctx. cl_search cl ctx (qf v idx)) e = (Inr rs, g)"
    and r: "?rest rs g = (Inr u, c')"
    by (blast elim: andThen_Inr)
  have "\<exists>vals. select_result cs vals g = (Inr u, c') \<and>
    search_table sdk name (primary_key (s_fields sch)) rs (map fst cs) vals"
  proof (cases rs)
    case Nil
    then show ?thesis using r by (simp add: search_table_def)
  next
    case (Cons h hs)
    with r obtain vals where "sr_err h = None" "select_result cs vals g = (Inr u, c')"
      "search_rows sdk (map fst cs) (primary_key (s_fields sch)) h = Inr vals"
      by (auto simp: lift_Inr split: option.splits elim: andThen_Inr)
    with Cons search_rows_value [OF assms(2)] show ?thesis by (auto simp: search_table_def)
  qed
  then obtain vals where v: "select_result cs vals g = (Inr u, c')"
    "search_table sdk name (primary_key (s_fields sch)) rs (map fst cs) vals" by blast
  obtain x where x: "pl_vectorExpr p = Some x" "fieldValue sdk fld x = Inr (GFloats v)"
    using f(2) by (auto simp: search_vector_def split: option.splits sum.splits goval.splits)
  have fld: "field_map (s_fields sch) (pl_vectorField p) = Some fld" "f_dataType fld = FieldTypeFloatVector"
    using f(1) by (auto simp: search_field_def split: option.splits if_splits)
  obtain req where "req \<in> {GrpcDescribeIndex (pl_table p) (pl_vectorField p), DescribeIndex (pl_table p) (pl_vectorField p)}"
    "c_calls e = c_calls d @ [(c_ctx d, req)]" "c_ctx e = c_ctx d"
    using search_index_Inr [OF i] by blast
  with fld x call_Inr [OF c] select_result_Inr [OF v(1)] v(2) show thesis
    by (intro that [of fld x v "qf v idx" req "c_world e" rs vals]) (auto simp: qf_def output_names_set)
qed

section \<open>Properties\<close>

text \<open>
  C18: A query shows what Milvus returned.  A SELECT without a vector predicate that is executed makes one
  schema lookup and one query, for the plan's collection, filter and window and the fields of the
  select list.  Its result has the columns of the select list, as many rows as the first returned column
  has values, and in each cell the value at that place of the returned column with the cell's name.
\<close>

theorem query_answer_shown:
  assumes "handleSelect cl sdk sp tbl s c = (Inr u, c')" and "dual_select sp (c_db c) s = None"
    and "planSelect sp tbl s = Inr p" and "pl_limit p \<noteq> 0" and "\<not> c_describe c"
    and "pl_vectorField p = ''''" and "columns_by_name sdk name"
  shows "\<exists>col sch cs q cols vals w.
    fst (cl_describeCollection cl (c_ctx c) (pl_table p) (c_world c)) = Inr (Some col) \<and> col_schema col = Some sch \<and>
    select_columns sp sch '''' (sel_exprs s) = Inr cs \<and>
    c_calls c' = c_calls c @ [(c_ctx c, DescribeCollection (pl_table p)), (c_ctx c, Query q)] \<and>
    query_of_plan p q \<and> set (qr_outputs q) = fst ` set cs \<and>
    cl_query cl (c_ctx c) q w = (Inr cols, c_world c') \<and> shown cs vals c' \<and>
    table_of (query_value sdk name cols) (map fst cs) (if cols = [] then 0 else columnLen sdk (hd cols)) vals"
proof (rule select_start [OF assms(1-5)])
  fix sch cs d
  assume "select_columns sp sch (pl_vectorField p) (sel_exprs s) = Inr cs"
    and sch: "\<exists>col. fst (cl_describeCollection cl (c_ctx c) (pl_table p) (c_world c)) = Inr (Some col) \<and> col_schema col = Some sch"
    and d: "c_calls d = c_calls c @ [(c_ctx c, DescribeCollection (pl_table p))]" "c_ctx d = c_ctx c"
    and "(if pl_vectorField p \<noteq> '''' then select_search cl sdk p sch cs
      else select_query cl sdk p (sel_limit s \<noteq> None) cs) d = (Inr u, c')"
  with assms(6) have cs: "select_columns sp sch '''' (sel_exprs s) = Inr cs"
    and q: "select_query cl sdk p (sel_limit s \<noteq> None) cs d = (Inr u, c')" by simp_all
  from q assms(7) show ?thesis
  proof (rule select_query_Inr)
    fix q cols vals w
    assume r: "c_calls c' = c_calls d @ [(c_ctx d, Query q)]" "set (qr_outputs q) = fst ` set cs"
      "cl_query cl (c_ctx d) q w = (Inr cols, c_world c')" "shown cs vals c'"
      "table_of (query_value sdk name cols) (map fst cs) (if cols = [] then 0 else columnLen sdk (hd cols)) vals"
    have "query_of_plan p q"
      using select_calls [OF assms(1)] r(1) d assms(3) by (simp add: select_call_def)
    moreover obtain col where "fst (cl_describeCollection cl (c_ctx c) (pl_table p) (c_world c)) = Inr (Some col)"
      "col_schema col = Some sch" using sch by blast
    moreover have "c_calls c' = c_calls c @ [(c_ctx c, DescribeCollection (pl_table p)), (c_ctx c, Query q)]"
      "cl_query cl (c_ctx c) q w = (Inr cols, c_world c')" using r d by simp_all
    ultimately show ?thesis using cs r(2,4,5) by blast
  qed
qed

text \<open>
  C19: A search shows the hits Milvus found.  A SELECT with a vector predicate that is executed looks up
  the schema and the index and makes one search with the vector of the predicate, for the plan's
  collection, filter and window.  Its result has the columns of the select list and a row for each
  hit; a cell of \<open>_distance\<close> is the score of the hit, any other cell the hit's value in the returned
  column with the cell's name, or its identifier for the primary key.
\<close>

theorem search_answer_shown:
  assumes "handleSelect cl sdk sp tbl s c = (Inr u, c')" and "dual_select sp (c_db c) s = None"
    and "planSelect sp tbl s = Inr p" and "pl_limit p \<noteq> 0" and "\<not> c_describe c"
    and "pl_vectorField p \<noteq> ''''" and "columns_by_name sdk name"
  shows "\<exists>col sch cs fld x req q rs vals w.
    fst (cl_describeCollection cl (c_ctx c) (pl_table p) (c_world c)) = Inr (Some col) \<and> col_schema col = Some sch \<and>
    select_columns sp sch (pl_vectorField p) (sel_exprs s) = Inr cs \<and>
    field_map (s_fields sch) (pl_vectorField p) = Some fld \<and> f_dataType fld = FieldTypeFloatVector \<and>
    pl_vectorExpr p = Some x \<and> fieldValue sdk fld x = Inr (GFloats (sq_vector q)) \<and>
    req \<in> {GrpcDescribeIndex (pl_table p) (pl_vectorField p), DescribeIndex (pl_table p) (pl_vectorField p)} \<and>
    c_calls c' = c_calls c @ [(c_ctx c, DescribeCollection (pl_table p)), (c_ctx c, req), (c_ctx c, Search q)] \<and>
    search_of_plan sdk p q \<and> set (sq_outputs q) = fst ` set cs - {''_distance''} \<and>
    cl_search cl (c_ctx c) q w = (Inr rs, c_world c') \<and> shown cs vals c' \<and>
    search_table sdk name (primary_key (s_fields sch)) rs (map fst cs) vals"
proof (rule select_start [OF assms(1-5)])
  fix sch cs d
  assume cs: "select_columns sp sch (pl_vectorField p) (sel_exprs s) = Inr cs"
    and sch: "\<exists>col. fst (cl_describeCollection cl (c_ctx c) (pl_table p) (c_world c)) = Inr (Some col) \<and> col_schema col = Some sch"
    and d: "c_calls d = c_calls c @ [(c_ctx c, DescribeCollection (pl_table p))]" "c_ctx d = c_ctx c"
    and "(if pl_vectorField p \<noteq> '''' then select_search cl sdk p sch cs
      else select_query cl sdk p (sel_limit s \<noteq> None) cs) d = (Inr u, c')"
  with assms(6) have q: "select_search cl sdk p sch cs d = (Inr u, c')" by simp
  from q assms(7) show ?thesis
  proof (rule select_search_Inr)
    fix fld x v q rs vals w req
    assume f: "field_map (s_fields sch) (pl_vectorField p) = Some fld" "f_dataType fld = FieldTypeFloatVector"
      "pl_vectorExpr p = Some x" "fieldValue sdk fld x = Inr (GFloats v)" "sq_vector q = v"
      and req: "req \<in> {GrpcDescribeIndex (pl_table p) (pl_vectorField p), DescribeIndex (pl_table p) (pl_vectorField p)}"
      and r: "c_calls c' = c_calls d @ [(c_ctx d, req), (c_ctx d, Search q)]" "set (sq_outputs q) = fst ` set cs - {''_distance''}"
      "cl_search cl (c_ctx d) q w = (Inr rs, c_world c')" "shown cs vals c'"
      "search_table sdk name (primary_key (s_fields sch)) rs (map fst cs) vals"
    have "search_of_plan sdk p q"
      using select_calls [OF assms(1)] r(1) d assms(3) by (simp add: select_call_def)
    moreover obtain col where "fst (cl_describeCollection cl (c_ctx c) (pl_table p) (c_world c)) = Inr (Some col)"
      "col_schema col = Some sch" using sch by blast
    moreover have "c_calls c' = c_calls c @ [(c_ctx c, DescribeCollection (pl_table p)), (c_ctx c, req), (c_ctx c, Search q)]"
      "cl_search cl (c_ctx c) q w = (Inr rs, c_world c')" "fieldValue sdk fld x = Inr (GFloats (sq_vector q))"
      using r d f by simp_all
    ultimately show ?thesis using cs r(2,4,5) f(1-3) req by blast
  qed
qed

section \<open>Instances\<close>

definition column_name :: "demo_column \<Rightarrow> string" where
  "column_name c = fst (snd c)"

lemma demo_by_name: "columns_by_name demo_sdk column_name"
  by (simp add: columns_by_name_def demo_sdk_def column_name_def split_def)

theorem query_answer_shown_witness:
  "\<exists>vals. shown [(''id'', FieldTypeInt64), (''name'', FieldTypeVarChar)] vals
       (snd (handleSelect demo_client demo_sdk demo_parser (\<lambda>_. False) demo_select demo_session)) \<and>
     length vals = 2 \<and> vals ! 1 ! 0 = GInt64 8"
proof -
  let ?h = "handleSelect demo_client demo_sdk demo_parser (\<lambda>_. False) demo_select demo_session"
  have "fst ?h = Inr ()" by code_simp
  then obtain c' where h: "?h = (Inr (), c')" by (cases ?h) auto
  have d: "dual_select demo_parser (c_db demo_session) demo_select = None" "\<not> c_describe demo_session" by code_simp+
  have "is_ok (planSelect demo_parser (\<lambda>_. False) demo_select)" by code_simp
  then obtain p where p: "planSelect demo_parser (\<lambda>_. False) demo_select = Inr p"
    by (cases "planSelect demo_parser (\<lambda>_. False) demo_select") auto
  have "(case planSelect demo_parser (\<lambda>_. False) demo_select of
      Inr p \<Rightarrow> pl_limit p \<noteq> 0 \<and> pl_vectorField p = '''' \<and> pl_table p = ''t'' | _ \<Rightarrow> False)" by code_simp
  then have pf: "pl_limit p \<noteq> 0" "pl_vectorField p = ''''" "pl_table p = ''t''" using p by simp_all
  have cs: "select_columns demo_parser demo_schema '''' (sel_exprs demo_select) =
      Inr [(''id'', FieldTypeInt64), (''name'', FieldTypeVarChar)]" by code_simp
  have cl: "fst (cl_describeCollection demo_client x ''t'' w) = Inr (Some \<lparr>col_schema = Some demo_schema\<rparr>)"
    "fst (cl_query demo_client x q w) = Inr demo_columns" for x w q by (simp_all add: demo_client_def)
  from query_answer_shown [OF h d(1) p pf(1) d(2) pf(2) demo_by_name, unfolded pf(3)]
  obtain col sch cs' q cols vals w where a:
    "fst (cl_describeCollection demo_client (c_ctx demo_session) ''t'' (c_world demo_session)) = Inr (Some col)"
    "col_schema col = Some sch" "select_columns demo_parser sch '''' (sel_exprs demo_select) = Inr cs'"
    "cl_query demo_client (c_ctx demo_session) q w = (Inr cols, c_world c')" "shown cs' vals c'"
    "table_of (query_value demo_sdk column_name cols) (map fst cs') (if cols = [] then 0 else columnLen demo_sdk (hd cols)) vals"
    by (elim exE conjE) (rule that)
  have "sch = demo_schema" using a(1,2) cl(1) by auto
  then have cs': "cs' = [(''id'', FieldTypeInt64), (''name'', FieldTypeVarChar)]" using a(3) cs by simp
  have c: "cols = demo_columns" using a(4) cl(2) [of "c_ctx demo_session" q w] by simp
  have v: "shown [(''id'', FieldTypeInt64), (''name'', FieldTypeVarChar)] vals c'"
    "table_of (query_value demo_sdk column_name demo_columns) [''id'', ''name'']
      (if demo_columns = [] then 0 else columnLen demo_sdk (hd demo_columns)) vals"
    using a(5,6) unfolding cs' c by simp_all
  have "columnLen demo_sdk (hd demo_columns) = 2" "demo_columns \<noteq> []" by code_simp+
  with table_of_rows [OF v(2)] table_of_cell [OF v(2), of 1 0]
  have t: "length vals = 2" "query_value demo_sdk column_name demo_columns 1 ''id'' (vals ! 1 ! 0)"
    by simp_all
  from t(2) have "vals ! 1 ! 0 = GInt64 8"
    by (auto simp: query_value_def demo_columns_def column_name_def demo_sdk_def)
  with v(1) t(1) h show ?thesis by auto
qed


text \<open>A client that finds one hit, and a search for it.\<close>

definition hit_result :: "demo_column search_result" where
  "hit_result = \<lparr>sr_resultCount = 1, sr_ids = Some (ColumnInt64, ''id'', [GInt64 8]), sr_fields = [],
     sr_scores = [5], sr_err = None\<rparr>"

definition hit_client :: "(nat, demo_column) client" where
  "hit_client = demo_client\<lparr>cl_search := (\<lambda>_ _ w. (Inr [hit_result], w))\<rparr>"

definition hit_select :: select_stmt where
  "hit_select = demo_select\<lparr>
     sel_exprs := [AliasedExpr (ColName \<lparr>tn_name = '''', tn_qualifier = ''''\<rparr> ''id'') '''',
                   AliasedExpr (ColName \<lparr>tn_name = '''', tn_qualifier = ''''\<rparr> ''_distance'') ''''],
     sel_where := Some (ComparisonExpr ''like'' (ColName \<lparr>tn_name = '''', tn_qualifier = ''''\<rparr> ''v'')
       (FuncExpr '''' ''json_vector'' False [AliasedExpr (SQLVal StrVal ''[0, 1]'') '''']) None)\<rparr>"

theorem search_answer_shown_witness:
  "\<exists>vals. shown [(''id'', FieldTypeInt64), (''_distance'', FieldTypeFloat)] vals
       (snd (handleSelect hit_client demo_sdk demo_parser (\<lambda>_. False) hit_select demo_session)) \<and>
     length vals = 1 \<and> vals ! 0 ! 0 = GInt64 8 \<and> vals ! 0 ! 1 = GFloat32 5"
proof -
  let ?h = "handleSelect hit_client demo_sdk demo_parser (\<lambda>_. False) hit_select demo_session"
  have "fst ?h = Inr ()" by code_simp
  then obtain c' where h: "?h = (Inr (), c')" by (cases ?h) auto
  have d: "dual_select demo_parser (c_db demo_session) hit_select = None" "\<not> c_describe demo_session" by code_simp+
  have e: "case planSelect demo_parser (\<lambda>_. False) hit_select of
      Inr p \<Rightarrow> pl_limit p \<noteq> 0 \<and> pl_vectorField p = ''v'' \<and> pl_table p = ''t'' | _ \<Rightarrow> False" by code_simp
  then obtain p where p: "planSelect demo_parser (\<lambda>_. False) hit_select = Inr p"
    by (cases "planSelect demo_parser (\<lambda>_. False) hit_select") auto
  with e have pf: "pl_limit p \<noteq> 0" "pl_vectorField p = ''v''" "pl_table p = ''t''" by simp_all
  have cs: "select_columns demo_parser demo_schema ''v'' (sel_exprs hit_select) =
      Inr [(''id'', FieldTypeInt64), (''_distance'', FieldTypeFloat)]" "primary_key (s_fields demo_schema) = ''id''"
    by code_simp+
  have cl: "fst (cl_describeCollection hit_client x ''t'' w) = Inr (Some \<lparr>col_schema = Some demo_schema\<rparr>)"
    "fst (cl_search hit_client x q w) = Inr [hit_result]" for x w q by (simp_all add: hit_client_def demo_client_def)
  have "pl_vectorField p \<noteq> ''''" by (simp add: pf)
  from search_answer_shown [OF h d(1) p pf(1) d(2) this demo_by_name, unfolded pf(2,3)]
  obtain col sch cs' q rs vals w where a:
    "fst (cl_describeCollection hit_client (c_ctx demo_session) ''t'' (c_world demo_session)) = Inr (Some col)"
    "col_schema col = Some sch" "select_columns demo_parser sch ''v'' (sel_exprs hit_select) = Inr cs'"
    "cl_search hit_client (c_ctx demo_session) q w = (Inr rs, c_world c')" "shown cs' vals c'"
    "search_table demo_sdk column_name (primary_key (s_fields sch)) rs (map fst cs') vals"
    by (elim exE conjE) (rule that)
  have s: "sch = demo_schema" using a(1,2) cl(1) by auto
  have cs': "cs' = [(''id'', FieldTypeInt64), (''_distance'', FieldTypeFloat)]" using a(3) cs(1) s by simp
  have r: "rs = [hit_result]" using a(4) cl(2) [of "c_ctx demo_session" q w] by simp
  have t: "table_of (search_value demo_sdk column_name ''id'' hit_result) [''id'', ''_distance''] 1 vals"
    using a(6) unfolding s cs' r cs(2) by (simp add: search_table_def hit_result_def)
  have "vals ! 0 ! 0 = GInt64 8" "vals ! 0 ! 1 = GFloat32 5"
    using table_of_cell [OF t, of 0 0] table_of_cell [OF t, of 0 1]
    by (auto simp: search_value_def hit_result_def demo_sdk_def)
  with a(5) table_of_rows [OF t] h cs' show ?thesis by auto
qed

end
