(* ===== verification/PgWire.thy ===== *)
theory PgWire
  imports Parameters
begin

text \<open>
  The values of the PostgreSQL adapter (\<open>pkg/postgres.go\<close>): format codes, row descriptions, the
  text and binary encodings of cells, the decoding of parameters, and command tags.  A cell is
  \<open>None\<close> for SQL NULL (a nil slice).
\<close>

section \<open>Format codes\<close>

definition formatAt :: "int list \<Rightarrow> nat \<Rightarrow> int" where
  "formatAt f i =
     (if f = [] then 0 else if length f = 1 then f ! 0 else if length f \<le> i then 0 else f ! i)"

definition validFormats :: "int list \<Rightarrow> nat \<Rightarrow> bool" where
  "validFormats f n \<longleftrightarrow>
     (length f = 0 \<or> length f = 1 \<or> length f = n) \<and> list_all (\<lambda>v. v = 0 \<or> v = 1) f"

section \<open>Big-endian integers\<close>

fun be_bytes :: "nat \<Rightarrow> nat \<Rightarrow> string" where
  "be_bytes 0 n = []"
| "be_bytes (Suc k) n = be_bytes k (n div 256) @ [char_of (n mod 256)]"

definition be_value :: "string \<Rightarrow> nat" where
  "be_value s = foldl (\<lambda>n c. 256 * n + byte c) 0 s"

section \<open>Cells\<close>

definition pgValue :: "goval \<Rightarrow> nat \<Rightarrow> int \<Rightarrow> string option result" where
  "pgValue v oid format =
     (if v = GNil then Inr None
      else if format = 0 then map_result Some (formatValue v)
      else if oid = 16 then
        (case v of
           GBool b \<Rightarrow> Inr (Some [if b then CHR 0x01 else CHR 0x00])
         | _ \<Rightarrow> Inl (Err ''expected bool''))
      else if oid = 20 then
        map_result (\<lambda>n. Some (be_bytes 8 (unat (word_of_int n :: int64)))) (parse_int (sprint v) 64)
      else if oid = 701 then
        map_result (\<lambda>w. Some (be_bytes 8 (unat w))) (parse_float64 (sprint v))
      else map_result Some (formatValue v))"

definition text_parameter :: "string \<Rightarrow> nat \<Rightarrow> goval result" where
  "text_parameter data oid =
     (if oid = 16 then map_result GBool (parse_bool data)
      else if oid = 20 \<or> oid = 21 \<or> oid = 23 then map_result (\<lambda>n. GInt64 (word_of_int n)) (parse_int data 64)
      else if oid = 700 \<or> oid = 701 then map_result GFloat64 (parse_float64 data)
      else Inr (GString data))"

definition binary_parameter :: "string \<Rightarrow> nat \<Rightarrow> goval result" where
  "binary_parameter data oid =
     (let bad = Inl (Err (''unsupported binary parameter OID '' @ itoa (int oid) @ '' or invalid length'')) in
      if oid = 16 then
        (case data of [c] \<Rightarrow> if byte c \<le> 1 then Inr (GBool (byte c = 1)) else bad | _ \<Rightarrow> bad)
      else if oid = 20 then (if length data = 8 then Inr (GInt64 (word_of_nat (be_value data))) else bad)
      else if oid = 23 then (if length data = 4 then Inr (GInt32 (word_of_nat (be_value data))) else bad)
      else if oid = 21 then (if length data = 2 then Inr (GInt16 (word_of_nat (be_value data))) else bad)
      else if oid = 701 then (if length data = 8 then Inr (GFloat64 (word_of_nat (be_value data))) else bad)
      else if oid = 700 then (if length data = 4 then Inr (GFloat32 (word_of_nat (be_value data))) else bad)
      else if oid = 25 \<or> oid = 1043 \<or> oid = 114 then Inr (GString data)
      else bad)"

definition pgParameter :: "string option \<Rightarrow> nat \<Rightarrow> int \<Rightarrow> goval result" where
  "pgParameter data oid format =
     (case data of
        None \<Rightarrow> Inr GNil
      | Some d \<Rightarrow> if format = 0 then text_parameter d oid else binary_parameter d oid)"

section \<open>Descriptions, rows and tags\<close>

record field_description =
  de_name :: string
  de_oid :: nat
  de_size :: int
  de_format :: int

definition describe_field :: "int list \<Rightarrow> nat \<Rightarrow> mysql_field \<Rightarrow> field_description" where
  "describe_field formats i f =
     (let oid = pgOID f in
      \<lparr>de_name = fd_name f, de_oid = oid,
       de_size = (if oid = 20 \<or> oid = 701 then 8 else if oid = 16 then 1 else - 1),
       de_format = formatAt formats i\<rparr>)"

definition result_fields :: "mysql_result \<Rightarrow> mysql_field list" where
  "result_fields r = (case r_resultset r of None \<Rightarrow> [] | Some rs \<Rightarrow> rs_fields rs)"

definition result_values :: "mysql_result \<Rightarrow> goval list list" where
  "result_values r = (case r_resultset r of None \<Rightarrow> [] | Some rs \<Rightarrow> rs_values rs)"

definition pgDescription :: "mysql_result \<Rightarrow> int list \<Rightarrow> field_description list" where
  "pgDescription r formats = map (\<lambda>(i, f). describe_field formats i f) (List.enumerate 0 (result_fields r))"

definition pg_row :: "mysql_field list \<Rightarrow> int list \<Rightarrow> goval list \<Rightarrow> string option list result" where
  "pg_row flds formats row =
     traverse (\<lambda>(i, v). if i < length flds then pgValue v (pgOID (flds ! i)) (formatAt formats i)
                        else Inl (Panic ''index out of range'')) (List.enumerate 0 row)"

text \<open>The rows that are sent before the first error, and the error.\<close>

fun pg_data :: "mysql_field list \<Rightarrow> int list \<Rightarrow> goval list list \<Rightarrow> string option list list \<times> error option" where
  "pg_data flds formats [] = ([], None)"
| "pg_data flds formats (row # rs) =
     (case pg_row flds formats row of
        Inl e \<Rightarrow> ([], Some e)
      | Inr values \<Rightarrow> (case pg_data flds formats rs of (sent, e) \<Rightarrow> (values # sent, e)))"

definition pgRows ::
  "mysql_result \<Rightarrow> nat \<Rightarrow> nat \<Rightarrow> int list \<Rightarrow> string option list list \<times> error option" where
  "pgRows r from til formats = pg_data (result_fields r) formats (take (til - from) (drop from (result_values r)))"

definition pgTag :: "string \<Rightarrow> mysql_result \<Rightarrow> string" where
  "pgTag q r =
     (case GoStrings.fields q of
        [] \<Rightarrow> ''''
      | w # ws \<Rightarrow>
          (let verb = to_upper w; affected = itoa (uint (r_affectedRows r)) in
           if r_resultset r \<noteq> None then ''SELECT '' @ itoa (int (length (result_values r)))
           else if verb \<in> set [''INSERT'', ''UPSERT'', ''REPLACE''] then ''INSERT 0 '' @ affected
           else if verb = ''DELETE'' then ''DELETE '' @ affected
           else if (verb = ''CREATE'' \<or> verb = ''DROP'') \<and> ws \<noteq> [] then verb @ '' '' @ to_upper (hd ws)
           else verb))"

end
