(* ===== verification/Config.thy ===== *)
theory Config
  imports Prelude
begin

text \<open>
  The configuration record of \<open>pkg/config.go\<close> and the normalisation \<open>defaults\<close> that both
  \<open>ParseConfigData\<close> and \<open>NewServer\<close> apply to it.  YAML decoding is outside the repository: it is
  the parameter \<open>unmarshal\<close> of \<open>ParseConfigData\<close>, and reading the file is the parameter
  \<open>readFile\<close>.  Go's \<open>int\<close> is 64 bits wide; no arithmetic is done on the one integer field, so it is
  an \<open>int\<close> here.
\<close>

record milvus_config =
  address :: string
  username :: string
  mpassword :: string
  enableTLSAuth :: bool
  apiKey :: string

record config =
  mode :: string
  postgresAddr :: string
  user :: string
  password :: string
  tlsCert :: string
  tlsKey :: string
  queryTimeoutSeconds :: int
  addr :: string
  milvus :: milvus_config
  logLevel :: string
  logPath :: string

text \<open>\<open>if field == zero { field = value }\<close>.\<close>

definition or_default :: "'a \<Rightarrow> 'a \<Rightarrow> 'a \<Rightarrow> 'a" where
  "or_default zero value x = (if x = zero then value else x)"

definition defaults :: "config \<Rightarrow> config result" where
  "defaults c0 =
     (let c1 = c0\<lparr>mode := or_default '''' ''mysql'' (mode c0)\<rparr> in
      if mode c1 \<noteq> ''mysql'' \<and> mode c1 \<noteq> ''postgres'' \<and> mode c1 \<noteq> ''both''
      then Inl (Err ''mode must be mysql, postgres or both'')
      else
        let c2 = c1\<lparr>addr := or_default '''' ''127.0.0.1:3306'' (addr c1)\<rparr>;
            c3 = c2\<lparr>postgresAddr := or_default '''' ''127.0.0.1:5432'' (postgresAddr c2)\<rparr>;
            c4 = c3\<lparr>user := or_default '''' ''root'' (user c3)\<rparr>;
            c5 = c4\<lparr>queryTimeoutSeconds := or_default 0 30 (queryTimeoutSeconds c4)\<rparr> in
        if queryTimeoutSeconds c5 < 0 then Inl (Err ''queryTimeoutSeconds must be positive'')
        else if (tlsCert c5 = '''') \<noteq> (tlsKey c5 = '''')
        then Inl (Err ''tlsCert and tlsKey must both be provided'')
        else Inr c5)"

definition ParseConfigData :: "('b \<Rightarrow> config result) \<Rightarrow> 'b \<Rightarrow> config result" where
  "ParseConfigData unmarshal data =
     (case unmarshal data of Inl e \<Rightarrow> Inl e | Inr cfg \<Rightarrow> defaults cfg)"

definition ParseConfigFile ::
  "(string \<Rightarrow> 'b result) \<Rightarrow> ('b \<Rightarrow> config result) \<Rightarrow> string \<Rightarrow> config result" where
  "ParseConfigFile readFile unmarshal fileName =
     (case readFile fileName of Inl e \<Rightarrow> Inl e | Inr data \<Rightarrow> ParseConfigData unmarshal data)"

text \<open>A configuration the server can be started with.\<close>

definition config_ok :: "config \<Rightarrow> bool" where
  "config_ok c \<longleftrightarrow>
     mode c \<in> {''mysql'', ''postgres'', ''both''} \<and> addr c \<noteq> '''' \<and> postgresAddr c \<noteq> '''' \<and>
     user c \<noteq> '''' \<and> 0 < queryTimeoutSeconds c \<and> (tlsCert c = '''' \<longleftrightarrow> tlsKey c = '''')"

lemma or_default_simps [simp]:
  "value \<noteq> zero \<Longrightarrow> or_default zero value x \<noteq> zero"
  "x \<noteq> zero \<Longrightarrow> or_default zero value x = x"
  "or_default zero value zero = value"
  by (simp_all add: or_default_def)

lemma defaults_Inr:
  "defaults c = Inr c' \<Longrightarrow>
     c' = c\<lparr>mode := or_default '''' ''mysql'' (mode c),
            addr := or_default '''' ''127.0.0.1:3306'' (addr c),
            postgresAddr := or_default '''' ''127.0.0.1:5432'' (postgresAddr c),
            user := or_default '''' ''root'' (user c),
            queryTimeoutSeconds := or_default 0 30 (queryTimeoutSeconds c)\<rparr> \<and>
     mode c' \<in> {''mysql'', ''postgres'', ''both''} \<and> 0 \<le> queryTimeoutSeconds c' \<and>
     (tlsCert c = '''' \<longleftrightarrow> tlsKey c = '''')"
  by (auto simp: defaults_def Let_def split: if_split_asm)

lemma defaults_config_ok:
  assumes "defaults c = Inr c'"
  shows "config_ok c'"
proof -
  note d = defaults_Inr [OF assms]
  have "0 < or_default 0 30 (queryTimeoutSeconds c)"
    using d by (auto simp: or_default_def split: if_splits)
  with d show ?thesis
    by (elim conjE) (simp add: config_ok_def)
qed

lemma defaults_fixpoint: "config_ok c \<Longrightarrow> defaults c = Inr c"
  by (cases c) (auto simp: defaults_def config_ok_def Let_def)

end
