(* ===== verification/Postgres.thy ===== *)
theory Postgres
  imports PgWire Config
begin

text \<open>
  The message loop of the PostgreSQL adapter (\<open>servePostgres\<close> in \<open>pkg/postgres.go\<close>).

  The wire codec (\<open>pgproto3\<close>) is outside the repository: the loop here consumes decoded frontend
  messages and produces backend messages.  \<open>pg_step\<close> handles one message: the new state of the
  connection and the messages sent for it.  A failing network write ends the loop after any step,
  so every property of all runs also covers connections that break.
\<close>

section \<open>Messages\<close>

datatype frontend =
    FQuery string
  | FParse string string "nat list"
  | FDescribe char string
  | FBind string string "int list" "string option list" "int list"
  | FExecute string nat
  | FClose char string
  | FSync
  | FFlush
  | FTerminate
  | FPassword string
  | FOther string

fun frontend_type :: "frontend \<Rightarrow> string" where
  "frontend_type (FPassword _) = ''*pgproto3.PasswordMessage''"
| "frontend_type (FOther n) = n"
| "frontend_type _ = ''''"

datatype backend =
    BErrorResponse string string error
  | BAuthenticationCleartextPassword
  | BAuthenticationOk
  | BParameterStatus string string
  | BReadyForQuery
  | BEmptyQueryResponse
  | BRowDescription "field_description list"
  | BDataRow "string option list"
  | BCommandComplete string
  | BParseComplete
  | BParameterDescription "nat list"
  | BNoData
  | BBindComplete
  | BPortalSuspended
  | BCloseComplete

definition fail_message :: "error \<Rightarrow> backend" where
  "fail_message e = BErrorResponse ''ERROR'' ''0A000'' e"

section \<open>State\<close>

record pg_statement =
  st_query :: string
  st_oids :: "nat list"

record pg_portal =
  po_query :: string
  po_formats :: "int list"
  po_result :: "mysql_result option"
  po_pos :: nat
  po_completed :: bool

record ('w, 'c) pg =
  pg_session :: "('w, 'c) conn"
  pg_statements :: "(string \<times> pg_statement) list"
  pg_portals :: "(string \<times> pg_portal) list"
  pg_failed :: bool

text \<open>What the loop closes over.\<close>

record ('w, 'c) pg_env =
  pe_client :: "('w, 'c) client"
  pe_sdk :: "'c sdk"
  pe_parser :: sqlparser
  pe_printable :: "nat \<Rightarrow> bool"
  pe_ctx :: ctxt
  pe_timeout :: int

definition query_ctx :: "('w, 'c) pg_env \<Rightarrow> ctxt" where
  "query_ctx env = WithTimeout (pe_ctx env) (pe_timeout env)"

definition pg_handleQuery :: "('w, 'c) pg_env \<Rightarrow> string \<Rightarrow> ('w, 'c, unit) session_op" where
  "pg_handleQuery env = handleQuery (pe_client env) (pe_sdk env) (pe_parser env) (pe_printable env)"

definition on_session ::
  "('w, 'c, 'a) session_op \<Rightarrow> ('w, 'c) pg \<Rightarrow> 'a result \<times> ('w, 'c) pg" where
  "on_session m s = (case m (pg_session s) of (r, c) \<Rightarrow> (r, s\<lparr>pg_session := c\<rparr>))"

text \<open>The closure \<open>execute\<close>.\<close>

definition pg_execute ::
  "('w, 'c) pg_env \<Rightarrow> string \<Rightarrow> bool \<Rightarrow> ('w, 'c) pg \<Rightarrow> mysql_result result \<times> ('w, 'c) pg" where
  "pg_execute env q describe s =
     on_session (if describe then Describe (pg_handleQuery env) (query_ctx env) q
                 else Execute (pg_handleQuery env) (query_ctx env) q) s"

type_synonym ('w, 'c) outcome = "('w, 'c) pg \<times> backend list \<times> error option"

section \<open>Simple queries\<close>

definition query_messages :: "string \<Rightarrow> mysql_result \<Rightarrow> backend list \<times> error option" where
  "query_messages q r =
     (case r_resultset r of
        None \<Rightarrow> ([BCommandComplete (pgTag q r)], None)
      | Some rs \<Rightarrow>
          (case pgRows r 0 (length (rs_values rs)) [] of
             (sent, e) \<Rightarrow>
               (BRowDescription (pgDescription r []) # map BDataRow sent @
                  (if e = None then [BCommandComplete (pgTag q r)] else []), e)))"

definition pg_run_query ::
  "('w, 'c) pg_env \<Rightarrow> string \<Rightarrow> ('w, 'c) pg \<Rightarrow> ('w, 'c) outcome" where
  "pg_run_query env text s =
     (if trim_space text = '''' then (s, [BEmptyQueryResponse], None)
      else
        (case bindSQL text Postgres [] False of
           Inl e \<Rightarrow> (s, [], Some e)
         | Inr (q, _) \<Rightarrow>
             (case pg_execute env q False s of
                (Inl e, s') \<Rightarrow> (s', [], Some e)
              | (Inr r, s') \<Rightarrow> (case query_messages q r of (sent, e) \<Rightarrow> (s', sent, e)))))"

definition pg_query :: "('w, 'c) pg_env \<Rightarrow> string \<Rightarrow> ('w, 'c) pg \<Rightarrow> ('w, 'c) outcome" where
  "pg_query env text s =
     (case pg_run_query env text s of
        (s', sent, e) \<Rightarrow>
          (s', sent @ (case e of None \<Rightarrow> [] | Some x \<Rightarrow> [fail_message x]) @ [BReadyForQuery], None))"

section \<open>The extended protocol\<close>

text \<open>\<open>make([]uint32, n)\<close> with the client's types copied in.\<close>

definition initial_oids :: "nat \<Rightarrow> nat list \<Rightarrow> nat list" where
  "initial_oids n given = take n given @ replicate (n - length given) 0"

definition pg_parse ::
  "('w, 'c) pg_env \<Rightarrow> string \<Rightarrow> string \<Rightarrow> nat list \<Rightarrow> ('w, 'c) pg \<Rightarrow> ('w, 'c) outcome" where
  "pg_parse env name query given s =
     (if 1024 \<le> length (pg_statements s) \<and> name \<noteq> '''' then (s, [], Some (Err ''too many prepared statements''))
      else
        (case bindSQL query Postgres [] True of
           Inl e \<Rightarrow> (s, [], Some e)
         | Inr (_, n) \<Rightarrow>
             if n < length given then (s, [], Some (Err ''too many parameter types''))
             else
               (case on_session (parameterOIDs (pe_client env) (pe_parser env) (query_ctx env) query
                                   (initial_oids n given)) s of
                  (Inl e, s') \<Rightarrow> (s', [], Some e)
                | (Inr oids, s') \<Rightarrow>
                    if map_of (pg_statements s') name \<noteq> None \<and> name \<noteq> ''''
                    then (s', [], Some (Err ''prepared statement already exists''))
                    else
                      (s'\<lparr>pg_statements := map_put (pg_statements s') name \<lparr>st_query = query, st_oids = oids\<rparr>\<rparr>,
                       [BParseComplete], None))))"

definition pg_describe_query ::
  "('w, 'c) pg_env \<Rightarrow> string \<Rightarrow> int list \<Rightarrow> backend list \<Rightarrow> ('w, 'c) pg \<Rightarrow> ('w, 'c) outcome" where
  "pg_describe_query env q formats before s =
     (case pg_execute env q True s of
        (Inl e, s') \<Rightarrow> (s', before, Some e)
      | (Inr r, s') \<Rightarrow>
          (s', before @ (if r_resultset r = None then [BNoData] else [BRowDescription (pgDescription r formats)]),
           None))"

definition pg_describe :: "('w, 'c) pg_env \<Rightarrow> char \<Rightarrow> string \<Rightarrow> ('w, 'c) pg \<Rightarrow> ('w, 'c) outcome" where
  "pg_describe env target name s =
     (if target = CHR ''S'' then
        (case map_of (pg_statements s) name of
           None \<Rightarrow> (s, [], Some (Err ''unknown prepared statement''))
         | Some st \<Rightarrow>
             (let before = [BParameterDescription (st_oids st)] in
              case bindSQL (st_query st) Postgres [] True of
                Inl e \<Rightarrow> (s, before, Some e)
              | Inr (q, _) \<Rightarrow> pg_describe_query env q [] before s))
      else if target = CHR ''P'' then
        (case map_of (pg_portals s) name of
           None \<Rightarrow> (s, [], Some (Err ''unknown portal''))
         | Some p \<Rightarrow> pg_describe_query env (po_query p) (po_formats p) [] s)
      else (s, [], Some (Err ''invalid describe target'')))"

definition bind_arguments :: "string option list \<Rightarrow> nat list \<Rightarrow> int list \<Rightarrow> goval list result" where
  "bind_arguments params oids formats =
     traverse (\<lambda>(i, data). if i < length oids then pgParameter data (oids ! i) (formatAt formats i)
                           else Inl (Panic ''index out of range'')) (List.enumerate 0 params)"

definition new_portal :: "string \<Rightarrow> int list \<Rightarrow> pg_portal" where
  "new_portal q formats =
     \<lparr>po_query = q, po_formats = formats, po_result = None, po_pos = 0, po_completed = False\<rparr>"

definition pg_open_portal ::
  "string \<Rightarrow> string \<Rightarrow> int list \<Rightarrow> mysql_result \<Rightarrow> ('w, 'c) pg \<Rightarrow> ('w, 'c) outcome" where
  "pg_open_portal portal q formats r s =
     (if \<not> validFormats formats (length (result_fields r)) then (s, [], Some (Err ''invalid result formats''))
      else if 1024 \<le> length (pg_portals s) \<and> portal \<noteq> '''' then (s, [], Some (Err ''too many portals''))
      else if map_of (pg_portals s) portal \<noteq> None \<and> portal \<noteq> '''' then (s, [], Some (Err ''portal already exists''))
      else (s\<lparr>pg_portals := map_put (pg_portals s) portal (new_portal q formats)\<rparr>, [BBindComplete], None))"

definition pg_bind ::
  "('w, 'c) pg_env \<Rightarrow> string \<Rightarrow> string \<Rightarrow> int list \<Rightarrow> string option list \<Rightarrow> int list \<Rightarrow>
     ('w, 'c) pg \<Rightarrow> ('w, 'c) outcome" where
  "pg_bind env portal name pformats params rformats s =
     (case map_of (pg_statements s) name of
        None \<Rightarrow> (s, [], Some (Err ''unknown prepared statement''))
      | Some st \<Rightarrow>
          if length params \<noteq> length (st_oids st) then (s, [], Some (Err ''parameter count mismatch''))
          else if \<not> validFormats pformats (length params) then (s, [], Some (Err ''invalid parameter formats''))
          else
            (case bind_arguments params (st_oids st) pformats of
               Inl e \<Rightarrow> (s, [], Some e)
             | Inr args \<Rightarrow>
                 (case bindSQL (st_query st) Postgres args False of
                    Inl e \<Rightarrow> (s, [], Some e)
                  | Inr (q, _) \<Rightarrow>
                      (case pg_execute env q True s of
                         (Inl e, s') \<Rightarrow> (s', [], Some e)
                       | (Inr r, s') \<Rightarrow> pg_open_portal portal q rformats r s'))))"

definition put_portal :: "string \<Rightarrow> pg_portal \<Rightarrow> ('w, 'c) pg \<Rightarrow> ('w, 'c) pg" where
  "put_portal name p s = s\<lparr>pg_portals := map_put (pg_portals s) name p\<rparr>"

text \<open>The end of the rows to send: all that are left, or as many as the client allows.\<close>

definition portal_end :: "pg_portal \<Rightarrow> nat \<Rightarrow> nat \<Rightarrow> nat" where
  "portal_end p count maxRows =
     (if 0 < maxRows \<and> maxRows < count - po_pos p then po_pos p + maxRows else count)"

definition complete_portal ::
  "string \<Rightarrow> pg_portal \<Rightarrow> mysql_result \<Rightarrow> backend list \<Rightarrow> ('w, 'c) pg \<Rightarrow> ('w, 'c) outcome" where
  "complete_portal name p r sent s =
     (put_portal name (p\<lparr>po_completed := True\<rparr>) s, sent @ [BCommandComplete (pgTag (po_query p) r)], None)"

text \<open>Sending from a portal whose result is known.\<close>

definition pg_fetch ::
  "string \<Rightarrow> pg_portal \<Rightarrow> mysql_result \<Rightarrow> nat \<Rightarrow> ('w, 'c) pg \<Rightarrow> ('w, 'c) outcome" where
  "pg_fetch name p r maxRows s =
     (if r_resultset r \<noteq> None \<and> \<not> po_completed p then
        (let count = length (result_values r); til = portal_end p count maxRows;
             p' = p\<lparr>po_pos := til\<rparr> in
         case pgRows r (po_pos p) til (po_formats p) of
           (sent, e) \<Rightarrow>
             if e \<noteq> None then (put_portal name p' s, map BDataRow sent, e)
             else if til < count then (put_portal name p' s, map BDataRow sent @ [BPortalSuspended], None)
             else complete_portal name p' r (map BDataRow sent) s)
      else complete_portal name p r [] s)"

definition pg_execute_portal ::
  "('w, 'c) pg_env \<Rightarrow> string \<Rightarrow> nat \<Rightarrow> ('w, 'c) pg \<Rightarrow> ('w, 'c) outcome" where
  "pg_execute_portal env name maxRows s =
     (case map_of (pg_portals s) name of
        None \<Rightarrow> (s, [], Some (Err ''unknown portal''))
      | Some p \<Rightarrow>
          (case po_result p of
             Some r \<Rightarrow> pg_fetch name p r maxRows s
           | None \<Rightarrow>
               (case pg_execute env (po_query p) False s of
                  (Inl e, s') \<Rightarrow> (s', [], Some e)
                | (Inr r, s') \<Rightarrow> pg_fetch name (p\<lparr>po_result := Some r\<rparr>) r maxRows s')))"

definition map_del :: "(string \<times> 'v) list \<Rightarrow> string \<Rightarrow> (string \<times> 'v) list" where
  "map_del m k = filter (\<lambda>kv. fst kv \<noteq> k) m"

definition pg_close :: "char \<Rightarrow> string \<Rightarrow> ('w, 'c) pg \<Rightarrow> ('w, 'c) outcome" where
  "pg_close target name s =
     (if target = CHR ''S'' then (s\<lparr>pg_statements := map_del (pg_statements s) name\<rparr>, [BCloseComplete], None)
      else if target = CHR ''P'' then (s\<lparr>pg_portals := map_del (pg_portals s) name\<rparr>, [BCloseComplete], None)
      else (s, [], Some (Err ''invalid close target'')))"

section \<open>One message\<close>

definition pg_dispatch :: "('w, 'c) pg_env \<Rightarrow> frontend \<Rightarrow> ('w, 'c) pg \<Rightarrow> ('w, 'c) outcome" where
  "pg_dispatch env msg s =
     (case msg of
        FQuery text \<Rightarrow> pg_query env text s
      | FParse name query oids \<Rightarrow> pg_parse env name query oids s
      | FDescribe target name \<Rightarrow> pg_describe env target name s
      | FBind portal name pf params rf \<Rightarrow> pg_bind env portal name pf params rf s
      | FExecute portal maxRows \<Rightarrow> pg_execute_portal env portal maxRows s
      | FClose target name \<Rightarrow> pg_close target name s
      | FSync \<Rightarrow> (s\<lparr>pg_failed := False, pg_portals := []\<rparr>, [BReadyForQuery], None)
      | FFlush \<Rightarrow> (s, [], None)
      | _ \<Rightarrow> (s, [], Some (Err (''unsupported PostgreSQL message '' @ frontend_type msg))))"

text \<open>After an error everything up to the next Sync is skipped.\<close>

definition pg_step :: "('w, 'c) pg_env \<Rightarrow> ('w, 'c) pg \<Rightarrow> frontend \<Rightarrow> ('w, 'c) pg \<times> backend list" where
  "pg_step env s msg =
     (if pg_failed s \<and> msg \<noteq> FSync then (s, [])
      else
        (case pg_dispatch env msg s of
           (s', sent, None) \<Rightarrow> (s', sent)
         | (s', sent, Some e) \<Rightarrow> (s'\<lparr>pg_failed := True\<rparr>, sent @ [fail_message e])))"

text \<open>The loop until Terminate or the end of the input.\<close>

fun pg_loop :: "('w, 'c) pg_env \<Rightarrow> ('w, 'c) pg \<Rightarrow> frontend list \<Rightarrow> ('w, 'c) pg \<times> backend list" where
  "pg_loop env s [] = (s, [])"
| "pg_loop env s (m # ms) =
     (if m = FTerminate then (s, [])
      else
        (case pg_step env s m of
           (s', sent) \<Rightarrow> (case pg_loop env s' ms of (s'', later) \<Rightarrow> (s'', sent @ later))))"

section \<open>Connecting\<close>

datatype startup = SSLRequest | StartupMessage "(string \<times> string) list" | OtherStartup string

text \<open>
  The startup messages: after an SSL request the answer is S when TLS is configured (the handshake
  then succeeds or ends the connection) and N otherwise, and a second startup message follows.
  The result is the answer byte, if any, and the parameters.
\<close>

definition negotiate ::
  "bool \<Rightarrow> bool \<Rightarrow> startup list \<Rightarrow> char option \<times> (string \<times> string) list option" where
  "negotiate tls handshake msgs =
     (case msgs of
        StartupMessage ps # _ \<Rightarrow> (None, Some ps)
      | SSLRequest # rest \<Rightarrow>
          (Some (if tls then CHR ''S'' else CHR ''N''),
           if tls \<and> \<not> handshake then None
           else (case rest of StartupMessage ps # _ \<Rightarrow> Some ps | _ \<Rightarrow> None))
      | _ \<Rightarrow> (None, None))"

definition authenticated :: "config \<Rightarrow> (string \<times> string) list \<Rightarrow> frontend \<Rightarrow> bool" where
  "authenticated cfg params auth \<longleftrightarrow>
     (case auth of
        FPassword pw \<Rightarrow> map_get (Some params) ''user'' = user cfg \<and> pw = password cfg
      | _ \<Rightarrow> False)"

definition parameter_statuses :: "backend list" where
  "parameter_statuses =
     [BParameterStatus ''server_version'' ''14.0'', BParameterStatus ''client_encoding'' ''UTF8'',
      BParameterStatus ''standard_conforming_strings'' ''on'', BParameterStatus ''DateStyle'' ''ISO, MDY'',
      BParameterStatus ''TimeZone'' ''UTC'']"

text \<open>
  \<open>newSession\<close> opens the client connection: an error, or the initial state of the service.  The
  session of an authenticated user is opened and switched to the requested database; when the switch
  fails there still is a session.
\<close>

definition pg_open ::
  "('w, 'c) pg_env \<Rightarrow> (ctxt \<Rightarrow> 'w result) \<Rightarrow> (string \<times> string) list \<Rightarrow> (unit result \<times> ('w, 'c) conn) result" where
  "pg_open env newSession params =
     (let ctx = WithTimeout (pe_ctx env) 15 in
      map_result (\<lambda>w. handleUseDB (pe_client env) (or_default '''' ''default'' (map_get (Some params) ''database''))
                     (NewSession ctx w)) (newSession ctx))"

text \<open>From the startup parameters to the start of the loop.\<close>

definition pg_start ::
  "('w, 'c) pg_env \<Rightarrow> config \<Rightarrow> (ctxt \<Rightarrow> 'w result) \<Rightarrow> (string \<times> string) list \<Rightarrow> frontend \<Rightarrow>
     ('w, 'c) pg option \<times> backend list" where
  "pg_start env cfg newSession params auth =
     (if \<not> authenticated cfg params auth
      then (None, [BAuthenticationCleartextPassword, BErrorResponse ''FATAL'' ''28P01'' (Err ''authentication failed'')])
      else
        (case pg_open env newSession params of
           Inl e \<Rightarrow> (None, [BAuthenticationCleartextPassword, fail_message e])
         | Inr (Inl e, _) \<Rightarrow> (None, [BAuthenticationCleartextPassword, fail_message e])
         | Inr (Inr _, c) \<Rightarrow>
             (Some \<lparr>pg_session = c, pg_statements = [], pg_portals = [], pg_failed = False\<rparr>,
              [BAuthenticationCleartextPassword, BAuthenticationOk] @ parameter_statuses @ [BReadyForQuery])))"

text \<open>
  \<open>servePostgres\<close> as a whole, for the startup messages, the answer to the password request and the
  messages of the loop: what is sent, and the session as the deferred \<open>Close\<close> leaves it, when one was
  opened.
\<close>

definition close_pg :: "('w, 'c) pg_env \<Rightarrow> ('w, 'c) conn \<Rightarrow> ('w, 'c) conn" where
  "close_pg env c = snd (CloseSession (pe_client env) c)"

definition servePostgres ::
  "('w, 'c) pg_env \<Rightarrow> config \<Rightarrow> (ctxt \<Rightarrow> 'w result) \<Rightarrow> bool \<Rightarrow> bool \<Rightarrow> startup list \<Rightarrow> frontend \<Rightarrow> frontend list \<Rightarrow>
     char option \<times> backend list \<times> ('w, 'c) conn option" where
  "servePostgres env cfg newSession tls handshake startups auth msgs =
     (case negotiate tls handshake startups of
        (answer, None) \<Rightarrow> (answer, [], None)
      | (answer, Some params) \<Rightarrow>
          (case pg_start env cfg newSession params auth of
             (None, out) \<Rightarrow>
               (answer, out,
                if \<not> authenticated cfg params auth then None
                else (case pg_open env newSession params of
                        Inl _ \<Rightarrow> None
                      | Inr (_, c) \<Rightarrow> Some (close_pg env c)))
           | (Some s, out) \<Rightarrow>
               (case pg_loop env s msgs of
                  (s', sent) \<Rightarrow> (answer, out @ sent, Some (close_pg env (pg_session s'))))))"

end
