(* ===== verification/WireProps.thy ===== *)
theory WireProps
  imports Postgres Frames
begin

text \<open>
  The encodings of the PostgreSQL adapter: what a client reads back from a cell, what a parameter
  becomes, and where the two formats of a cell disagree.
\<close>

section \<open>Big-endian integers\<close>

lemma be_bytes_length [simp]: "length (be_bytes k n) = k"
  by (induction k n rule: be_bytes.induct) simp_all

lemma be_value_snoc [simp]: "be_value (s @ [c]) = 256 * be_value s + byte c"
  by (simp add: be_value_def)

lemma be_value_bytes: "be_value (be_bytes k n) = n mod 256 ^ k"
proof (induction k n rule: be_bytes.induct)
  case (2 k n)
  have "byte (char_of (n mod 256)) = n mod 256" by simp
  then show ?case by (simp add: 2 mod_mult2_eq)
qed (simp add: be_value_def)

lemma be_value_less: "n < 256 ^ k \<Longrightarrow> be_value (be_bytes k n) = n"
  by (simp add: be_value_bytes)

text \<open>The parameter decoder and the cell encoder share one wire format for 64-bit words.\<close>

lemma be_word64: "(word_of_nat (be_value (be_bytes 8 (unat w))) :: 64 word) = w"
proof -
  have "unat w < 256 ^ 8" using unsigned_less [of w] by simp
  then show ?thesis by (simp add: be_value_less)
qed

section \<open>Integers\<close>

text \<open>Every integer type prints the number it denotes.\<close>

lemma integer_text:
  assumes "int_value v = Some n"
  shows "sprint v = itoa n" and "formatValue v = Inr (itoa n)" and "v \<noteq> GNil"
  using assms by (cases v; simp)+

lemma int64_text: "- (2 ^ 63) \<le> n \<Longrightarrow> n < 2 ^ 63 \<Longrightarrow> parse_int (itoa n) 64 = Inr n"
  using parse_signed_itoa [of 64 n] by (simp add: parse_int_def)

text \<open>
  C31: Integer cells survive the wire.  A cell of any Go integer type whose number fits 64 bits is
  sent in either format as bytes that decode, as a parameter of the described type in the same
  format, to the same number; nothing is truncated or wrapped.
\<close>

theorem pg_integer_roundtrip:
  assumes "int_value v = Some n" and "- (2 ^ 63) \<le> n" and "n < 2 ^ 63" and "fmt = 0 \<or> fmt = 1"
  shows "\<exists>d. pgValue v 20 fmt = Inr (Some d) \<and> pgParameter (Some d) 20 fmt = Inr (GInt64 (word_of_int n)) \<and>
    int_value (GInt64 (word_of_int n)) = Some n"
proof -
  have sint: "sint (word_of_int n :: int64) = n" using assms(2,3) by (simp add: sint_word_of_int_id)
  show ?thesis
    using assms(4) integer_text [OF assms(1)] int64_text [OF assms(2,3)] sint
    by (auto simp: pgValue_def pgParameter_def text_parameter_def binary_parameter_def map_result_def
        be_word64 Let_def)
qed

text \<open>
  C0: The two formats of a FLOAT cell disagree.  The text is the 64-bit value of the cell, the binary
  form is the 64-bit number nearest to the shortest 32-bit text; for the component 0.1 a client that asks for
  binary results reads another number than a client that asks for text.
\<close>

section \<open>One float cell\<close>

text \<open>The 32-bit number nearest to 0.1 is 13421773 / 2 ^ 27.\<close>

lemma digit_chars:
  "digit_char 0 = CHR ''0''" "digit_char (Suc 0) = CHR ''1''" "digit_char 2 = CHR ''2''" "digit_char 3 = CHR ''3''"
  "digit_char 4 = CHR ''4''" "digit_char 5 = CHR ''5''" "digit_char 6 = CHR ''6''" "digit_char 7 = CHR ''7''"
  "digit_char 8 = CHR ''8''" "digit_char 9 = CHR ''9''"
  by code_simp+

lemma search_digits_numeral:
  "search_digits (numeral w) v lo hi q incl k n =
     (case try_digits v lo hi q incl k n of
        Some d \<Rightarrow> (d, n)
      | None \<Rightarrow> search_digits (pred_numeral w) v lo hi q incl k (Suc n))"
  by (simp add: numeral_eq_Suc)

lemmas round_eval =
  convert_bits_def decode_bits_def float32info_def float64info_def round_bits_def bit_len.simps shl_def
  inf_bits_def sign_bit_def Let_def

lemma tenth_bits:
  "decode_bits float32info 0x3DCCCCCD = FFin False 13421773 (- 27)"
  "decode_bits float64info 0x3FB99999A0000000 = FFin False 7205759511166976 (- 56)"
  "round_bits float64info False (Suc 0) 10 = (False, 0x3FB999999999999A)"
  "convert_bits float32info float64info 0x3DCCCCCD = 0x3FB99999A0000000"
  by (simp_all add: round_eval cong: let_weak_cong)

lemma tenth_dec: "nat_dec (Suc 0) = ''1''" "nat_dec 10000000149011612 = ''10000000149011612''"
  by (simp_all add: nat_dec.simps digit_chars)

lemma tenth_exp: "dec_exp 53687092 536870912 = 0" "dec_exp 28823038044667904 288230376151711744 = 0"
  by (simp_all add: dec_exp_def leading_zeros.simps [of 53687092] leading_zeros.simps [of 28823038044667904])

lemma tenth_search:
  "search_digits 17 53687092 53687090 53687094 536870912 False 0 0 = (Suc 0, Suc 0)"
  "search_digits 17 28823038044667904 28823038044667902 28823038044667906 288230376151711744 True 0 0
     = (10000000149011612, 17)"
  by (simp_all add: try_digits_def Let_def search_digits_numeral cong: let_weak_cong)

lemma tenth_digits:
  "shortest_digits float32info 13421773 (- 27) = (''1'', 0)"
  "shortest_digits float64info 7205759511166976 (- 56) = (''10000000149011612'', 0)"
  by (simp_all add: shortest_digits_def shl_def float32info_def float64info_def tenth_dec tenth_exp tenth_search Let_def cong: let_weak_cong)

lemma tenth_layout:
  "fmt_f False ''10000000149011612'' 0 = ''0.10000000149011612''" "fmt_g False ''1'' 0 = ''0.1''"
  "special_float float64info ''0.1'' = None" "read_float ''0.1'' = Some (False, 1, 10)"
  by code_simp+

lemma tenth_text:
  "float64_of_32 0x3DCCCCCD = 0x3FB99999A0000000"
  "append_float64 0x3FB99999A0000000 = ''0.10000000149011612''"
  "sprint_float32 0x3DCCCCCD = ''0.1''"
  by (simp_all add: float64_of_32_def append_float64_def sprint_float32_def format_float_def tenth_bits
      tenth_digits tenth_layout)

lemma tenth_parsed: "parse_float64 ''0.1'' = Inr 0x3FB999999999999A"
proof -
  have "parse_float_bits float64info ''0.1'' = Inr 0x3FB999999999999A"
    unfolding parse_float_bits_def tenth_layout by (simp add: tenth_bits)
  then show ?thesis by (simp add: parse_float64_def map_result_def)
qed

text \<open>
  The two formats of a FLOAT cell disagree.  The text is the 64-bit value of the cell, the
  binary form is the 64-bit number nearest to the shortest 32-bit text.  For the cell 0.1 a client
  that asks for binary results reads another number than a client that asks for text.
\<close>

lemma pg_float32_formats_differ:
  "pgValue (GFloat32 0x3DCCCCCD) 701 0 = Inr (Some ''0.10000000149011612'') \<and>
   pgValue (GFloat32 0x3DCCCCCD) 701 1 = Inr (Some (be_bytes 8 0x3FB999999999999A)) \<and>
   be_value (be_bytes 8 0x3FB999999999999A) \<noteq> unat (float64_of_32 0x3DCCCCCD)"
  by (simp add: pgValue_def tenth_text tenth_parsed be_value_less map_result_def del: be_bytes.simps)

section \<open>Instances\<close>

theorem pg_integer_roundtrip_witness:
  "\<exists>d. pgValue (GInt8 (- 5)) 20 1 = Inr (Some d) \<and> pgParameter (Some d) 20 1 = Inr (GInt64 (- 5))"
  using pg_integer_roundtrip [of "GInt8 (- 5)" "- 5" 1] by auto

end
