(* ===== verification/ParamProps.thy ===== *)
theory ParamProps
  imports SessionProps
begin

text \<open>
  The inference of parameter types (\<open>pkg/parameters.go\<close>): it answers for every parameter, it never
  contradicts the client, and it finds the type of the field a parameter is compared with or stored
  in, by the number in the marker.
\<close>

section \<open>Markers\<close>

lemma marker_number_marker: "int i < 2 ^ 63 \<Longrightarrow> marker_number (param_marker i) = Some (int i)"
proof -
  assume "int i < 2 ^ 63"
  then have "atoi (itoa (int i)) = Inr (int i)" using parse_signed_itoa [of 64 "int i"] by (simp add: atoi_def)
  moreover have "trim_suffix (trim_prefix (param_marker i) ''__milvus_param_'') ''__'' = itoa (int i)"
    by (simp only: param_marker_def trim_prefix_append trim_suffix_append)
  moreover have "has_suffix (param_marker i) ''__''"
    unfolding has_suffix_iff param_marker_def by (metis append.assoc)
  moreover have "has_prefix (param_marker i) ''__milvus_param_''"
    unfolding has_prefix_iff param_marker_def by blast
  ultimately show ?thesis by (simp add: marker_number_def)
qed

section \<open>Setting a type\<close>

text \<open>\<open>refines oids res\<close>: the types already known stay, and the list keeps its length.\<close>

definition refines :: "nat list \<Rightarrow> nat list \<Rightarrow> bool" where
  "refines oids res \<longleftrightarrow> length res = length oids \<and> (\<forall>i < length oids. oids ! i \<noteq> 0 \<longrightarrow> res ! i = oids ! i)"

lemma refines_refl [simp]: "refines oids oids"
  by (simp add: refines_def)

lemma refines_trans: "refines a b \<Longrightarrow> refines b c \<Longrightarrow> refines a c"
  by (auto simp: refines_def)

lemma refines_fold: "(\<And>x l. refines l (f x l)) \<Longrightarrow> refines oids (fold f xs oids)"
  by (induction xs arbitrary: oids) (auto intro: refines_trans)

lemma refines_set_oid: "refines oids (set_oid e oid oids)"
  by (auto simp: refines_def set_oid_def nth_list_update split: expr.split option.split)

lemma set_ColName [simp]: "set_oid (ColName q n) oid oids = oids" "set_tuple oid (ColName q n) oids = oids"
  by (simp_all add: set_oid_def set_tuple_def)

lemma refines_visit_node: "refines oids (visit_node flds node oids)"
proof -
  have t: "refines l (set_tuple o' e l)" for o' e l
    by (cases e) (simp_all add: set_tuple_def refines_fold refines_set_oid)
  show ?thesis
    by (auto simp: visit_node_def Let_def split: sql_node.split expr.split option.split
        intro: refines_trans refines_set_oid t)
qed

lemma refines_visit_row: "refines oids (visit_row flds names row oids)"
  unfolding visit_row_def by (rule refines_fold) (simp add: refines_set_oid split: prod.split)

lemma refines_visit_insert: "refines oids (visit_insert sch s oids)"
  by (simp add: visit_insert_def refines_fold refines_visit_row split: insert_rows.split)

lemma default_oids_nth: "i < length oids \<Longrightarrow> default_oids oids ! i = (if oids ! i = 0 then 25 else oids ! i)"
  by (simp add: default_oids_def)

lemma default_oids_length [simp]: "length (default_oids oids) = length oids"
  by (simp add: default_oids_def)

lemma infer_oids_refines:
  obtains mid where "refines oids mid" and "infer_oids sp stmt sch oids = default_oids mid"
proof -
  let ?f = "case sch of None \<Rightarrow> (\<lambda>_. None) | Some s \<Rightarrow> field_map (s_fields s)"
  let ?o1 = "fold (visit_node ?f) (sp_walk sp stmt) oids"
  let ?o2 = "case (stmt, sch) of (InsertStmt s, Some sc) \<Rightarrow> visit_insert sc s ?o1 | _ \<Rightarrow> ?o1"
  have "refines oids ?o1" by (intro refines_fold refines_visit_node)
  moreover have "refines ?o1 ?o2" by (simp add: refines_visit_insert split: statement.split option.split)
  ultimately have "refines oids ?o2" by (rule refines_trans)
  then show thesis by (rule that) (simp add: infer_oids_def Let_def)
qed

section \<open>One marker\<close>

text \<open>\<open>marks e i\<close>: the expression is the marker of parameter \<open>i\<close>, counted from 0.\<close>

definition marks :: "expr \<Rightarrow> nat \<Rightarrow> bool" where
  "marks e i \<longleftrightarrow> (case e of SQLVal _ v \<Rightarrow> marker_number v = Some (int (Suc i)) | _ \<Rightarrow> False)"

lemma set_oid_marked: "marks e i \<Longrightarrow> i < length oids \<Longrightarrow> oids ! i = 0 \<Longrightarrow> set_oid e oid oids ! i = oid"
  proof (cases e)
  case (SQLVal t v)
  moreover have "nat (1 + int i) = Suc i" by simp
  ultimately show "marks e i \<Longrightarrow> i < length oids \<Longrightarrow> oids ! i = 0 \<Longrightarrow> set_oid e oid oids ! i = oid"
    by (simp add: marks_def set_oid_def)
qed (simp_all add: marks_def)

lemma set_oid_unmarked: "\<not> marks e i \<Longrightarrow> i < length oids \<Longrightarrow> set_oid e oid oids ! i = oids ! i"
  by (cases e) (auto simp: marks_def set_oid_def nth_list_update split: option.splits)

lemma set_oid_length [simp]: "length (set_oid e oid oids) = length oids"
  using refines_set_oid [of oids e oid] by (simp add: refines_def)

lemma fold_unmarked:
  "\<forall>p \<in> set ps. \<not> marks (snd p) i \<Longrightarrow> i < length oids \<Longrightarrow>
     fold (\<lambda>(n, e). set_oid e (T n)) ps oids ! i = oids ! i"
  by (induction ps arbitrary: oids) (auto simp: set_oid_unmarked)

lemma fold_set_length [simp]: "length (fold (\<lambda>(n, e). set_oid e (T n)) ps oids) = length oids"
  by (induction ps arbitrary: oids) auto

lemma visit_row_length [simp]: "length (visit_row flds names row oids) = length oids"
  by (simp add: visit_row_def)

lemma visit_row_unmarked:
  "\<forall>e \<in> set row. \<not> marks e i \<Longrightarrow> i < length oids \<Longrightarrow> visit_row flds names row oids ! i = oids ! i"
  unfolding visit_row_def by (rule fold_unmarked) (auto dest: set_zip_rightD)

lemma visit_rows_unmarked:
  "\<forall>e \<in> set (concat rws). \<not> marks e i \<Longrightarrow> i < length oids \<Longrightarrow>
     fold (visit_row flds names) rws oids ! i = oids ! i \<and>
     length (fold (visit_row flds names) rws oids) = length oids"
  by (induction rws arbitrary: oids) (auto simp: visit_row_unmarked)

lemma fieldOID_nonzero: "fieldOID f \<noteq> 0"
  by (simp add: fieldOID_def pgOID_def split: option.split mysql_type.split)

text \<open>The first use of a parameter in a row decides.\<close>

lemma visit_row_marked:
  assumes "j < length names" "j < length row" "marks (row ! j) i" "i < length oids" "oids ! i = 0"
    and first: "\<forall>e \<in> set (take j row). \<not> marks e i"
  shows "visit_row flds names row oids ! i = fieldOID (flds (names ! j))"
proof -
  let ?f = "\<lambda>(n, e). set_oid e (fieldOID (flds n))"
  define z where "z = zip names row"
  have z: "z = take j z @ (names ! j, row ! j) # drop (Suc j) z"
    using assms(1,2) id_take_nth_drop [of j z] by (simp add: z_def)
  have "\<forall>p \<in> set (take j z). \<not> marks (snd p) i"
    using first by (auto simp: z_def take_zip dest: set_zip_rightD)
  then have pre: "fold ?f (take j z) oids ! i = 0" using assms(4,5) by (simp add: fold_unmarked)
  let ?l = "set_oid (row ! j) (fieldOID (flds (names ! j))) (fold ?f (take j z) oids)"
  have l: "?l ! i = fieldOID (flds (names ! j))" "length ?l = length oids"
    using pre assms(3,4) by (simp_all add: set_oid_marked)
  have "refines ?l (fold ?f (drop (Suc j) z) ?l)"
    by (rule refines_fold) (simp add: refines_set_oid split: prod.split)
  then have "fold ?f (drop (Suc j) z) ?l ! i = fieldOID (flds (names ! j))"
    using l assms(4) fieldOID_nonzero by (simp add: refines_def)
  moreover have "visit_row flds names row oids = fold ?f (take j z @ (names ! j, row ! j) # drop (Suc j) z) oids"
    unfolding visit_row_def using z by (simp add: z_def [symmetric])
  ultimately show ?thesis by simp
qed

text \<open>\<open>node_marks n i\<close>: parameter \<open>i\<close> is an operand of the comparison or the bound of the LIMIT \<open>n\<close>.\<close>

definition node_marks :: "sql_node \<Rightarrow> nat \<Rightarrow> bool" where
  "node_marks n i \<longleftrightarrow>
     (case n of
        NComparison op l r \<Rightarrow> marks l i \<or> marks r i \<or> (case r of ValTuple xs \<Rightarrow> \<exists>x \<in> set xs. marks x i | _ \<Rightarrow> False)
      | NLimit lim \<Rightarrow> marks (lim_rowcount lim) i \<or> (case lim_offset lim of None \<Rightarrow> False | Some e \<Rightarrow> marks e i))"

lemma set_tuple_unmarked:
  assumes "\<not> (case e of ValTuple xs \<Rightarrow> \<exists>x \<in> set xs. marks x i | _ \<Rightarrow> False)" and "i < length oids"
  shows "set_tuple oid e oids ! i = oids ! i \<and> length (set_tuple oid e oids) = length oids"
proof -
  have "fold (\<lambda>x. set_oid x oid) xs l ! i = l ! i \<and> length (fold (\<lambda>x. set_oid x oid) xs l) = length l"
    if "\<forall>x \<in> set xs. \<not> marks x i" "i < length l" for xs l
    using that by (induction xs arbitrary: l) (auto simp: set_oid_unmarked)
  with assms show ?thesis by (cases e) (simp_all add: set_tuple_def)
qed

lemma visit_node_unmarked:
  assumes "\<not> node_marks n i" and "i < length oids"
  shows "visit_node flds n oids ! i = oids ! i \<and> length (visit_node flds n oids) = length oids"
proof (cases n)
  case (NComparison op l r)
  with assms(1) have m: "\<not> marks l i" "\<not> marks r i"
    "\<not> (case r of ValTuple xs \<Rightarrow> \<exists>x \<in> set xs. marks x i | _ \<Rightarrow> False)" by (simp_all add: node_marks_def)
  define mid where "mid = (case l of ColName _ c \<Rightarrow> set_tuple (fieldOID (flds c)) r (set_oid r (fieldOID (flds c)) oids) | _ \<Rightarrow> oids)"
  have "mid ! i = oids ! i \<and> length mid = length oids"
    using set_tuple_unmarked [OF m(3)] m(2) assms(2) by (auto simp: mid_def set_oid_unmarked split: expr.split)
  then show ?thesis
    using NComparison m(1) assms(2)
    by (auto simp: visit_node_def Let_def mid_def [symmetric] set_oid_unmarked split: expr.split)
next
  case (NLimit lim)
  with assms show ?thesis
    by (auto simp: visit_node_def node_marks_def Let_def set_oid_unmarked split: option.splits)
qed

lemma visit_nodes_unmarked:
  "\<forall>n \<in> set ns. \<not> node_marks n i \<Longrightarrow> i < length oids \<Longrightarrow>
     fold (visit_node flds) ns oids ! i = oids ! i \<and> length (fold (visit_node flds) ns oids) = length oids"
  by (induction ns arbitrary: oids) (auto simp: visit_node_unmarked)

section \<open>The result for a statement\<close>

definition answers :: "nat list \<Rightarrow> nat list \<Rightarrow> bool" where
  "answers oids res \<longleftrightarrow> refines oids res \<and> (\<forall>o' \<in> set res. o' \<noteq> 0)"

lemma answers_default: "refines oids mid \<Longrightarrow> answers oids (default_oids mid)"
  by (auto simp: answers_def refines_def default_oids_def)

lemma parameterOIDs_answers:
  assumes "parameterOIDs cl sp ctx q oids s = (Inr res, s')"
  shows "answers oids res"
proof (cases "oids = []")
  case True
  with assms show ?thesis by (simp add: parameterOIDs_def action_simps answers_def)
next
  case False
  have i: "answers oids (infer_oids sp stmt sch oids)" for stmt sch
    using infer_oids_refines [of oids sp stmt sch] answers_default by metis
  show ?thesis
    using assms False i answers_default [OF refines_refl, of oids]
    by (auto simp: parameterOIDs_def action_simps Let_def with_ctx_def split: sum.splits prod.splits if_splits)
qed

lemma parameterOIDs_session:
  assumes "parameterOIDs cl sp ctx q oids s = (r, s')"
  shows "c_db s' = c_db s \<and> c_describe s' = c_describe s \<and> extends is_schema_call (c_calls s) (c_calls s')"
  using assms
  by (auto simp: parameterOIDs_def action_simps Let_def with_ctx_def GetCollectinSchema_def call_def
      is_schema_call_def split: sum.splits prod.splits if_splits option.splits)

section \<open>Properties\<close>

text \<open>
  Every parameter of a prepared statement gets a type and the client's choice is kept.  When the
  inference succeeds, there is one type for each parameter, none of them the unspecified 0, and a
  type the client gave is never changed.
\<close>

lemma parameterOIDs_complete:
  assumes "parameterOIDs cl sp ctx q oids s = (Inr res, s')"
  shows "length res = length oids \<and> 0 \<notin> set res \<and>
    (\<forall>i < length oids. oids ! i \<noteq> 0 \<longrightarrow> res ! i = oids ! i)"
  using parameterOIDs_answers [OF assms] by (auto simp: answers_def refines_def)

text \<open>
  C32: A value of an INSERT gets the type of its field.  In an INSERT of any number of rows, a parameter
  whose first use in the rows, read row by row, is as the value of a field and that occurs in no
  condition or LIMIT of the statement has the type of that field, whatever the order of the columns,
  and is text when there is no such field; a type the client gave is kept instead.
\<close>

theorem insert_parameter_type:
  assumes "ins_rows s = Values rws" and "k < length rws" and "j < length (rws ! k)"
    and "j < length (insert_names sch s)" and "rws ! k ! j = SQLVal StrVal (param_marker (Suc i))"
    and "i < length oids" and "int (Suc i) < 2 ^ 63"
    and "\<forall>e \<in> set (concat (take k rws) @ take j (rws ! k)). \<not> marks e i"
    and "\<forall>n \<in> set (sp_walk sp (InsertStmt s)). \<not> node_marks n i"
  shows "infer_oids sp (InsertStmt s) (Some sch) oids ! i
    = (if oids ! i = 0 then fieldOID (field_map (s_fields sch) (insert_names sch s ! j)) else oids ! i)"
proof (cases "oids ! i = 0")
  case True
  let ?v = "visit_row (field_map (s_fields sch)) (insert_names sch s)"
  have m: "marks (rws ! k ! j) i" using assms(5,7) marker_number_marker [of "Suc i"] by (simp add: marks_def)
  define o1 where "o1 = fold (visit_node (field_map (s_fields sch))) (sp_walk sp (InsertStmt s)) oids"
  have o1: "o1 ! i = 0" "length o1 = length oids"
    using visit_nodes_unmarked [OF assms(9,6)] True by (simp_all add: o1_def)
  define o2 where "o2 = fold ?v (take k rws) o1"
  have o2: "o2 ! i = 0" "length o2 = length oids"
    using visit_rows_unmarked [of "take k rws" i o1] o1 assms(6,8) by (auto simp: o2_def)
  have "?v (rws ! k) o2 ! i = fieldOID (field_map (s_fields sch) (insert_names sch s ! j))"
    using visit_row_marked [OF assms(4,3) m _ o2(1)] o2(2) assms(6,8) by auto
  moreover have "refines (?v (rws ! k) o2) (fold ?v (drop (Suc k) rws) (?v (rws ! k) o2))"
    by (rule refines_fold) (rule refines_visit_row)
  ultimately have r: "fold ?v (drop (Suc k) rws) (?v (rws ! k) o2) ! i
      = fieldOID (field_map (s_fields sch) (insert_names sch s ! j))"
      "length (fold ?v (drop (Suc k) rws) (?v (rws ! k) o2)) = length oids"
    using o2(2) assms(6) fieldOID_nonzero by (simp_all add: refines_def)
  have "fold ?v rws o1 = fold ?v (drop (Suc k) rws) (?v (rws ! k) o2)"
    unfolding o2_def by (subst id_take_nth_drop [OF assms(2)]) simp
  with r show ?thesis
    using assms(1,6) True fieldOID_nonzero
    by (simp add: infer_oids_def visit_insert_def Let_def default_oids_nth o1_def [symmetric])
next
  case False
  obtain mid where "refines oids mid" "infer_oids sp (InsertStmt s) (Some sch) oids = default_oids mid"
    by (rule infer_oids_refines)
  with False assms(6) show ?thesis by (simp add: refines_def default_oids_nth)
qed

section \<open>Instances\<close>

definition demo_marked_insert :: insert_stmt where
  "demo_marked_insert = demo_insert\<lparr>ins_rows := Values
     [[SQLVal StrVal ''[1, 2]'', SQLVal IntVal ''7'', SQLVal StrVal (param_marker (Suc 0))],
      [SQLVal StrVal ''[3, 4]'', SQLVal StrVal (param_marker (Suc 1)), SQLVal StrVal (param_marker (Suc 0))]]\<rparr>"

theorem insert_parameter_type_witness:
  "infer_oids demo_parser (InsertStmt demo_marked_insert) (Some demo_schema) [0, 0] ! 1 = 20"
proof -
  let ?rows = "[[SQLVal StrVal ''[1, 2]'', SQLVal IntVal ''7'', SQLVal StrVal (param_marker (Suc 0))],
      [SQLVal StrVal ''[3, 4]'', SQLVal StrVal (param_marker (Suc 1)), SQLVal StrVal (param_marker (Suc 0))]]"
  have names: "insert_names demo_schema demo_marked_insert = [''v'', ''id'', ''name'']" by code_simp
  have first: "list_all (\<lambda>e. \<not> marks e 1) (concat (take 1 ?rows) @ take 1 (?rows ! 1))" by code_simp
  have rws: "ins_rows demo_marked_insert = Values ?rows" by (simp add: demo_marked_insert_def)
  have "infer_oids demo_parser (InsertStmt demo_marked_insert) (Some demo_schema) [0, 0] ! 1
      = (if [0, 0] ! 1 = (0::nat) then fieldOID (field_map (s_fields demo_schema) (insert_names demo_schema demo_marked_insert ! 1))
         else [0, 0] ! 1)"
  proof (rule insert_parameter_type [OF rws, where k = 1])
    show "\<forall>e \<in> set (concat (take 1 ?rows) @ take 1 (?rows ! 1)). \<not> marks e 1"
      using first unfolding list_all_iff .
  qed (simp_all add: demo_parser_def names)
  moreover have "fieldOID (field_map (s_fields demo_schema) ''id'') = 20" by code_simp
  ultimately show ?thesis by (simp add: names)
qed

end
