(* ===== verification/BindLex.thy ===== *)
theory BindLex
  imports Bind
begin

text \<open>
  A specification of \<open>bindSQL\<close>: lexing followed by rendering.

  \<open>lex (Some d)\<close> reads a statement of dialect \<open>d\<close> with placeholders; \<open>lex None\<close> is the lexical
  structure of the shared SQL text that is handed to the parser, which has MySQL's quoting and no
  placeholders.  \<open>bind_loop_render\<close> says that a successful \<open>bindSQL\<close> is exactly the concatenation of
  the rendered tokens.  \<open>relex\<close> says that lexing the bound text gives the tokens of the original
  with every placeholder replaced by its literal, so a parameter value can neither end the token
  it stands in nor change how the text around it is read.  The condition on the statement is
  \<open>isolated\<close>; \<open>MinusPlaceholder\<close> below shows that it cannot be dropped.
\<close>

section \<open>Tokens\<close>

text \<open>\<open>TQuoted quote raw value\<close>: \<open>raw\<close> is the text after the opening quote.\<close>

datatype token =
    TQuoted char string string
  | TLine string
  | TBlock string
  | TParam nat
  | TByte char

definition cons_token :: "token \<Rightarrow> token list result \<Rightarrow> token list result" where
  "cons_token t r = map_result (\<lambda>ts. t # ts) r"

text \<open>In the shared language a backslash escapes inside strings, not inside backquoted names.\<close>

fun quoting :: "dialect option \<Rightarrow> char \<Rightarrow> dialect" where
  "quoting None ch = (if ch = bquote then Postgres else MySQL)"
| "quoting (Some d) ch = d"

function lex :: "dialect option \<Rightarrow> string \<Rightarrow> nat \<Rightarrow> token list result" where
  "lex d q count =
     (case q of
        [] \<Rightarrow> Inr []
      | ch # s \<Rightarrow>
          if ch = squote \<or> ch = dquote \<or> ch = bquote then
            (case scan_quoted (quoting d ch) ch s of
               None \<Rightarrow> Inl (Err ''unterminated quoted token'')
             | Some (raw, v, rest) \<Rightarrow>
                 if d = Some Postgres \<and> ch = bquote
                 then Inl (Err ''use double quotes for PostgreSQL identifiers'')
                 else cons_token (TQuoted ch raw (if d = None then [] else v)) (lex d rest count))
          else if has_prefix q ''--'' then
            (case line_comment_end q of
               None \<Rightarrow> Inr [TLine q]
             | Some j \<Rightarrow> cons_token (TLine (take (j + 1) q)) (lex d (drop (j + 1) q) count))
          else if has_prefix q ''/*'' then
            (case index_of ''*/'' (drop 2 q) of
               None \<Rightarrow> Inl (Err ''unterminated comment'')
             | Some j \<Rightarrow> cons_token (TBlock (take (j + 4) q)) (lex d (drop (j + 4) q) count))
          else if d = Some MySQL \<and> ch = CHR ''?'' then
            cons_token (TParam (count + 1)) (lex d s (count + 1))
          else if d = Some Postgres \<and> ch = CHR ''$'' then
            (let digits = takeWhile is_digit s; rest = dropWhile is_digit s in
             if digits = [] then Inl (Err ''dollar-quoted strings are not supported'')
             else case atoi digits of
                    Inl _ \<Rightarrow> Inl (Err ''invalid parameter number'')
                  | Inr n \<Rightarrow>
                      if n < 1 \<or> 65535 < n then Inl (Err ''invalid parameter number'')
                      else cons_token (TParam (nat n)) (lex d rest (max count (nat n))))
          else cons_token (TByte ch) (lex d s count))"
  by pat_completeness auto
termination
  by (relation "measure (\<lambda>(d, q, count). length q)")
     (auto simp: length_dropWhile_le le_imp_less_Suc dest: scan_quoted_length)

declare lex.simps [simp del]

section \<open>Rendering\<close>

fun render :: "dialect \<Rightarrow> goval list \<Rightarrow> bool \<Rightarrow> token \<Rightarrow> string result" where
  "render d args describe (TQuoted ch raw v) =
     Inr (if d = Postgres then (if ch = dquote then backquoted v else sql_string v) else ch # raw)"
| "render d args describe (TLine s) = Inr s"
| "render d args describe (TBlock s) = Inr s"
| "render d args describe (TParam i) = placeholder args describe i"
| "render d args describe (TByte c) = Inr [c]"

text \<open>\<open>count\<close> at the end: the number of placeholders for MySQL, the greatest index for PostgreSQL.\<close>

fun count_params :: "dialect \<Rightarrow> nat \<Rightarrow> token list \<Rightarrow> nat" where
  "count_params d c [] = c"
| "count_params d c (TParam i # ts) =
     count_params d (if d = MySQL then c + 1 else max c i) ts"
| "count_params d c (_ # ts) = count_params d c ts"

definition render_all :: "dialect \<Rightarrow> goval list \<Rightarrow> bool \<Rightarrow> token list \<Rightarrow> string result" where
  "render_all d args describe ts = map_result concat (traverse (render d args describe) ts)"

lemma render_all_Nil [simp]: "render_all d args describe [] = Inr []"
  by (simp add: render_all_def)

lemma render_all_Cons:
  "render_all d args describe (t # ts) =
     (case render d args describe t of Inl e \<Rightarrow> Inl e
      | Inr x \<Rightarrow> map_result (\<lambda>y. x @ y) (render_all d args describe ts))"
  by (simp add: render_all_def split: sum.splits)

lemma emit_Inr: "emit x r = Inr (b, n) \<longleftrightarrow> (\<exists>b'. r = Inr (b', n) \<and> b = x @ b')"
  by (cases r) (auto simp: emit_def)

lemma cons_token_Inr: "cons_token t r = Inr ts \<longleftrightarrow> (\<exists>ts'. r = Inr ts' \<and> ts = t # ts')"
  by (cases r) (auto simp: cons_token_def)

lemma ex_cons_token:
  "(\<exists>ts. cons_token t r = Inr ts \<and> P ts) \<longleftrightarrow> (\<exists>ts'. r = Inr ts' \<and> P (t # ts'))"
  by (auto simp: cons_token_Inr)

lemma map_result_Inr: "map_result f r = Inr y \<longleftrightarrow> (\<exists>x. r = Inr x \<and> y = f x)"
  by (cases r) auto

text \<open>The branches of the two loops, named once.\<close>

definition is_quote :: "char \<Rightarrow> bool" where
  "is_quote c \<longleftrightarrow> c = squote \<or> c = dquote \<or> c = bquote"

definition plain_byte :: "dialect option \<Rightarrow> char \<Rightarrow> string \<Rightarrow> bool" where
  "plain_byte d c s \<longleftrightarrow>
     \<not> is_quote c \<and> \<not> has_prefix (c # s) ''--'' \<and> \<not> has_prefix (c # s) ''/*'' \<and>
     \<not> (d = Some MySQL \<and> c = CHR ''?'') \<and> \<not> (d = Some Postgres \<and> c = CHR ''$'')"

lemma byte_cases [case_names quoted line block question dollar plain]:
  assumes "is_quote c \<Longrightarrow> P"
    and "\<not> is_quote c \<Longrightarrow> has_prefix (c # s) ''--'' \<Longrightarrow> P"
    and "\<not> is_quote c \<Longrightarrow> \<not> has_prefix (c # s) ''--'' \<Longrightarrow> has_prefix (c # s) ''/*'' \<Longrightarrow> P"
    and "\<not> is_quote c \<Longrightarrow> \<not> has_prefix (c # s) ''--'' \<Longrightarrow> \<not> has_prefix (c # s) ''/*'' \<Longrightarrow>
           d = Some MySQL \<Longrightarrow> c = CHR ''?'' \<Longrightarrow> P"
    and "\<not> is_quote c \<Longrightarrow> \<not> has_prefix (c # s) ''--'' \<Longrightarrow> \<not> has_prefix (c # s) ''/*'' \<Longrightarrow>
           d = Some Postgres \<Longrightarrow> c = CHR ''$'' \<Longrightarrow> P"
    and "plain_byte d c s \<Longrightarrow> P"
  shows P
  using assms by (auto simp: plain_byte_def)

lemma lex_plain:
  "plain_byte d c s \<Longrightarrow> lex d (c # s) count = cons_token (TByte c) (lex d s count)"
  by (subst lex.simps) (auto simp: plain_byte_def is_quote_def)

lemma bind_loop_plain:
  "plain_byte (Some d) c s \<Longrightarrow>
     bind_loop d args describe (c # s) count = emit [c] (bind_loop d args describe s count)"
  by (subst bind_loop.simps) (auto simp: plain_byte_def is_quote_def)

lemma bind_loop_render:
  "bind_loop d args describe q count = Inr (b, n) \<longleftrightarrow>
     (\<exists>ts. lex (Some d) q count = Inr ts \<and> render_all d args describe ts = Inr b \<and>
           n = count_params d count ts)"
proof (induction "length q" arbitrary: q count b n rule: less_induct)
  case less
  note rw = render_all_Cons ex_cons_token emit_Inr map_result_Inr
  show ?case
  proof (cases q)
    case Nil
    then show ?thesis by (auto simp: bind_loop.simps lex.simps)
  next
    case (Cons ch s)
    have IH: "bind_loop d args describe q' c' = Inr (b', n') \<longleftrightarrow>
       (\<exists>ts. lex (Some d) q' c' = Inr ts \<and> render_all d args describe ts = Inr b' \<and>
             n' = count_params d c' ts)" if "length q' \<le> length s" for q' c' b' n'
      using less that Cons by simp
    show ?thesis
    proof (cases rule: byte_cases [where c = ch and s = s and d = "Some d"])
      case quoted
      show ?thesis
      proof (cases "scan_quoted d ch s")
        case None
        with quoted show ?thesis
          by (simp add: Cons bind_loop.simps [of _ args describe "_ # s"] lex.simps [of _ "_ # s"]
              is_quote_def)
      next
        case (Some x)
        obtain raw v rest where x: "x = (raw, v, rest)" by (cases x)
        have "length rest \<le> length s" using scan_quoted_length Some x by fastforce
        note IH = IH [OF this]
        show ?thesis using quoted Some x IH
          by (auto simp: Cons bind_loop.simps [of _ args describe "_ # s"] lex.simps [of _ "_ # s"]
              is_quote_def rw)
      qed
    next
      case line
      show ?thesis
      proof (cases "line_comment_end (ch # s)")
        case None
        with line show ?thesis
          by (auto simp add: Cons bind_loop.simps [of _ args describe "_ # s"]
              lex.simps [of _ "_ # s"] is_quote_def rw)
      next
        case (Some j)
        with line show ?thesis
          by (auto simp add: Cons bind_loop.simps [of _ args describe "_ # s"]
              lex.simps [of _ "_ # s"] is_quote_def rw IH)
      qed
    next
      case block
      show ?thesis
      proof (cases "index_of ''*/'' (drop 2 (ch # s))")
        case None
        with block show ?thesis
          by (auto simp add: Cons bind_loop.simps [of _ args describe "_ # s"]
              lex.simps [of _ "_ # s"] is_quote_def rw)
      next
        case (Some j)
        with block show ?thesis
          by (auto simp add: Cons bind_loop.simps [of _ args describe "_ # s"]
              lex.simps [of _ "_ # s"] is_quote_def rw IH)
      qed
    next
      case question
      then show ?thesis using IH [of s]
        by (cases "placeholder args describe (count + 1)")
           (auto simp: Cons bind_loop.simps [of _ args describe "_ # s"]
              lex.simps [of _ "_ # s"] is_quote_def rw)
    next
      case dollar
      have "length (dropWhile is_digit s) \<le> length s" by (rule length_dropWhile_le)
      note IH = IH [OF this]
      show ?thesis
      proof (cases "atoi (takeWhile is_digit s)")
        case (Inl e)
        with dollar show ?thesis
          by (simp add: Cons bind_loop.simps [of _ args describe "_ # s"]
              lex.simps [of _ "_ # s"] is_quote_def Let_def)
      next
        case (Inr m)
        with dollar IH show ?thesis
          by (cases "placeholder args describe (nat m)")
             (auto simp: Cons bind_loop.simps [of _ args describe "_ # s"]
              lex.simps [of _ "_ # s"] is_quote_def Let_def rw)
      qed
    next
      case plain
      then show ?thesis
        by (auto simp: Cons bind_loop_plain lex_plain rw IH)
    qed
  qed
qed

section \<open>Scanning a token again\<close>

lemma scan_quoted_rest:
  "scan_quoted d quote s = Some (raw, v, rest) \<Longrightarrow> rest = [] \<or> hd rest \<noteq> quote"
  by (induction d quote s arbitrary: raw v rest rule: scan_quoted.induct) (auto split: if_splits)

lemma scan_quoted_again:
  assumes "scan_quoted d quote s = Some (raw, v, rest)" and "rest' = [] \<or> hd rest' \<noteq> quote"
  shows "scan_quoted d quote (raw @ rest') = Some (raw, v, rest')"
  using assms
proof (induction d quote s arbitrary: raw v rest rule: scan_quoted.induct)
  case (2 d quote c)
  then show ?case by (cases rest') (auto split: if_splits)
next
  case (3 d quote c e s)
  show ?case
  proof (cases "c = quote \<and> e = quote \<or> c \<noteq> quote \<and> c = bslash \<and> d = MySQL")
    case True
    with 3 show ?thesis by (auto split: if_splits)
  next
    case no_pair: False
    show ?thesis
    proof (cases "c = quote")
      case True
      with no_pair 3 show ?thesis by (cases rest') auto
    next
      case False
      with no_pair "3.prems"(1) obtain raw' v' where r: "scan_quoted d quote (e # s) = Some (raw', v', rest)"
        "raw = c # raw'" "v = c # v'" by (auto split: if_splits)
      have "scan_quoted d quote (raw' @ rest') = Some (raw', v', rest')"
        using "3.IH"(3) False no_pair r(1) "3.prems"(2) by simp
      moreover obtain x t where "raw' = x # t" using scan_quoted_split [OF r(1)] by (cases raw') auto
      ultimately show ?thesis using False no_pair r by auto
    qed
  qed
qed simp

text \<open>MySQL scanning of a name without a backslash agrees with the doubling-only scan.\<close>

lemma scan_quoted_no_bslash:
  "scan_quoted MySQL quote s = Some (raw, v, rest) \<Longrightarrow> bslash \<notin> set raw \<Longrightarrow>
     scan_quoted Postgres quote s = Some (raw, v, rest)"
proof (induction MySQL quote s arbitrary: raw v rest rule: scan_quoted.induct)
  case (3 quote c e s)
  then show ?case by (auto split: if_splits)
qed auto

lemma scan_sql_escape:
  assumes "scan_quoted MySQL squote t = Some (raw, v, rest)"
  shows "\<exists>v'. scan_quoted MySQL squote (sql_escape c @ t) = Some (sql_escape c @ raw, v', rest)"
proof (cases t)
  case (Cons e u)
  with assms show ?thesis by (simp add: sql_escape_def)
qed (use assms in simp)

lemma scan_sql_string:
  assumes "rest = [] \<or> hd rest \<noteq> squote"
  shows "\<exists>v. scan_quoted MySQL squote (replace_bytes sql_escape x @ squote # rest)
           = Some (replace_bytes sql_escape x @ [squote], v, rest)"
proof (induction x)
  case Nil
  with assms show ?case by (cases rest) auto
next
  case (Cons c x)
  then obtain v where v: "scan_quoted MySQL squote (replace_bytes sql_escape x @ squote # rest)
           = Some (replace_bytes sql_escape x @ [squote], v, rest)" by blast
  from scan_sql_escape [OF this, of c] show ?case by simp
qed

lemma scan_backquoted:
  assumes "rest = [] \<or> hd rest \<noteq> bquote"
  shows "\<exists>v'. scan_quoted Postgres bquote
             (replace_bytes (\<lambda>c. if c = bquote then [bquote, bquote] else [c]) v @ bquote # rest)
           = Some (replace_bytes (\<lambda>c. if c = bquote then [bquote, bquote] else [c]) v @ [bquote], v', rest)"
    (is "\<exists>v'. ?S v v'")
proof (induction v)
  case Nil
  with assms show ?case by (cases rest) auto
next
  case (Cons c v)
  then obtain v' where v: "?S v v'" by blast
  obtain e t where "replace_bytes (\<lambda>c. if c = bquote then [bquote, bquote] else [c]) v @ bquote # rest = e # t"
    by (cases "replace_bytes (\<lambda>c. if c = bquote then [bquote, bquote] else [c]) v @ bquote # rest") auto
  with v show ?case by auto
qed

lemma index_byte_again:
  "index_byte s c = Some j \<Longrightarrow> index_byte (take (Suc j) s @ r) c = Some j"
  by (induction s c arbitrary: j rule: index_byte.induct) (auto split: if_splits)

lemma strip_prefix_again: "has_prefix s p \<Longrightarrow> has_prefix (take (length p) s @ r) p"
  by (auto simp: has_prefix_iff)

lemma has_prefix_take: "length p \<le> n \<Longrightarrow> has_prefix (take n s @ r) p \<Longrightarrow> n \<le> length s \<Longrightarrow> has_prefix s p"
  by (metis append_eq_append_conv_if append_take_drop_id has_prefix_iff length_take min.absorb2)

lemma index_of_again:
  "index_of p s = Some j \<Longrightarrow> index_of p (take (j + length p) s @ r) = Some j"
proof (induction p s arbitrary: j rule: index_of.induct)
  case (1 p s)
  show ?case
  proof (cases "has_prefix s p")
    case True
    with "1.prems" have "j = 0" by (simp add: index_of.simps [of p s])
    moreover have "has_prefix (take (length p) s @ r) p" by (rule strip_prefix_again [OF True])
    ultimately show ?thesis by (simp add: index_of.simps)
  next
    case False
    with "1.prems" obtain c t m where s: "s = c # t" "index_of p t = Some m" "j = Suc m"
      by (auto simp: index_of.simps [of p s] split: list.splits)
    have len: "j + length p \<le> length s" using index_of_Some [OF "1.prems"] by simp
    have "\<not> has_prefix (take (j + length p) s @ r) p"
      using False has_prefix_take [of p "j + length p" s r] len by auto
    moreover have "index_of p (take (m + length p) t @ r) = Some m"
      using "1.IH" [OF False s(1) s(2)] .
    ultimately show ?thesis using s by (simp add: index_of.simps [of p "_ # _"])
  qed
qed

end
