(* ===== verification/LiteralText.thy ===== *)
theory LiteralText
  imports Bind
begin

text \<open>
  The text of every literal other than a string: bytes that are letters, digits, dots and signs,
  with no two hyphens in a row and none at the end.  Such a text cannot open a quoted token or a
  comment, wherever it is written.
\<close>

definition literal_char :: "char \<Rightarrow> bool" where
  "literal_char c \<longleftrightarrow> is_word c \<or> c = CHR ''.'' \<or> c = CHR ''+'' \<or> c = CHR ''-''"

fun plain_text :: "string \<Rightarrow> bool" where
  "plain_text [] \<longleftrightarrow> True"
| "plain_text (c # s) \<longleftrightarrow>
     literal_char c \<and> (c = CHR ''-'' \<longrightarrow> s \<noteq> [] \<and> hd s \<noteq> CHR ''-'') \<and> plain_text s"

lemma plain_text_append: "plain_text s \<Longrightarrow> plain_text t \<Longrightarrow> plain_text (s @ t)"
  by (induction s) (auto simp: hd_append)

lemma plain_text_no_hyphen:
  "\<forall>c \<in> set s. literal_char c \<and> c \<noteq> CHR ''-'' \<Longrightarrow> plain_text s"
  by (induction s) auto

lemma digit_literal: "is_digit c \<Longrightarrow> literal_char c \<and> c \<noteq> CHR ''-''"
  using is_digit_no_sign by (auto simp: literal_char_def is_word_def)

lemma plain_text_digits: "\<forall>c \<in> set s. is_digit c \<Longrightarrow> plain_text s"
  using digit_literal by (blast intro: plain_text_no_hyphen)

lemma plain_text_hyphen:
  "\<forall>c \<in> set s. is_digit c \<Longrightarrow> s \<noteq> [] \<Longrightarrow> plain_text (CHR ''-'' # s)"
  using plain_text_digits [of s] digit_literal by (cases s) (auto simp: literal_char_def)

lemma plain_text_itoa: "plain_text (itoa i) \<and> itoa i \<noteq> []"
  using plain_text_hyphen [OF nat_dec_digits nat_dec_nonempty] plain_text_digits [OF nat_dec_digits]
  by (simp add: itoa_def del: plain_text.simps)

section \<open>Floating point text\<close>

lemma digit_at_digit: "\<forall>c \<in> set ds. is_digit c \<Longrightarrow> is_digit (digit_at ds i)"
  by (auto simp: digit_at_def is_digit_def)

lemma shortest_digits_digits: "\<forall>c \<in> set (fst (shortest_digits f m e)). is_digit c"
proof -
  have "set (rev (dropWhile P (rev (nat_dec d)))) \<subseteq> set (nat_dec d)" for P d
    using set_dropWhileD by fastforce
  moreover have "fst (shortest_digits f m e) = [] \<or>
      (\<exists>d. fst (shortest_digits f m e) = rev (dropWhile (\<lambda>c. c = CHR ''0'') (rev (nat_dec d))))"
    by (auto simp: shortest_digits_def Let_def split: prod.splits)
  ultimately show ?thesis
    using nat_dec_digits by (metis empty_iff list.set(1) subsetD)
qed

lemma plain_fmt_f:
  assumes ds: "\<forall>c \<in> set ds. is_digit c"
  shows "plain_text (fmt_f neg ds dp) \<and> fmt_f neg ds dp \<noteq> []"
proof -
  define ip where "ip = (if 0 < dp then map (\<lambda>i. digit_at ds (int i)) [0..<nat dp] else ''0'')"
  define fp where "fp = (if nat (int (length ds) - dp) = 0 then ''''
     else CHR ''.'' # map (\<lambda>i. digit_at ds (dp + int i)) [0..<nat (int (length ds) - dp)])"
  have ip: "\<forall>c \<in> set ip. is_digit c" "ip \<noteq> []"
    using digit_at_digit [OF ds] by (auto simp: ip_def is_digit_def)
  have "\<forall>c \<in> set fp. literal_char c \<and> c \<noteq> CHR ''-''"
    using digit_literal [OF digit_at_digit [OF ds]] by (auto simp: fp_def literal_char_def)
  then have "plain_text fp" by (rule plain_text_no_hyphen)
  moreover have "plain_text ((if neg then ''-'' else '''') @ ip)"
    using plain_text_hyphen [OF ip] plain_text_digits [OF ip(1)] by simp
  ultimately have "plain_text (((if neg then ''-'' else '''') @ ip) @ fp)"
    by (simp only: plain_text_append)
  then show ?thesis
    using ip by (simp add: fmt_f_def ip_def fp_def Let_def)
qed

lemma plain_fmt_e:
  assumes ds: "\<forall>c \<in> set ds. is_digit c"
  shows "plain_text (fmt_e neg ds dp) \<and> fmt_e neg ds dp \<noteq> []"
proof -
  define ex where "ex = (if ds = [] then 0 else dp - 1)"
  define digs where "digs = nat_dec (nat \<bar>ex\<bar>)"
  define et where "et = (if length digs < 2 then CHR ''0'' # digs else digs)"
  define fp where "fp = (if length ds \<le> 1 then '''' else CHR ''.'' # tl ds)"
  have et: "\<forall>c \<in> set et. is_digit c" "et \<noteq> []"
    using nat_dec_digits by (auto simp: et_def digs_def is_digit_def)
  have "plain_text ((if neg then ''-'' else '''') @ [digit_at ds 0])"
    using plain_text_hyphen [of "[digit_at ds 0]"] plain_text_digits [of "[digit_at ds 0]"]
      digit_at_digit [OF ds] by simp
  moreover have "plain_text fp"
    using digit_literal ds by (intro plain_text_no_hyphen)
      (cases ds, auto simp: fp_def literal_char_def)
  moreover have "plain_text ''e''"
    by (simp add: literal_char_def is_word_def is_ident_start_def is_lower_def)
  moreover have "plain_text ((if ex < 0 then ''-'' else ''+'') @ et)"
    using plain_text_hyphen [OF et] plain_text_digits [OF et(1)] by (simp add: literal_char_def)
  ultimately have "plain_text (((if neg then ''-'' else '''') @ [digit_at ds 0]) @ fp @ ''e'' @
      (if ex < 0 then ''-'' else ''+'') @ et)"
    by (simp only: plain_text_append)
  moreover have "fmt_e neg ds dp = ((if neg then ''-'' else '''') @ [digit_at ds 0]) @ fp @ ''e'' @
      (if ex < 0 then ''-'' else ''+'') @ et"
    by (simp only: fmt_e_def fp_def et_def digs_def ex_def Let_def append_assoc)
  ultimately show ?thesis by (simp del: plain_text.simps)
qed

lemma plain_format_float: "plain_text (format_float fmt_g f b) \<and> format_float fmt_g f b \<noteq> []"
proof (cases "decode_bits f b")
  case (FFin neg m e)
  then show ?thesis
    using plain_fmt_e plain_fmt_f shortest_digits_digits [of f m e]
    by (auto simp: format_float_def fmt_g_def split: prod.splits)
qed (simp_all add: format_float_def literal_char_def is_word_def is_ident_start_def
      is_lower_def is_upper_def)

section \<open>The literals\<close>

definition is_text :: "goval \<Rightarrow> bool" where
  "is_text v = (case v of GString _ \<Rightarrow> True | GBytes _ \<Rightarrow> True | _ \<Rightarrow> False)"

lemma sqlLiteral_text:
  "sqlLiteral v = Inr x \<Longrightarrow> is_text v \<Longrightarrow> \<exists>s. x = sql_string s \<and> (v = GString s \<or> v = GBytes s)"
  by (cases v) (auto simp: is_text_def)

lemma sqlLiteral_plain:
  assumes "sqlLiteral v = Inr x" and "\<not> is_text v"
  shows "plain_text x \<and> x \<noteq> []"
proof -
  have "plain_text ''null''" "plain_text ''true''" "plain_text ''false''"
    by (simp_all add: literal_char_def is_word_def is_ident_start_def is_lower_def)
  with assms plain_text_itoa plain_format_float show ?thesis
    by (cases v) (auto simp: is_text_def sprint_float32_def sprint_float64_def
        simp del: plain_text.simps split: if_splits)
qed

end
