(* ===== verification/BindSafe.thy ===== *)
theory BindSafe
  imports BindLex LiteralText
begin

text \<open>
  Parameter values cannot change the lexical structure of a bound statement.

  \<open>out_tokens\<close> says which tokens of the shared SQL text stand for a token of the client's statement;
  \<open>isolated\<close> is the condition on the statement alone under which the bound text is read as exactly
  those tokens.
\<close>

section \<open>The intended reading\<close>

definition string_token :: "string \<Rightarrow> token" where
  "string_token x = TQuoted squote (replace_bytes sql_escape x @ [squote]) []"

definition name_token :: "string \<Rightarrow> token" where
  "name_token x =
     TQuoted bquote (replace_bytes (\<lambda>c. if c = bquote then [bquote, bquote] else [c]) x @ [bquote]) []"

fun literal_tokens :: "goval \<Rightarrow> token list" where
  "literal_tokens (GString x) = [string_token x]"
| "literal_tokens (GBytes x) = [string_token x]"
| "literal_tokens v = (case sqlLiteral v of Inl _ \<Rightarrow> [] | Inr x \<Rightarrow> map TByte x)"

fun out_tokens :: "dialect \<Rightarrow> goval list \<Rightarrow> bool \<Rightarrow> token \<Rightarrow> token list" where
  "out_tokens d args describe (TQuoted ch raw v) =
     [if d = Postgres then (if ch = dquote then name_token v else string_token v)
      else TQuoted ch raw []]"
| "out_tokens d args describe (TParam i) =
     (if describe then [TByte (CHR ''0'')] else literal_tokens (args ! (i - 1)))"
| "out_tokens d args describe t = [t]"

text \<open>Neighbours a literal could merge with, and backslashes in MySQL names.\<close>

fun clash :: "token \<Rightarrow> token \<Rightarrow> bool" where
  "clash (TParam i) (TParam j) = True"
| "clash (TParam i) (TQuoted _ _ _) = True"
| "clash (TQuoted _ _ _) (TParam i) = True"
| "clash (TByte c) (TParam i) = (c = CHR ''-'')"
| "clash _ _ = False"

fun isolated :: "token list \<Rightarrow> bool" where
  "isolated (t # u # ts) = (\<not> clash t u \<and> isolated (u # ts))"
| "isolated _ = True"

fun name_ok :: "dialect \<Rightarrow> token \<Rightarrow> bool" where
  "name_ok d (TQuoted ch raw v) = (d = MySQL \<and> ch = bquote \<longrightarrow> bslash \<notin> set raw)"
| "name_ok d _ = True"

lemma isolated_tl: "isolated (t # ts) \<Longrightarrow> isolated ts"
  by (cases ts) auto

section \<open>First bytes\<close>

text \<open>How the first token of a statement fixes its first byte.\<close>

fun token_head :: "char \<Rightarrow> token \<Rightarrow> bool" where
  "token_head y (TQuoted ch _ _) = (y = ch \<and> is_quote y)"
| "token_head y (TLine l) = (y = CHR ''-'' \<and> l \<noteq> [] \<and> hd l = CHR ''-'')"
| "token_head y (TBlock l) = (y = CHR ''/'' \<and> l \<noteq> [] \<and> hd l = CHR ''/'')"
| "token_head y (TParam _) = (y = CHR ''?'' \<or> y = CHR ''$'')"
| "token_head y (TByte c) = (y = c \<and> \<not> is_quote y)"

lemma prefix2: "has_prefix (c # s) [a, b] \<longleftrightarrow> c = a \<and> s \<noteq> [] \<and> hd s = b"
  by (cases s) (auto simp: has_prefix_def)

lemma lex_head:
  assumes "lex d (y # s) count = Inr ts"
  shows "\<exists>t ts'. ts = t # ts' \<and> token_head y t"
  using assms
proof (cases rule: byte_cases [where c = y and s = s and d = d])
  case dollar
  with assms show ?thesis
    by (auto simp: lex.simps [of _ "_ # s"] is_quote_def cons_token_Inr Let_def
        split: sum.splits if_splits)
next
  case plain
  with assms show ?thesis by (auto simp: lex_plain cons_token_Inr plain_byte_def)
qed (auto simp: lex.simps [of _ "_ # s"] is_quote_def cons_token_Inr prefix2
      split: option.splits if_splits)

lemma render_head:
  assumes "token_head y t" and "render d args describe t = Inr x" and "\<forall>i. t \<noteq> TParam i"
  shows "x \<noteq> [] \<and> (is_quote y \<longrightarrow> is_quote (hd x)) \<and> (\<not> is_quote y \<longrightarrow> hd x = y) \<and>
    (d = MySQL \<longrightarrow> hd x = y) \<and> (d = Postgres \<longrightarrow> y = dquote \<longrightarrow> hd x = bquote) \<and>
    (d = Postgres \<longrightarrow> y = squote \<longrightarrow> hd x = squote)"
  using assms by (cases t; cases d) (auto simp: backquoted_def sql_string_def is_quote_def split: if_splits)

lemma render_param_head:
  assumes "render d args describe (TParam i) = Inr x"
  shows "x \<noteq> [] \<and> (hd x = squote \<or> plain_text x)"
proof (cases describe)
  case True
  with assms show ?thesis by (auto simp: placeholder_def literal_char_def is_word_def is_digit_def)
next
  case False
  with assms have "sqlLiteral (args ! (i - 1)) = Inr x"
    by (auto simp: placeholder_def split: if_splits)
  then show ?thesis
    using sqlLiteral_plain sqlLiteral_text
    by (cases "is_text (args ! (i - 1))") (fastforce simp: sql_string_def)+
qed

text \<open>
  The first byte of the rendering of what follows a token: it is a quote or a comment opener only
  where the client's text has one, given that no placeholder is next to a clashing token.
\<close>

lemma next_byte:
  assumes l: "lex (Some d) s c = Inr ts" and r: "render_all d args describe ts = Inr b"
    and b: "b \<noteq> []"
  shows "s \<noteq> [] \<and> ts \<noteq> [] \<and>
    ((\<exists>i ts'. ts = TParam i # ts' \<and> (hd b = squote \<or> literal_char (hd b))) \<or>
     (\<forall>i. hd ts \<noteq> TParam i) \<and> token_head (hd s) (hd ts) \<and>
       (\<not> is_quote (hd s) \<longrightarrow> hd b = hd s) \<and> (is_quote (hd s) \<longrightarrow> is_quote (hd b)) \<and>
       (d = MySQL \<longrightarrow> hd b = hd s) \<and> (d = Postgres \<longrightarrow> hd s = dquote \<longrightarrow> hd b = bquote) \<and>
       (d = Postgres \<longrightarrow> hd s = squote \<longrightarrow> hd b = squote))"
proof -
  obtain y u where s: "s = y # u" using l r b by (cases s) (auto simp: lex.simps)
  obtain t ts' where ts: "ts = t # ts'" and h: "token_head y t" using lex_head l s by blast
  from r ts obtain x b' where x: "render d args describe t = Inr x" and b': "b = x @ b'"
    by (auto simp: render_all_Cons map_result_Inr split: sum.splits)
  show ?thesis
  proof (cases "\<exists>i. t = TParam i")
    case True
    with x render_param_head [of d args describe _ x] have "x \<noteq> []" "hd x = squote \<or> plain_text x"
      by auto
    then show ?thesis using True ts b' s by (cases x) auto
  next
    case False
    with render_head [OF h x] show ?thesis using s ts b' h by (auto simp: hd_append)
  qed
qed

section \<open>Re-lexing\<close>

lemma lex_quoted_None:
  assumes "is_quote ch" and "scan_quoted (quoting None ch) ch (raw @ rest) = Some (raw, v, rest)"
  shows "lex None (ch # raw @ rest) count = cons_token (TQuoted ch raw []) (lex None rest count)"
  using assms by (subst lex.simps) (simp add: is_quote_def)

lemma lex_string_token:
  assumes "rest = [] \<or> hd rest \<noteq> squote"
  shows "lex None (sql_string x @ rest) count = cons_token (string_token x) (lex None rest count)"
proof -
  obtain v where "scan_quoted MySQL squote (replace_bytes sql_escape x @ squote # rest)
    = Some (replace_bytes sql_escape x @ [squote], v, rest)"
    using scan_sql_string [OF assms] by blast
  then show ?thesis
    using lex_quoted_None [of squote "replace_bytes sql_escape x @ [squote]" rest v count]
    by (simp add: sql_string_def string_token_def is_quote_def)
qed

lemma lex_name_token:
  assumes "rest = [] \<or> hd rest \<noteq> bquote"
  shows "lex None (backquoted x @ rest) count = cons_token (name_token x) (lex None rest count)"
proof -
  let ?r = "replace_bytes (\<lambda>c. if c = bquote then [bquote, bquote] else [c]) x @ [bquote]"
  obtain v where "scan_quoted Postgres bquote (?r @ rest) = Some (?r, v, rest)"
    using scan_backquoted [OF assms, of x] by auto
  then show ?thesis
    using lex_quoted_None [of bquote ?r rest v count]
    by (simp add: backquoted_def name_token_def is_quote_def)
qed

definition cons_tokens :: "token list \<Rightarrow> token list result \<Rightarrow> token list result" where
  "cons_tokens us r = map_result (\<lambda>ts. us @ ts) r"

lemma cons_tokens_simps [simp]:
  "cons_tokens [] r = r"
  "cons_tokens (u # us) r = cons_token u (cons_tokens us r)"
  "cons_tokens us (Inr ts) = Inr (us @ ts)"
  by (cases r; simp add: cons_tokens_def cons_token_def)+

lemma cons_token_Inr_eq [simp]: "cons_token t (Inr ts) = Inr (t # ts)"
  by (simp add: cons_token_def)

lemma lex_plain_text:
  "plain_text x \<Longrightarrow> lex None (x @ rest) count = cons_tokens (map TByte x) (lex None rest count)"
proof (induction x)
  case (Cons c x)
  have "plain_byte None c (x @ rest)"
    using Cons.prems
    by (auto simp: plain_byte_def prefix2 literal_char_def is_quote_def is_word_def
        is_ident_start_def is_lower_def is_upper_def is_digit_def)
  with Cons show ?case by (simp add: lex_plain)
qed simp

lemma lex_literal:
  assumes r: "render d args describe (TParam i) = Inr x" and "rest = [] \<or> hd rest \<noteq> squote"
  shows "lex None (x @ rest) count
           = cons_tokens (out_tokens d args describe (TParam i)) (lex None rest count)"
proof (cases describe)
  case True
  with r have "x = ''0''" by (simp add: placeholder_def)
  then show ?thesis
    using lex_plain_text [of "''0''" rest count] True
    by (simp add: literal_char_def is_word_def is_digit_def)
next
  case False
  with r have l: "sqlLiteral (args ! (i - 1)) = Inr x"
    by (auto simp: placeholder_def split: if_splits)
  show ?thesis
  proof (cases "is_text (args ! (i - 1))")
    case True
    with sqlLiteral_text [OF l] obtain s where
      "x = sql_string s" "args ! (i - 1) = GString s \<or> args ! (i - 1) = GBytes s" by blast
    with False lex_string_token [OF assms(2), of s count] show ?thesis by auto
  next
    case t: False
    have "literal_tokens (args ! (i - 1)) = map TByte x"
      using t l by (cases "args ! (i - 1)") (auto simp: is_text_def)
    with False lex_plain_text sqlLiteral_plain [OF l t] show ?thesis by simp
  qed
qed

lemma lex_line_None:
  assumes "has_prefix l ''--''" "line_comment_end (l @ b) = Some j" "j + 1 = length l"
  shows "lex None (l @ b) count = cons_token (TLine l) (lex None b count)"
proof -
  from assms(1) obtain l' where l: "l = CHR ''-'' # CHR ''-'' # l'" by (auto simp: has_prefix_iff)
  have "take (Suc j) (l @ b) = l" "drop (Suc j) (l @ b) = b" using assms(3) by simp_all
  then show ?thesis
    using assms(2) unfolding l
    by (subst lex.simps) (simp add: has_prefix_def)
qed

lemma lex_block_None:
  assumes "has_prefix l ''/*''" "index_of ''*/'' (drop 2 (l @ b)) = Some j" "j + 4 = length l"
  shows "lex None (l @ b) count = cons_token (TBlock l) (lex None b count)"
proof -
  from assms(1) obtain l' where l: "l = CHR ''/'' # CHR ''*'' # l'" by (auto simp: has_prefix_iff)
  have "take (j + 4) (l @ b) = l" "drop (j + 4) (l @ b) = b" using assms(3) by simp_all
  then show ?thesis
    using assms(2) unfolding l
    by (subst lex.simps) (simp add: has_prefix_def)
qed

text \<open>What may follow a token in the bound text.\<close>

lemma token_head_quote: "token_head y t \<Longrightarrow> is_quote y \<Longrightarrow> \<exists>raw v. t = TQuoted y raw v"
  by (cases t) (auto simp: is_quote_def)

lemma lex_postgres_bquote: "lex (Some Postgres) (bquote # s) c \<noteq> Inr ts"
  by (subst lex.simps) (auto split: option.splits)

lemma after_quoted:
  assumes "lex (Some d) s c = Inr ts" "render_all d args describe ts = Inr b"
    and "isolated (TQuoted ch raw v # ts)" and "s = [] \<or> hd s \<noteq> ch" and "is_quote ch"
    and "d = Postgres \<Longrightarrow> ch \<noteq> bquote"
  shows "b = [] \<or> hd b \<noteq> (if d = Postgres \<and> ch = dquote then bquote else ch)"
proof (rule ccontr)
  assume n: "\<not> ?thesis"
  then have b: "b \<noteq> []" and h: "hd b = (if d = Postgres \<and> ch = dquote then bquote else ch)" by auto
  note nb = next_byte [OF assms(1,2) b]
  then have q: "(\<not> is_quote (hd s) \<longrightarrow> hd b = hd s) \<and> (d = MySQL \<longrightarrow> hd b = hd s) \<and>
      (d = Postgres \<longrightarrow> hd s = dquote \<longrightarrow> hd b = bquote) \<and>
      (d = Postgres \<longrightarrow> hd s = squote \<longrightarrow> hd b = squote)" "s \<noteq> []"
    using assms(3) by auto
  have "is_quote (hd b)" using h assms(5) by (auto simp: is_quote_def)
  then have "is_quote (hd s)" using q by auto
  moreover have "d = Postgres \<Longrightarrow> hd s \<noteq> bquote"
    using lex_postgres_bquote [of "tl s" c ts] assms(1) q(2) by (cases s) auto
  ultimately show False
    using q h assms(4,5,6) by (cases d) (auto simp: is_quote_def)
qed

lemma after_param:
  assumes "lex (Some d) s c = Inr ts" "render_all d args describe ts = Inr b"
    and "isolated (TParam i # ts)"
  shows "b = [] \<or> hd b \<noteq> squote"
proof (rule ccontr)
  assume n: "\<not> ?thesis"
  then have b: "b \<noteq> []" and h: "hd b = squote" by auto
  note nb = next_byte [OF assms(1,2) b]
  then have "token_head (hd s) (hd ts)" "ts \<noteq> []" "\<not> is_quote (hd s) \<longrightarrow> hd b = hd s"
    using assms(3) by auto
  moreover from this(1,2) have "\<not> is_quote (hd s)"
    using token_head_quote [of "hd s" "hd ts"] assms(3) by (cases ts) auto
  ultimately show False using h by (auto simp: is_quote_def)
qed

lemma after_byte:
  assumes "lex (Some d) s c = Inr ts" "render_all d args describe ts = Inr b"
    and "isolated (TByte ch # ts)" and pb: "plain_byte (Some d) ch s"
  shows "plain_byte None ch b"
proof -
  have "\<not> has_prefix (ch # b) [ch, x]" if x: "x = CHR ''-'' \<and> ch = x \<or> x = CHR ''*''"
    and np: "\<not> has_prefix (ch # s) [ch, x]" for x
  proof
    assume "has_prefix (ch # b) [ch, x]"
    then have b: "b \<noteq> []" "hd b = x" by (auto simp: prefix2)
    note nb = next_byte [OF assms(1,2) b(1)]
    have nq: "x \<noteq> squote" "\<not> is_quote x" using x by (auto simp: is_quote_def)
    then have "\<not> is_quote (hd s) \<longrightarrow> hd b = hd s" "is_quote (hd s) \<longrightarrow> is_quote (hd b)" "s \<noteq> []"
      using nb assms(3) x b(2)
      by (auto simp: literal_char_def is_word_def is_ident_start_def is_lower_def is_upper_def is_digit_def)
    then show False using np b nq by (auto simp: prefix2)
  qed
  from this [of "CHR ''-''"] this [of "CHR ''*''"] pb show ?thesis
    by (auto simp: plain_byte_def prefix2)
qed

theorem relex:
  assumes "lex (Some d) q c = Inr ts" and "render_all d args describe ts = Inr b"
    and "isolated ts" and "\<forall>t \<in> set ts. name_ok d t"
  shows "lex None b c' = Inr (concat (map (out_tokens d args describe) ts))"
  using assms
proof (induction "length q" arbitrary: q c ts b c' rule: less_induct)
  case less
  show ?case
  proof (cases q)
    case Nil
    with less.prems show ?thesis by (auto simp: lex.simps)
  next
    case (Cons ch s)
    have IH: "lex None b' c'' = Inr (concat (map (out_tokens d args describe) ts'))"
      if "lex (Some d) q' c0 = Inr ts'" "length q' \<le> length s" "render_all d args describe ts' = Inr b'"
        "ts = t # ts'" for q' c0 ts' b' c'' t
      using less.hyps [of q' c0 ts' b' c''] that less.prems(3,4) Cons isolated_tl by auto
    obtain t ts' where ts: "ts = t # ts'" using lex_head less.prems(1) Cons by blast
    obtain x b' where x: "render d args describe t = Inr x" and b: "b = x @ b'"
      and b': "render_all d args describe ts' = Inr b'"
      using less.prems(2) ts by (auto simp: render_all_Cons map_result_Inr split: sum.splits)
    show ?thesis
    proof (cases rule: byte_cases [where c = ch and s = s and d = "Some d"])
      case quoted
      then obtain raw v rest where sc: "scan_quoted d ch s = Some (raw, v, rest)"
        and t: "t = TQuoted ch raw v" and l: "lex (Some d) rest c = Inr ts'"
        and np: "d = Postgres \<Longrightarrow> ch \<noteq> bquote"
        using less.prems(1) Cons ts
        by (auto simp: lex.simps [of _ "_ # s"] is_quote_def cons_token_Inr split: option.splits if_splits)
      have len: "length rest \<le> length s" using scan_quoted_length [OF sc] by simp
      have nb: "b' = [] \<or> hd b' \<noteq> (if d = Postgres \<and> ch = dquote then bquote else ch)"
        using after_quoted [OF l b' _ _ quoted np, of raw v] less.prems(3) ts t scan_quoted_rest [OF sc]
        by simp
      note ih = IH [OF l len b' ts]
      show ?thesis
      proof (cases d)
        case MySQL
        have "scan_quoted (quoting None ch) ch s = Some (raw, v, rest)"
          using sc MySQL scan_quoted_no_bslash [of ch s raw v rest] less.prems(4) ts t by auto
        then have "scan_quoted (quoting None ch) ch (raw @ b') = Some (raw, v, b')"
          using nb MySQL by (intro scan_quoted_again) auto
        from lex_quoted_None [OF quoted this] ih show ?thesis
          using x t b ts MySQL by auto
      next
        case Postgres
        then have "ch = dquote \<or> ch = squote" using quoted np by (auto simp: is_quote_def)
        then show ?thesis
          using x t b ts Postgres ih nb lex_name_token [of b' v] lex_string_token [of b' v] by auto
      qed
    next
      case line
      show ?thesis
      proof (cases "line_comment_end (ch # s)")
        case None
        with line less.prems(1,2) Cons have "ts = [TLine q]" "b = q"
          by (auto simp: lex.simps [of _ "_ # s"] is_quote_def render_all_Cons)
        with line None Cons show ?thesis
          by (simp add: lex.simps [of _ "_ # s"] is_quote_def)
      next
        case (Some j)
        define l where "l = take (j + 1) q"
        from Some line less.prems(1) Cons ts have t: "t = TLine l"
          and lx: "lex (Some d) (drop (j + 1) q) c = Inr ts'"
          by (auto simp: lex.simps [of _ "_ # s"] is_quote_def cons_token_Inr l_def)
        have j: "j < length q" "q ! j = CHR 0x0A"
          using index_byte_Some [of q "CHR 0x0A" j] Some Cons by (auto simp only: line_comment_end_def)
        obtain u where q: "q = CHR ''-'' # CHR ''-'' # u" using line Cons by (auto simp: has_prefix_iff)
        with j have "2 \<le> j" by (cases j; cases "j - 1") auto
        with q have p: "has_prefix l ''--''"
          by (cases j; cases "j - 1") (auto simp: l_def has_prefix_def)
        have e: "line_comment_end (l @ b') = Some j"
          using index_byte_again [of q "CHR 0x0A" j b'] Some Cons
          by (simp only: line_comment_end_def l_def Suc_eq_plus1)
        have "j + 1 = length l" using j by (simp add: l_def)
        from lex_line_None [OF p e this] IH [OF lx _ b' ts] show ?thesis
          using x t b ts Cons by simp
      qed
    next
      case block
      then obtain j where j: "index_of ''*/'' (drop 2 q) = Some j"
        and t: "t = TBlock (take (j + 4) q)" and lx: "lex (Some d) (drop (j + 4) q) c = Inr ts'"
        using less.prems(1) Cons ts
        by (auto simp: lex.simps [of _ "_ # s"] is_quote_def cons_token_Inr split: option.splits)
      define l where "l = take (j + 4) q"
      have len: "j + 4 \<le> length q" using index_of_Some [OF j] block Cons
        by (auto simp: has_prefix_iff)
      obtain r where q: "q = CHR ''/'' # CHR ''*'' # r" using block Cons by (auto simp: has_prefix_iff)
      have "j + 4 = Suc (Suc (j + 2))" by simp
      then have "l = CHR ''/'' # CHR ''*'' # take (j + 2) r"
        unfolding l_def q by (simp only: take_Suc_Cons)
      then have p: "has_prefix l ''/*''" by (simp add: has_prefix_def)
      have "drop 2 (l @ b') = take (j + length ''*/'') (drop 2 q) @ b'"
        using len by (simp add: l_def drop_take)
      then have e: "index_of ''*/'' (drop 2 (l @ b')) = Some j"
        using index_of_again [OF j] by simp
      have "j + 4 = length l" using len by (simp add: l_def)
      from lex_block_None [OF p e this] IH [OF lx _ b' ts] show ?thesis
        using x t b ts Cons by (simp add: l_def)
    next
      case question
      then have t: "t = TParam (c + 1)" and lx: "lex (Some d) s (c + 1) = Inr ts'"
        using less.prems(1) Cons ts
        by (auto simp: lex.simps [of _ "_ # s"] is_quote_def cons_token_Inr)
      have "b' = [] \<or> hd b' \<noteq> squote" using after_param [OF lx b'] less.prems(3) ts t by blast
      from lex_literal [OF x [unfolded t] this] IH [OF lx _ b' ts] show ?thesis
        using b ts t by simp
    next
      case dollar
      then obtain n where t: "t = TParam n"
        and lx: "\<exists>c'. lex (Some d) (dropWhile is_digit s) c' = Inr ts'"
        using less.prems(1) Cons ts
        by (auto simp: lex.simps [of _ "_ # s"] is_quote_def cons_token_Inr Let_def
            split: sum.splits if_splits)
      from lx obtain c1 where lx: "lex (Some d) (dropWhile is_digit s) c1 = Inr ts'" by blast
      have "b' = [] \<or> hd b' \<noteq> squote" using after_param [OF lx b'] less.prems(3) ts t by blast
      from lex_literal [OF x [unfolded t] this] IH [OF lx length_dropWhile_le b' ts] show ?thesis
        using b ts t by simp
    next
      case plain
      then have t: "t = TByte ch" and lx: "lex (Some d) s c = Inr ts'"
        using less.prems(1) Cons ts by (auto simp: lex_plain cons_token_Inr)
      have "plain_byte None ch b'" using after_byte [OF lx b' _ plain] less.prems(3) ts t by blast
      moreover have "x = [ch]" using x t by simp
      ultimately show ?thesis
        using lex_plain [of None ch b'] IH [OF lx _ b' ts] b ts t by simp
    qed
  qed
qed

end
