(* ===== verification/BindProps.thy ===== *)
theory BindProps
  imports BindSafe
begin

text \<open>
  What \<open>bindSQL\<close> promises its callers: the transports prepare a statement once (\<open>describe\<close>) and
  bind it many times.
\<close>

section \<open>Reading a string literal back\<close>

text \<open>
  MySQL's reading of the body of a single-quoted string: a doubled quote, and the escapes the
  server documents; a backslash before any other byte is dropped.
\<close>

definition sql_unescape :: "char \<Rightarrow> char" where
  "sql_unescape c =
     (if c = CHR ''0'' then CHR 0x00 else if c = CHR ''b'' then CHR 0x08
      else if c = CHR ''n'' then CHR 0x0A else if c = CHR ''r'' then CHR 0x0D
      else if c = CHR ''t'' then CHR 0x09 else if c = CHR ''Z'' then CHR 0x1A else c)"

fun read_sql_body :: "string \<Rightarrow> (string \<times> string) option" where
  "read_sql_body (c # d # s) =
     (if c = squote then
        (if d = squote then map_option (\<lambda>(x, r). (squote # x, r)) (read_sql_body s)
         else Some ([], d # s))
      else if c = bslash then map_option (\<lambda>(x, r). (sql_unescape d # x, r)) (read_sql_body s)
      else map_option (\<lambda>(x, r). (c # x, r)) (read_sql_body (d # s)))"
| "read_sql_body [c] = (if c = squote then Some ([], []) else None)"
| "read_sql_body [] = None"

definition read_sql_string :: "string \<Rightarrow> (string \<times> string) option" where
  "read_sql_string s = (case s of [] \<Rightarrow> None | c # t \<Rightarrow> if c = squote then read_sql_body t else None)"

definition no_quote_next :: "string \<Rightarrow> bool" where
  "no_quote_next s \<longleftrightarrow> s = [] \<or> hd s \<noteq> squote"

lemma read_sql_escape:
  assumes "read_sql_body t = Some (x, rest)"
  shows "read_sql_body (sql_escape c @ t) = Some (c # x, rest)"
proof (cases t)
  case (Cons e u)
  with assms show ?thesis by (simp add: sql_escape_def sql_unescape_def)
qed (use assms in simp)

lemma read_sql_body_escaped:
  "no_quote_next rest \<Longrightarrow> read_sql_body (replace_bytes sql_escape x @ squote # rest) = Some (x, rest)"
proof (induction x)
  case Nil
  then show ?case by (cases rest) (auto simp: no_quote_next_def)
next
  case (Cons c x)
  with read_sql_escape show ?case by simp
qed

interpretation sql_lit: embedded_codec sql_string read_sql_string no_quote_next
  by unfold_locales (simp add: sql_string_def read_sql_string_def read_sql_body_escaped)

text \<open>Backquoted names: only the doubled backquote is special.\<close>

fun read_name_body :: "string \<Rightarrow> (string \<times> string) option" where
  "read_name_body (c # d # s) =
     (if c = bquote then
        (if d = bquote then map_option (\<lambda>(x, r). (bquote # x, r)) (read_name_body s)
         else Some ([], d # s))
      else map_option (\<lambda>(x, r). (c # x, r)) (read_name_body (d # s)))"
| "read_name_body [c] = (if c = bquote then Some ([], []) else None)"
| "read_name_body [] = None"

definition read_name :: "string \<Rightarrow> (string \<times> string) option" where
  "read_name s = (case s of [] \<Rightarrow> None | c # t \<Rightarrow> if c = bquote then read_name_body t else None)"

definition no_bquote_next :: "string \<Rightarrow> bool" where
  "no_bquote_next s \<longleftrightarrow> s = [] \<or> hd s \<noteq> bquote"

lemma read_name_body_doubled:
  "no_bquote_next rest \<Longrightarrow>
     read_name_body (replace_bytes (\<lambda>c. if c = bquote then [bquote, bquote] else [c]) x @ bquote # rest)
       = Some (x, rest)"
proof (induction x)
  case Nil
  then show ?case by (cases rest) (auto simp: no_bquote_next_def)
next
  case (Cons c x)
  let ?t = "replace_bytes (\<lambda>c. if c = bquote then [bquote, bquote] else [c]) x @ bquote # rest"
  obtain e u where "?t = e # u" by (cases ?t) auto
  with Cons show ?case by auto
qed

interpretation sql_name: embedded_codec backquoted read_name no_bquote_next
  by unfold_locales (simp add: backquoted_def read_name_def read_name_body_doubled)

section \<open>Counting placeholders\<close>

lemma count_params_ge: "c \<le> count_params d c ts"
  by (induction d c ts rule: count_params.induct) (auto split: if_splits)

lemma count_params_index:
  "TParam i \<in> set ts \<Longrightarrow> d = Postgres \<Longrightarrow> i \<le> count_params d c ts"
proof (induction d c ts rule: count_params.induct)
  case (2 d c j ts)
  then show ?case using count_params_ge [of "max c j" d ts] by auto
qed auto

text \<open>Every placeholder of a lexed statement has an index between 1 and the final count.\<close>

lemma lex_param_index:
  "lex (Some d) q c = Inr ts \<Longrightarrow> TParam i \<in> set ts \<Longrightarrow> 1 \<le> i \<and> i \<le> count_params d c ts"
proof (induction "length q" arbitrary: q c ts rule: less_induct)
  case less
  show ?case
  proof (cases q)
    case Nil
    with less.prems show ?thesis by (simp add: lex.simps)
  next
    case (Cons ch s)
    have IH: "1 \<le> i \<and> i \<le> count_params d c0 ts'"
      if "lex (Some d) q' c0 = Inr ts'" "TParam i \<in> set ts'" "length q' \<le> length s" for q' c0 ts'
      using less.hyps [of q' c0 ts'] that Cons by simp
    show ?thesis
    proof (cases rule: byte_cases [where c = ch and s = s and d = "Some d"])
      case quoted
      then obtain raw v rest ts' where sc: "scan_quoted d ch s = Some (raw, v, rest)"
        and l: "lex (Some d) rest c = Inr ts'" and "ts = TQuoted ch raw v # ts'"
        using less.prems(1) Cons
        by (auto simp: lex.simps [of _ "_ # s"] is_quote_def cons_token_Inr split: option.splits if_splits)
      with IH [OF l] scan_quoted_length [OF sc] less.prems(2) show ?thesis by auto
    next
      case line
      then have "(\<forall>i. TParam i \<notin> set ts) \<or> (\<exists>t' ts' j. (\<forall>i. t' \<noteq> TParam i) \<and>
          lex (Some d) (drop j s) c = Inr ts' \<and> ts = t' # ts')"
        using less.prems(1) Cons
        by (auto simp: lex.simps [of _ "_ # s"] is_quote_def cons_token_Inr split: option.splits)
      then show ?thesis
      proof
        assume "\<exists>t' ts' j. (\<forall>i. t' \<noteq> TParam i) \<and> lex (Some d) (drop j s) c = Inr ts' \<and> ts = t' # ts'"
        then obtain t' ts' j where "\<forall>i. t' \<noteq> TParam i" "lex (Some d) (drop j s) c = Inr ts'"
          "ts = t' # ts'" by blast
        with less.prems(2) IH [of "drop j s" c ts'] show ?thesis by (cases t') auto
      qed (use less.prems(2) in blast)
    next
      case block
      have drop4: "drop (n + 4) (ch # s) = drop (n + 3) s" for n
        by (simp add: eval_nat_numeral)
      from block have "(\<forall>i. TParam i \<notin> set ts) \<or> (\<exists>t' ts' j. (\<forall>i. t' \<noteq> TParam i) \<and>
          lex (Some d) (drop j s) c = Inr ts' \<and> ts = t' # ts')"
        using less.prems(1) Cons
        by (auto simp: lex.simps [of _ "_ # s"] is_quote_def cons_token_Inr drop4 split: option.splits)
      then show ?thesis
      proof
        assume "\<exists>t' ts' j. (\<forall>i. t' \<noteq> TParam i) \<and> lex (Some d) (drop j s) c = Inr ts' \<and> ts = t' # ts'"
        then obtain t' ts' j where "\<forall>i. t' \<noteq> TParam i" "lex (Some d) (drop j s) c = Inr ts'"
          "ts = t' # ts'" by blast
        with less.prems(2) IH [of "drop j s" c ts'] show ?thesis by (cases t') auto
      qed (use less.prems(2) in blast)
    next
      case question
      then obtain ts' where "lex (Some d) s (c + 1) = Inr ts'" "ts = TParam (c + 1) # ts'"
        using less.prems(1) Cons by (auto simp: lex.simps [of _ "_ # s"] is_quote_def cons_token_Inr)
      then show ?thesis
        using question IH [of s "c + 1" ts'] less.prems(2) count_params_ge [of "c + 1" d ts'] by auto
    next
      case dollar
      then obtain n ts' where l: "lex (Some d) (dropWhile is_digit s) (max c n) = Inr ts'"
        and n: "ts = TParam n # ts'" "1 \<le> n"
        using less.prems(1) Cons
        by (auto simp: lex.simps [of _ "_ # s"] is_quote_def cons_token_Inr Let_def
            split: sum.splits if_splits)
      then show ?thesis
        using dollar IH [OF l _ length_dropWhile_le] less.prems(2) count_params_ge [of "max c n" d ts']
        by auto
    next
      case plain
      then obtain ts' where "lex (Some d) s c = Inr ts'" "ts = TByte ch # ts'"
        using less.prems(1) Cons by (auto simp: lex_plain cons_token_Inr)
      with IH [of s c ts'] less.prems(2) show ?thesis by simp
    qed
  qed
qed

lemma bindSQL_Inr:
  "bindSQL q d args describe = Inr (b, n) \<longleftrightarrow>
     (\<exists>ts. lex (Some d) q 0 = Inr ts \<and> render_all d args describe ts = Inr b \<and>
           n = count_params d 0 ts \<and> (describe \<or> n = length args))"
proof -
  have "bindSQL q d args describe = Inr (b, n) \<longleftrightarrow>
      bind_loop d args describe q 0 = Inr (b, n) \<and> (describe \<or> n = length args)"
    by (auto simp: bindSQL_def split: sum.splits)
  then show ?thesis by (auto simp: bind_loop_render)
qed

lemma render_ok:
  assumes "\<forall>i. t = TParam i \<longrightarrow> 1 \<le> i \<and> i \<le> length args" and "\<forall>v \<in> set args. is_ok (sqlLiteral v)"
  shows "is_ok (render d args describe t)"
proof (cases t)
  case (TParam i)
  then have "args ! (i - 1) \<in> set args" using assms(1) by auto
  with TParam assms show ?thesis by (simp add: placeholder_def)
qed simp_all

lemma traverse_ok: "(\<forall>x \<in> set xs. is_ok (f x)) \<Longrightarrow> is_ok (traverse f xs)"
  by (induction xs) (auto simp: is_ok_def split: sum.splits)

lemma bindSQL_describe_ok:
  assumes p: "bindSQL q d [] True = Inr (p, n)" and a: "\<forall>v \<in> set args. is_ok (sqlLiteral v)"
    and n: "length args = n"
  shows "\<exists>b. bindSQL q d args False = Inr (b, n)"
proof -
  from p obtain ts where ts: "lex (Some d) q 0 = Inr ts" "n = count_params d 0 ts"
    by (auto simp: bindSQL_Inr)
  have "is_ok (render d args False t)" if "t \<in> set ts" for t
    using render_ok [of t args d False] lex_param_index [OF ts(1)] that ts(2) n a by auto
  then have "is_ok (traverse (render d args False) ts)" by (intro traverse_ok) blast
  with ts n show ?thesis by (auto simp: bindSQL_Inr render_all_def is_ok_iff)
qed

lemma bindSQL_describe_length:
  assumes "bindSQL q d [] True = Inr (p, n)" and "bindSQL q d args False = Inr (b, m)"
  shows "m = n \<and> length args = n"
  using assms by (auto simp: bindSQL_Inr)

section \<open>Statements without placeholders\<close>

lemma lex_mysql_text:
  "lex (Some MySQL) q c = Inr ts \<Longrightarrow> \<forall>i. TParam i \<notin> set ts \<Longrightarrow>
     render_all MySQL args describe ts = Inr q"
proof (induction "length q" arbitrary: q c ts rule: less_induct)
  case less
  show ?case
  proof (cases q)
    case Nil
    with less.prems show ?thesis by (auto simp: lex.simps)
  next
    case (Cons ch s)
    have IH: "render_all MySQL args describe ts' = Inr q'"
      if "lex (Some MySQL) q' c0 = Inr ts'" "\<forall>i. TParam i \<notin> set ts'" "length q' \<le> length s" for q' c0 ts'
      using less.hyps [of q' c0 ts'] that Cons by simp
    show ?thesis
    proof (cases rule: byte_cases [where c = ch and s = s and d = "Some MySQL"])
      case quoted
      then obtain raw v rest ts' where sc: "scan_quoted MySQL ch s = Some (raw, v, rest)"
        and "lex (Some MySQL) rest c = Inr ts'" "ts = TQuoted ch raw v # ts'"
        using less.prems(1) Cons
        by (auto simp: lex.simps [of _ "_ # s"] is_quote_def cons_token_Inr split: option.splits if_splits)
      with IH [of rest c ts'] less.prems(2) scan_quoted_split [OF sc] Cons
      show ?thesis by (auto simp: render_all_Cons)
    next
      case line
      with less.prems Cons show ?thesis
        by (auto simp: lex.simps [of _ "_ # s"] is_quote_def cons_token_Inr render_all_Cons
            map_result_Inr split: option.splits dest!: IH)
    next
      case block
      with less.prems Cons show ?thesis
        by (auto simp: lex.simps [of _ "_ # s"] is_quote_def cons_token_Inr render_all_Cons
            map_result_Inr split: option.splits dest!: IH)
    next
      case question
      with less.prems Cons show ?thesis
        by (auto simp: lex.simps [of _ "_ # s"] is_quote_def cons_token_Inr)
    next
      case plain
      with less.prems Cons show ?thesis
        by (auto simp: lex_plain cons_token_Inr render_all_Cons map_result_Inr dest!: IH)
    qed simp
  qed
qed

lemma render_param_needs_arg:
  "render_all d [] False ts = Inr b \<Longrightarrow> TParam i \<in> set ts \<Longrightarrow> i = 0"
  by (induction ts arbitrary: b)
     (auto simp: render_all_Cons placeholder_def map_result_Inr split: sum.splits if_splits)

section \<open>Properties\<close>


text \<open>
  A placeholder preceded by a minus sign is not safe: with a negative number the two hyphens
  start a comment, and the rest of the line, including the next parameter's opening quote, is no
  longer part of the statement.
\<close>

lemma bindSQL_minus_opens_comment:
  "bindSQL ''a=-? AND b=?'' MySQL [GInt64 (- 1), GString ''x''] False
     = Inr (''a=--1 AND b='' @ [squote, CHR ''x'', squote], 2) \<and>
   lex None (''a=--1 AND b='' @ [squote, CHR ''x'', squote]) 0
     = Inr [TByte (CHR ''a''), TByte (CHR ''=''), TLine (''--1 AND b='' @ [squote, CHR ''x'', squote])]"
  by code_simp

text \<open>
  A backslash inside a backquoted identifier of a MySQL statement is skipped with the byte that
  follows, so an identifier that ends in one is not terminated.
\<close>

lemma bindSQL_backslash_identifier:
  "bindSQL (''SELECT '' @ [bquote, CHR ''a'', bslash, bquote]) MySQL [] True = Inl (Err ''unterminated quoted token'') \<and>
   bindSQL (''SELECT '' @ [dquote, CHR ''a'', bslash, dquote]) Postgres [] True
     = Inr (''SELECT '' @ [bquote, CHR ''a'', bslash, bquote], 0)"
  by code_simp

text \<open>
  Prepare and execute agree.  A statement that \<open>bindSQL\<close> described with \<open>n\<close> parameters can be
  bound to values that have literals exactly when there are \<open>n\<close> of them.
\<close>

lemma bindSQL_prepare_execute:
  assumes "bindSQL q d [] True = Inr (p, n)" and "\<forall>v \<in> set args. is_ok (sqlLiteral v)"
  shows "is_ok (bindSQL q d args False) \<longleftrightarrow> length args = n"
proof
  assume "is_ok (bindSQL q d args False)"
  then obtain b m where "bindSQL q d args False = Inr (b, m)" by (auto simp: is_ok_iff)
  with bindSQL_describe_length [OF assms(1)] show "length args = n" by blast
next
  assume "length args = n"
  with bindSQL_describe_ok [OF assms] show "is_ok (bindSQL q d args False)" by (auto simp: is_ok_iff)
qed

text \<open>
  MySQL text without placeholders reaches the parser unchanged: quoted tokens and comments
  are copied byte for byte.
\<close>

lemma bindSQL_mysql_identity:
  assumes "bindSQL q MySQL [] False = Inr (b, n)"
  shows "b = q \<and> n = 0"
proof -
  from assms obtain ts where ts: "lex (Some MySQL) q 0 = Inr ts" "render_all MySQL [] False ts = Inr b"
    "n = count_params MySQL 0 ts" "n = 0" by (auto simp: bindSQL_Inr)
  have "TParam i \<notin> set ts" for i
    using render_param_needs_arg [OF ts(2), of i] lex_param_index [OF ts(1), of i] by auto
  with lex_mysql_text [OF ts(1)] ts show ?thesis by auto
qed

text \<open>
  C5: The literal of a string or byte parameter is read back by MySQL's rules as exactly the
  parameter's bytes, and its end is where \<open>sqlLiteral\<close> ended it, provided the statement does not
  continue with another single quote.
\<close>

theorem sqlLiteral_string_roundtrip:
  assumes "no_quote_next rest"
  shows "sqlLiteral (GString x) = Inr (sql_string x) \<and> sqlLiteral (GBytes x) = Inr (sql_string x) \<and>
    read_sql_string (sql_string x @ rest) = Some (x, rest)"
  using sql_lit.dec_enc [OF assms, of x] by simp

section \<open>Instances\<close>


theorem sqlLiteral_string_roundtrip_witness:
  "read_sql_string (sql_string [squote, bslash] @ '' x'') = Some ([squote, bslash], '' x'')"
proof -
  have "no_quote_next '' x''" by (simp add: no_quote_next_def)
  from sqlLiteral_string_roundtrip [OF this] show ?thesis by simp
qed

end
