(* ===== verification/PgProps.thy ===== *)
theory PgProps
  imports WireProps ParamProps BindProps
begin

text \<open>
  The message loop of the PostgreSQL adapter over whole connections: the bounds of its tables, the
  error discipline of the extended protocol, the delivery of rows, and what can happen before and
  after authentication.
\<close>

section \<open>What one message changes\<close>

lemma on_session_frame: "on_session m s = (r, s') \<Longrightarrow> \<exists>c. m (pg_session s) = (r, c) \<and> s' = s\<lparr>pg_session := c\<rparr>"
  by (auto simp: on_session_def split: prod.splits)

lemma pg_execute_session:
  assumes "pg_execute env q d s = (r, s')"
  obtains c where "s' = s\<lparr>pg_session := c\<rparr>"
  using assms by (auto simp: pg_execute_def dest: on_session_frame)

lemma pg_execute_wf:
  assumes "pg_execute env q False s = (Inr r, s')"
  shows "wf_result r"
proof -
  obtain c where "Execute (pg_handleQuery env) (query_ctx env) q (pg_session s) = (Inr r, c)"
    using assms by (auto simp: pg_execute_def dest: on_session_frame)
  then show ?thesis unfolding pg_handleQuery_def by (rule Execute_wf_result)
qed

lemma map_of_map_put [simp]: "map_of (map_put m k v) = (map_of m)(k \<mapsto> v)"
proof -
  have "map_of (filter (\<lambda>kv. fst kv \<noteq> k) m) x = (if x = k then None else map_of m x)" for x
    by (induction m) auto
  then show ?thesis by (auto simp: map_put_def)
qed

lemma map_of_map_del [simp]: "map_of (map_del m k) = (map_of m)(k := None)"
proof
  show "map_of (map_del m k) x = ((map_of m)(k := None)) x" for x
    by (induction m) (auto simp: map_del_def)
qed

section \<open>Tables\<close>

text \<open>A table of named objects: distinct keys, and at most 1024 of them have a name.\<close>

definition named :: "(string \<times> 'v) list \<Rightarrow> (string \<times> 'v) list" where
  "named m = filter (\<lambda>kv. fst kv \<noteq> '''') m"

definition table_ok :: "(string \<times> 'v) list \<Rightarrow> bool" where
  "table_ok m \<longleftrightarrow> distinct (map fst m) \<and> length (named m) \<le> 1024"

lemma table_ok_Nil [simp]: "table_ok []"
  by (simp add: table_ok_def named_def)

lemma named_filter: "length (named (filter P m)) \<le> length (named m)"
  unfolding named_def by (induction m) auto

lemma table_ok_del: "table_ok m \<Longrightarrow> table_ok (map_del m k)"
  using named_filter [of "\<lambda>kv. fst kv \<noteq> k" m] by (simp add: table_ok_def map_del_def distinct_map_filter)

lemma named_fresh: "length (named (map_put m k v)) \<le> Suc (length m)"
  proof -
  have "length (named m') \<le> length m'" for m' :: "(string \<times> 'a) list" by (simp add: named_def)
  from this [of "map_put m k v"] have "length (named (map_put m k v)) \<le> Suc (length (filter (\<lambda>kv. fst kv \<noteq> k) m))"
    by (simp add: map_put_def)
  also have "\<dots> \<le> Suc (length m)" by simp
  finally show ?thesis .
qed

lemma named_replaced:
  assumes "distinct (map fst m)" and "map_of m k \<noteq> None"
  shows "length (named (map_put m k v)) = length (named m)"
  using assms
proof (induction m)
  case (Cons kv m)
  obtain k' w where kv: "kv = (k', w)" by (cases kv)
  show ?case
  proof (cases "k' = k")
    case True
    then have "filter (\<lambda>x. fst x \<noteq> k) m = m" using Cons.prems kv by (auto simp: filter_id_conv)
    then show ?thesis using True kv by (simp add: map_put_def named_def)
  next
    case False
    then show ?thesis using Cons kv by (auto simp: map_put_def named_def split: if_splits)
  qed
qed simp

text \<open>The two ways an entry is written: a new name below the bound, and an existing or empty name.\<close>

lemma table_ok_put:
  assumes "table_ok m" and "length m < 1024 \<or> k = '''' \<or> map_of m k \<noteq> None"
  shows "table_ok (map_put m k v)"
proof -
  have "length (named (map_put m k v)) \<le> 1024"
  proof -
    consider "length m < 1024" | "k = ''''" | "map_of m k \<noteq> None" using assms(2) by blast
    then show ?thesis
    proof cases
      case 1
      then show ?thesis using named_fresh [of m k v] by simp
    next
      case 2
      then show ?thesis using assms(1) named_filter [of "\<lambda>kv. fst kv \<noteq> k" m]
        by (simp add: table_ok_def map_put_def named_def)
    next
      case 3
      then show ?thesis using assms(1) named_replaced [of m k v] by (simp add: table_ok_def)
    qed
  qed
  then show ?thesis
    using assms(1) by (auto simp: table_ok_def map_put_def distinct_map_filter)
qed

section \<open>The invariant of a connection\<close>

text \<open>
  A statement has one type for each of its parameters; a portal is within its result, which is
  rectangular.
\<close>

definition statement_ok :: "pg_statement \<Rightarrow> bool" where
  "statement_ok st \<longleftrightarrow> (\<exists>b. bindSQL (st_query st) Postgres [] True = Inr (b, length (st_oids st)))"

definition portal_ok :: "pg_portal \<Rightarrow> bool" where
  "portal_ok p \<longleftrightarrow>
     (case po_result p of
        None \<Rightarrow> po_pos p = 0 \<and> \<not> po_completed p
      | Some r \<Rightarrow> wf_result r \<and> po_pos p \<le> length (result_values r))"

definition pg_ok :: "('w, 'c) pg \<Rightarrow> bool" where
  "pg_ok s \<longleftrightarrow> table_ok (pg_statements s) \<and> table_ok (pg_portals s) \<and>
     (\<forall>n st. map_of (pg_statements s) n = Some st \<longrightarrow> statement_ok st) \<and>
     (\<forall>n p. map_of (pg_portals s) n = Some p \<longrightarrow> portal_ok p)"

lemma pg_ok_update [simp]:
  "pg_ok (s\<lparr>pg_session := c\<rparr>) = pg_ok s"
  "pg_ok (s\<lparr>pg_failed := b\<rparr>) = pg_ok s"
  by (simp_all add: pg_ok_def)

lemma pg_ok_put_portal:
  assumes "pg_ok s" "portal_ok p"
    and "length (pg_portals s) < 1024 \<or> name = '''' \<or> map_of (pg_portals s) name \<noteq> None"
  shows "pg_ok (put_portal name p s)"
  using assms table_ok_put [of "pg_portals s" name p] by (auto simp: pg_ok_def put_portal_def)

lemma pg_ok_query: "pg_query env text s = (s', out, e) \<Longrightarrow> pg_ok s \<Longrightarrow> pg_ok s'"
  by (auto simp: pg_query_def pg_run_query_def split: prod.splits if_splits sum.splits elim!: pg_execute_session)

lemma pg_ok_describe: "pg_describe env t n s = (s', out, e) \<Longrightarrow> pg_ok s \<Longrightarrow> pg_ok s'"
  by (auto simp: pg_describe_def pg_describe_query_def Let_def
      split: prod.splits if_splits sum.splits option.splits elim!: pg_execute_session)

lemma pg_ok_close: "pg_close t n s = (s', out, e) \<Longrightarrow> pg_ok s \<Longrightarrow> pg_ok s'"
  by (auto simp: pg_close_def pg_ok_def table_ok_del split: if_splits)

lemma pg_ok_parse:
  assumes "pg_parse env name query given s = (s', out, e)" and "pg_ok s"
  shows "pg_ok s'"
proof (cases e)
  case (Some x)
  then show ?thesis using assms
    by (auto simp: pg_parse_def split: if_splits sum.splits prod.splits dest!: on_session_frame)
next
  case None
  obtain b n oids c where p: "bindSQL query Postgres [] True = Inr (b, n)" "length given \<le> n"
    "parameterOIDs (pe_client env) (pe_parser env) (query_ctx env) query (initial_oids n given) (pg_session s)
       = (Inr oids, c)"
    "s' = s\<lparr>pg_session := c,
       pg_statements := map_put (pg_statements s) name \<lparr>st_query = query, st_oids = oids\<rparr>\<rparr>"
    and small: "length (pg_statements s) < 1024 \<or> name = ''''"
    using assms(1) None
    by (auto simp: pg_parse_def not_less not_le split: if_splits sum.splits prod.splits dest!: on_session_frame)
  have "length oids = n"
    using parameterOIDs_answers [OF p(3)] p(2) by (simp add: answers_def refines_def initial_oids_def)
  then have "statement_ok \<lparr>st_query = query, st_oids = oids\<rparr>" using p(1) by (simp add: statement_ok_def)
  with assms(2) p(4) small table_ok_put [of "pg_statements s" name] show ?thesis
    by (auto simp: pg_ok_def)
qed

lemma pg_ok_bind:
  assumes "pg_bind env portal name pf params rf s = (s', out, e)" and "pg_ok s"
  shows "pg_ok s'"
proof (cases e)
  case (Some x)
  then show ?thesis using assms
    by (auto simp: pg_bind_def pg_open_portal_def split: if_splits sum.splits prod.splits option.splits
        elim!: pg_execute_session)
next
  case None
  obtain q c where p: "s' = s\<lparr>pg_session := c, pg_portals := map_put (pg_portals s) portal (new_portal q rf)\<rparr>"
    and small: "length (pg_portals s) < 1024 \<or> portal = ''''"
    using assms(1) None
    by (auto simp: pg_bind_def pg_open_portal_def not_less not_le
        split: if_splits sum.splits prod.splits option.splits elim!: pg_execute_session)
  have "portal_ok (new_portal q rf)" by (simp add: portal_ok_def new_portal_def)
  with assms(2) p small table_ok_put [of "pg_portals s" portal] show ?thesis
    by (auto simp: pg_ok_def)
qed

lemma portal_end_le: "po_pos p \<le> count \<Longrightarrow> po_pos p \<le> portal_end p count m \<and> portal_end p count m \<le> count"
  by (auto simp: portal_end_def)

lemma pg_ok_fetch:
  assumes "pg_fetch name p r m s = (s', out, e)" "pg_ok s" "map_of (pg_portals s) name \<noteq> None"
    and "wf_result r" "po_pos p \<le> length (result_values r)" and "po_result p = Some r"
  shows "pg_ok s'"
proof -
  define til where "til = portal_end p (length (result_values r)) m"
  have til: "til \<le> length (result_values r)" using portal_end_le [OF assms(5)] by (simp add: til_def)
  have "portal_ok (p\<lparr>po_pos := til\<rparr>)" "portal_ok (p\<lparr>po_pos := til, po_completed := True\<rparr>)"
    "portal_ok (p\<lparr>po_completed := True\<rparr>)"
    using assms(4-6) til by (simp_all add: portal_ok_def)
  then show ?thesis
    using assms(1-3)
    by (auto simp: pg_fetch_def complete_portal_def Let_def til_def [symmetric] split: if_splits prod.splits
        intro!: pg_ok_put_portal)
qed

lemma pg_ok_execute_portal:
  assumes "pg_execute_portal env name m s = (s', out, e)" and "pg_ok s"
  shows "pg_ok s'"
proof (cases "map_of (pg_portals s) name")
  case None
  with assms show ?thesis by (simp add: pg_execute_portal_def)
next
  case p: (Some p)
  have ok: "portal_ok p" using assms(2) p by (simp add: pg_ok_def)
  show ?thesis
  proof (cases "po_result p")
    case (Some r)
    then have f: "pg_fetch name p r m s = (s', out, e)"
      using assms(1) p by (simp add: pg_execute_portal_def)
    then show ?thesis
      using assms(2) ok Some p by (intro pg_ok_fetch [OF f]) (simp_all add: portal_ok_def)
  next
    case None
    obtain x t where x: "pg_execute env (po_query p) False s = (x, t)" by (cases "pg_execute env (po_query p) False s")
    obtain c where c: "t = s\<lparr>pg_session := c\<rparr>" using x by (rule pg_execute_session)
    show ?thesis
    proof (cases x)
      case (Inl err)
      then have "s' = t" using assms(1) x None p by (simp add: pg_execute_portal_def)
      then show ?thesis using assms(2) by (simp add: c)
    next
      case (Inr r)
      then have f: "pg_fetch name (p\<lparr>po_result := Some r\<rparr>) r m t = (s', out, e)"
        using assms(1) x None p by (simp add: pg_execute_portal_def)
      have "wf_result r" using x Inr by (auto dest: pg_execute_wf)
      then show ?thesis using assms(2) ok None c p
        by (intro pg_ok_fetch [OF f]) (auto simp: portal_ok_def)
    qed
  qed
qed

lemma pg_ok_sync: "pg_ok s \<Longrightarrow> pg_ok (s\<lparr>pg_failed := b, pg_portals := []\<rparr>)"
  by (simp add: pg_ok_def)

lemma pg_ok_dispatch:
  assumes "pg_dispatch env msg s = (s', out, e)" and "pg_ok s"
  shows "pg_ok s'"
  using assms
proof (cases msg)
  case (FQuery q) with assms show ?thesis by (simp add: pg_dispatch_def pg_ok_query)
next
  case (FParse n q oids) with assms show ?thesis by (simp add: pg_dispatch_def pg_ok_parse)
next
  case (FDescribe t n) with assms show ?thesis by (simp add: pg_dispatch_def pg_ok_describe)
next
  case (FBind p n pf ps rf) with assms show ?thesis by (simp add: pg_dispatch_def pg_ok_bind)
next
  case (FExecute n m) with assms show ?thesis by (simp add: pg_dispatch_def pg_ok_execute_portal)
next
  case (FClose t n) with assms show ?thesis by (simp add: pg_dispatch_def pg_ok_close)
qed (auto simp: pg_dispatch_def pg_ok_sync)

lemma pg_ok_step: "pg_ok s \<Longrightarrow> pg_ok (fst (pg_step env s msg))"
  by (auto simp: pg_step_def split: prod.splits option.splits dest: pg_ok_dispatch)

section \<open>Runs\<close>

text \<open>A connection is driven by its messages up to Terminate.\<close>

interpretation pg_conn: stepper "\<lambda>s msg. fst (pg_step env s msg)" pg_ok for env
  by unfold_locales (rule pg_ok_step)

lemma pg_loop_run:
  "fst (pg_loop env s ms) = run_steps (\<lambda>s msg. fst (pg_step env s msg)) s (takeWhile (\<lambda>m. m \<noteq> FTerminate) ms)"
proof (induction ms arbitrary: s)
  case (Cons m ms)
  obtain s' sent where st: "pg_step env s m = (s', sent)" by (cases "pg_step env s m")
  obtain s'' later where "pg_loop env s' ms = (s'', later)" by (cases "pg_loop env s' ms")
  with Cons.IH [of s'] st show ?case by simp
qed simp

lemma pg_loop_ok: "pg_ok s \<Longrightarrow> pg_ok (fst (pg_loop env s ms))"
  by (simp add: pg_loop_run pg_conn.run_inv)

lemma pg_start_state:
  assumes "pg_start env cfg newSession params auth = (Some s, out)"
  shows "pg_ok s \<and> \<not> pg_failed s \<and> authenticated cfg params auth"
  using assms by (auto simp: pg_start_def pg_ok_def split: if_splits sum.splits prod.splits)

section \<open>Bounds and types of a connection\<close>

text \<open>
  C25: A connection's memory is bounded and consistent.  After any sequence of messages the tables of
  statements and portals have distinct names and at most 1024 named entries each, every statement
  has exactly one type for each of its parameters, and every portal stands within a rectangular
  result.
\<close>

theorem pg_connection_invariant:
  assumes "pg_start env cfg newSession params auth = (Some s0, out)" and "pg_loop env s0 ms = (s, sent)"
  shows "table_ok (pg_statements s) \<and> table_ok (pg_portals s) \<and>
    (\<forall>n st. map_of (pg_statements s) n = Some st \<longrightarrow> statement_ok st) \<and>
    (\<forall>n p. map_of (pg_portals s) n = Some p \<longrightarrow> portal_ok p)"
proof -
  have "pg_ok s0" using pg_start_state [OF assms(1)] by blast
  then have "pg_ok s" using pg_loop_ok [of s0 env ms] assms(2) by simp
  then show ?thesis unfolding pg_ok_def .
qed

end
