(* ===== verification/PgFlow.thy ===== *)
theory PgFlow
  imports PgProps
begin

text \<open>
  The order of the messages on a PostgreSQL connection: one ReadyForQuery for each request that asks
  for one, errors that silence everything up to the next Sync, rows delivered once and in order, no
  effect on Milvus before Execute, and nothing at all before authentication.
\<close>

section \<open>Replies without errors and without ReadyForQuery\<close>

definition is_error :: "backend \<Rightarrow> bool" where
  "is_error b \<longleftrightarrow> (case b of BErrorResponse _ _ _ \<Rightarrow> True | _ \<Rightarrow> False)"

definition plain :: "backend \<Rightarrow> bool" where
  "plain b \<longleftrightarrow> \<not> is_error b \<and> b \<noteq> BReadyForQuery"

lemma plain_simps [simp]:
  "plain (BRowDescription d)" "plain (BDataRow r)" "plain (BCommandComplete t)" "plain BParseComplete"
  "plain (BParameterDescription os)" "plain BNoData" "plain BBindComplete" "plain BPortalSuspended"
  "plain BCloseComplete" "plain BEmptyQueryResponse" "\<not> plain BReadyForQuery" "\<not> plain (fail_message e)"
  "is_error (fail_message e)" "\<not> is_error BReadyForQuery" "fail_message e \<noteq> BReadyForQuery" "BReadyForQuery \<noteq> fail_message e"
  by (simp_all add: plain_def is_error_def fail_message_def)

lemma plain_rows [simp]: "list_all plain (map BDataRow rs)"
  by (induction rs) simp_all

lemma plain_run_query: "pg_run_query env q s = (s', out, e) \<Longrightarrow> list_all plain out"
  by (auto simp: pg_run_query_def query_messages_def split: if_splits sum.splits prod.splits option.splits)

lemma plain_parse: "pg_parse env n q os s = (s', out, e) \<Longrightarrow> list_all plain out"
  by (auto simp: pg_parse_def split: if_splits sum.splits prod.splits)

lemma plain_describe: "pg_describe env t n s = (s', out, e) \<Longrightarrow> list_all plain out"
  by (auto simp: pg_describe_def pg_describe_query_def Let_def split: if_splits sum.splits prod.splits option.splits)

lemma plain_bind: "pg_bind env p n pf ps rf s = (s', out, e) \<Longrightarrow> list_all plain out"
  by (auto simp: pg_bind_def pg_open_portal_def split: if_splits sum.splits prod.splits option.splits)

lemma plain_fetch: "pg_fetch n p r m s = (s', out, e) \<Longrightarrow> list_all plain out"
  by (auto simp: pg_fetch_def complete_portal_def Let_def split: if_splits prod.splits)

lemma plain_execute: "pg_execute_portal env n m s = (s', out, e) \<Longrightarrow> list_all plain out"
  by (auto simp: pg_execute_portal_def dest: plain_fetch split: option.splits sum.splits prod.splits)

lemma plain_close: "pg_close t n s = (s', out, e) \<Longrightarrow> list_all plain out"
  by (auto simp: pg_close_def split: if_splits)

text \<open>Every reply of one message, by whether it asks for ReadyForQuery.\<close>

definition asks_ready :: "frontend \<Rightarrow> bool" where
  "asks_ready m \<longleftrightarrow> (case m of FQuery _ \<Rightarrow> True | FSync \<Rightarrow> True | _ \<Rightarrow> False)"

lemma dispatch_plain:
  assumes "pg_dispatch env m s = (s', out, e)" and "\<not> asks_ready m"
  shows "list_all plain out"
  using assms
proof (cases m)
  case (FParse n q oids) with assms show ?thesis by (simp add: pg_dispatch_def plain_parse)
next
  case (FDescribe t n) with assms show ?thesis by (simp add: pg_dispatch_def plain_describe)
next
  case (FBind p n pf ps rf) with assms show ?thesis by (simp add: pg_dispatch_def plain_bind)
next
  case (FExecute n m) with assms show ?thesis by (simp add: pg_dispatch_def plain_execute)
next
  case (FClose t n) with assms show ?thesis by (simp add: pg_dispatch_def plain_close)
qed (auto simp: pg_dispatch_def asks_ready_def)

lemma dispatch_ready:
  assumes "pg_dispatch env m s = (s', out, e)" and "asks_ready m"
  shows "e = None \<and> (\<exists>pre. out = pre @ [BReadyForQuery] \<and> BReadyForQuery \<notin> set pre)"
  using assms
proof (cases m)
  case (FQuery q)
  obtain t pre x where r: "pg_run_query env q s = (t, pre, x)" by (cases "pg_run_query env q s")
  have "BReadyForQuery \<notin> set pre" using plain_run_query [OF r] by (auto simp: list_all_iff)
  then show ?thesis using assms(1) r FQuery by (auto simp: pg_dispatch_def pg_query_def split: option.splits)
qed (auto simp: pg_dispatch_def asks_ready_def)

section \<open>What one message leaves alone\<close>

lemma failed_run_query: "pg_run_query env q s = (s', out, e) \<Longrightarrow> pg_failed s' = pg_failed s"
  by (auto simp: pg_run_query_def split: if_splits sum.splits prod.splits elim!: pg_execute_session)

lemma failed_parse: "pg_parse env n q os s = (s', out, e) \<Longrightarrow> pg_failed s' = pg_failed s"
  by (auto simp: pg_parse_def split: if_splits sum.splits prod.splits dest!: on_session_frame)

lemma failed_describe: "pg_describe env t n s = (s', out, e) \<Longrightarrow> pg_failed s' = pg_failed s"
  by (auto simp: pg_describe_def pg_describe_query_def Let_def
      split: if_splits sum.splits prod.splits option.splits elim!: pg_execute_session)

lemma failed_bind: "pg_bind env p n pf ps rf s = (s', out, e) \<Longrightarrow> pg_failed s' = pg_failed s"
  by (auto simp: pg_bind_def pg_open_portal_def
      split: if_splits sum.splits prod.splits option.splits elim!: pg_execute_session)

lemma fetch_session:
  "pg_fetch n p r m s = (s', out, e) \<Longrightarrow> pg_failed s' = pg_failed s \<and> pg_session s' = pg_session s \<and>
     pg_statements s' = pg_statements s"
  by (auto simp: pg_fetch_def complete_portal_def put_portal_def Let_def split: if_splits prod.splits)

lemma failed_execute: "pg_execute_portal env n m s = (s', out, e) \<Longrightarrow> pg_failed s' = pg_failed s"
  by (auto simp: pg_execute_portal_def dest!: fetch_session elim!: pg_execute_session
      split: option.splits sum.splits prod.splits)

lemma failed_close: "pg_close t n s = (s', out, e) \<Longrightarrow> pg_failed s' = pg_failed s"
  by (auto simp: pg_close_def split: if_splits)

lemma failed_dispatch:
  assumes "pg_dispatch env m s = (s', out, e)" and "m \<noteq> FSync"
  shows "pg_failed s' = pg_failed s"
  using assms
proof (cases m)
  case (FQuery q) with assms show ?thesis
    by (auto simp: pg_dispatch_def pg_query_def split: prod.splits dest: failed_run_query)
next
  case (FParse n q oids) with assms show ?thesis by (auto simp: pg_dispatch_def dest: failed_parse)
next
  case (FDescribe t n) with assms show ?thesis by (auto simp: pg_dispatch_def dest: failed_describe)
next
  case (FBind p n pf ps rf) with assms show ?thesis by (auto simp: pg_dispatch_def dest: failed_bind)
next
  case (FExecute n m) with assms show ?thesis by (auto simp: pg_dispatch_def dest: failed_execute)
next
  case (FClose t n) with assms show ?thesis by (auto simp: pg_dispatch_def dest: failed_close)
qed (auto simp: pg_dispatch_def)

section \<open>Error discipline\<close>

text \<open>
  C22: One ReadyForQuery for each request that asks for it.  A Sync, and a Query that is not skipped, is
  answered by exactly one ReadyForQuery and it comes last; no other message is answered by one.
\<close>

theorem pg_one_ready_per_request:
  "if asks_ready m \<and> (pg_failed s = False \<or> m = FSync)
   then (\<exists>pre. snd (pg_step env s m) = pre @ [BReadyForQuery] \<and> BReadyForQuery \<notin> set pre)
   else BReadyForQuery \<notin> set (snd (pg_step env s m))"
proof (cases "pg_failed s \<and> m \<noteq> FSync")
  case True
  then show ?thesis by (simp add: pg_step_def)
next
  case False
  obtain s' out e where d: "pg_dispatch env m s = (s', out, e)" by (cases "pg_dispatch env m s")
  show ?thesis
  proof (cases "asks_ready m")
    case True
    with dispatch_ready [OF d True] False d show ?thesis by (auto simp: pg_step_def)
  next
    case nr: False
    with dispatch_plain [OF d nr] False d show ?thesis
      by (auto simp: pg_step_def list_all_iff split: option.splits)
  qed
qed

lemma pg_loop_failed: "pg_failed s \<Longrightarrow> FSync \<notin> set ms \<Longrightarrow> pg_loop env s ms = (s, [])"
  by (induction ms) (auto simp: pg_step_def)

lemma pg_loop_append:
  "FTerminate \<notin> set ms \<Longrightarrow>
   pg_loop env s (ms @ ms') =
     (case pg_loop env s ms of (t, out) \<Rightarrow> (case pg_loop env t ms' of (u, later) \<Rightarrow> (u, out @ later)))"
  by (induction ms arbitrary: s) (auto split: prod.splits)

text \<open>
  The first message that fails, and the state and replies up to it.
\<close>

definition fails_at ::
  "('w, 'c) pg_env \<Rightarrow> ('w, 'c) pg \<Rightarrow> frontend list \<Rightarrow> frontend \<Rightarrow>
     ('w, 'c) pg \<Rightarrow> backend list \<Rightarrow> error \<Rightarrow> bool" where
  "fails_at env s before m s' out e \<longleftrightarrow>
     FTerminate \<notin> set (before @ [m]) \<and>
     (case pg_loop env s before of
        (t, out1) \<Rightarrow> \<not> pg_failed t \<and> list_all plain out1 \<and>
          (\<exists>t' out2. pg_dispatch env m t = (t', out2, Some e) \<and> list_all plain out2 \<and>
             s' = t'\<lparr>pg_failed := True\<rparr> \<and> out = out1 @ out2 @ [fail_message e]))"

lemma fails_at_Cons:
  assumes "m0 \<noteq> FTerminate" and "\<not> pg_failed s" and "pg_dispatch env m0 s = (t, o1, None)" and "list_all plain o1"
    and "fails_at env t before m s' out e"
  shows "fails_at env s (m0 # before) m s' (o1 @ out) e"
  using assms by (auto simp: fails_at_def pg_step_def split: prod.splits)

text \<open>
  C21: An error ends the batch.  In a batch of extended-protocol messages, either nothing fails and no
  error is reported, or the connection is left in the failed state: then the batch splits into the
  messages before the first one that fails, that message, and the rest; its error is the only one
  reported and the last message of the reply, and the connection is exactly as the failing message
  left it, so the messages after it had no effect on the session and no answer.
\<close>

theorem pg_error_ends_batch:
  assumes "pg_loop env s ms = (s', out)" and "\<not> pg_failed s" and "\<forall>m \<in> set ms. \<not> asks_ready m"
  shows "if pg_failed s' then \<exists>before m after e. ms = before @ m # after \<and> fails_at env s before m s' out e
    else list_all plain out"
  using assms
proof (induction ms arbitrary: s out)
  case (Cons m ms)
  show ?case
  proof (cases "m = FTerminate")
    case False
    obtain t o1 e where d: "pg_dispatch env m s = (t, o1, e)" by (cases "pg_dispatch env m s")
    have pl: "list_all plain o1" using dispatch_plain [OF d] Cons.prems(3) by simp
    show ?thesis
    proof (cases e)
      case (Some x)
      have "pg_loop env (t\<lparr>pg_failed := True\<rparr>) ms = (t\<lparr>pg_failed := True\<rparr>, [])"
        using Cons.prems(3) by (intro pg_loop_failed) (auto simp: asks_ready_def)
      then have s': "s' = t\<lparr>pg_failed := True\<rparr>" "out = o1 @ [fail_message x]"
        using Cons.prems(1,2) False d Some by (simp_all add: pg_step_def)
      then have "fails_at env s [] m s' out x"
        using pl False d Some Cons.prems(2) by (simp add: fails_at_def)
      moreover have "m # ms = [] @ m # ms" by simp
      ultimately show ?thesis using s'(1) by (metis pg.select_convs(4) pg.surjective pg.update_convs(4))
    next
      case None
      obtain o2 where l: "pg_loop env t ms = (s', o2)" "out = o1 @ o2"
        using Cons.prems(1,2) False d None by (auto simp: pg_step_def split: prod.splits)
      have "m \<noteq> FSync" using Cons.prems(3) by (auto simp: asks_ready_def)
      then have nf: "\<not> pg_failed t" using failed_dispatch [OF d] Cons.prems(2) by simp
      note IH = Cons.IH [OF l(1) nf]
      show ?thesis
      proof (cases "pg_failed s'")
        case True
        then obtain before m1 after e1 where f: "ms = before @ m1 # after" "fails_at env t before m1 s' o2 e1"
          using IH Cons.prems(3) by auto
        have "fails_at env s (m # before) m1 s' out e1"
          unfolding l(2) using False Cons.prems(2) d [unfolded None] pl f(2) by (rule fails_at_Cons)
        moreover have "m # ms = (m # before) @ m1 # after" using f(1) by simp
        ultimately show ?thesis using True by metis
      qed (use IH Cons.prems(3) l(2) pl in simp)
    qed
  qed (use Cons.prems in simp)
qed simp

text \<open>
  Sync always recovers.  Whatever was sent before, after a Sync the connection accepts messages
  again, the portals are gone, the prepared statements are still there, and the reply ends with
  ReadyForQuery.
\<close>

lemma pg_sync_recovers:
  assumes "FTerminate \<notin> set ms" and "pg_loop env s ms = (t, before)"
  shows "pg_loop env s (ms @ [FSync])
    = (t\<lparr>pg_failed := False, pg_portals := []\<rparr>, before @ [BReadyForQuery])"
  using assms(2) by (simp add: pg_loop_append [OF assms(1)] pg_step_def pg_dispatch_def)

section \<open>Before Execute\<close>

text \<open>The messages that prepare a statement and do not run it.\<close>

definition prepares :: "frontend \<Rightarrow> bool" where
  "prepares m \<longleftrightarrow> (case m of FQuery _ \<Rightarrow> False | FExecute _ _ \<Rightarrow> False | _ \<Rightarrow> True)"

definition only_reads :: "('w, 'c) pg \<Rightarrow> ('w, 'c) pg \<Rightarrow> bool" where
  "only_reads s s' \<longleftrightarrow> c_db (pg_session s') = c_db (pg_session s) \<and>
     extends is_schema_call (c_calls (pg_session s)) (c_calls (pg_session s'))"

lemma only_reads_refl [simp]: "pg_session s' = pg_session s \<Longrightarrow> only_reads s s'"
  by (simp add: only_reads_def)

lemma only_reads_trans: "only_reads s t \<Longrightarrow> only_reads t u \<Longrightarrow> only_reads s u"
  by (auto simp: only_reads_def intro: extends_trans)

lemma only_reads_update [simp]:
  "only_reads s (s'\<lparr>pg_failed := b\<rparr>) = only_reads s s'"
  "only_reads s (s'\<lparr>pg_portals := ps\<rparr>) = only_reads s s'"
  "only_reads s (s'\<lparr>pg_statements := sts\<rparr>) = only_reads s s'"
  by (simp_all add: only_reads_def)

lemma only_reads_execute: "pg_execute env q True s = (r, s') \<Longrightarrow> only_reads s s'"
  by (auto simp: pg_execute_def pg_handleQuery_def only_reads_def dest!: on_session_frame Describe_frame)

lemma only_reads_oids:
  "on_session (parameterOIDs cl sp ctx q os) s = (r, s') \<Longrightarrow> only_reads s s'"
  by (auto simp: only_reads_def dest!: on_session_frame parameterOIDs_session)

lemma reads_parse: "pg_parse env n q os s = (s', out, e) \<Longrightarrow> only_reads s s'"
  by (auto simp: pg_parse_def split: if_splits sum.splits prod.splits dest: only_reads_oids)

lemma reads_describe: "pg_describe env t n s = (s', out, e) \<Longrightarrow> only_reads s s'"
  by (auto simp: pg_describe_def pg_describe_query_def Let_def
      split: if_splits sum.splits prod.splits option.splits dest: only_reads_execute)

lemma reads_bind: "pg_bind env p n pf ps rf s = (s', out, e) \<Longrightarrow> only_reads s s'"
  by (auto simp: pg_bind_def pg_open_portal_def
      split: if_splits sum.splits prod.splits option.splits dest: only_reads_execute)

lemma reads_dispatch:
  assumes "pg_dispatch env m s = (s', out, e)" and "prepares m"
  shows "only_reads s s'"
  using assms
proof (cases m)
  case (FParse n q oids) with assms show ?thesis by (auto simp: pg_dispatch_def dest: reads_parse)
next
  case (FDescribe t n) with assms show ?thesis by (auto simp: pg_dispatch_def dest: reads_describe)
next
  case (FBind p n pf ps rf) with assms show ?thesis by (auto simp: pg_dispatch_def dest: reads_bind)
next
  case (FClose t n) with assms show ?thesis by (auto simp: pg_dispatch_def pg_close_def split: if_splits)
qed (auto simp: pg_dispatch_def prepares_def)

text \<open>
  C23: Preparing has no effect on Milvus.  Any sequence of Parse, Bind, Describe, Close, Flush and Sync
  messages, with any statements, makes only schema lookups and leaves the session on its database;
  only Execute and Query run statements.
\<close>

theorem pg_prepare_only_reads:
  assumes "pg_loop env s ms = (s', out)" and "\<forall>m \<in> set ms. prepares m"
  shows "c_db (pg_session s') = c_db (pg_session s) \<and>
    extends is_schema_call (c_calls (pg_session s)) (c_calls (pg_session s'))"
proof -
  have step: "only_reads s (fst (pg_step env s m))" if "prepares m" for s m
    using reads_dispatch [OF _ that, of env s] by (auto simp: pg_step_def split: prod.splits option.splits)
  have "only_reads s (fst (pg_loop env s ms))"
    using assms(2)
  proof (induction ms arbitrary: s)
    case (Cons m ms)
    obtain t o1 where t: "pg_step env s m = (t, o1)" by (cases "pg_step env s m")
    obtain u o2 where u: "pg_loop env t ms = (u, o2)" by (cases "pg_loop env t ms")
    have "only_reads s t" using step [of m s] Cons.prems t by simp
    moreover have "only_reads t u" using Cons.IH [of t] Cons.prems u by simp
    ultimately show ?case using t u by (auto intro: only_reads_trans)
  qed simp
  then show ?thesis using assms(1) by (simp add: only_reads_def)
qed

section \<open>Authentication\<close>

lemma handleUseDB_ok: "handleUseDB cl db s = (Inr u, s') \<Longrightarrow> c_db s' = db"
  by (auto simp: handleUseDB_def action_simps call_def writeOK_def split: sum.splits prod.splits)

lemma authenticated_iff:
  "authenticated cfg params auth \<longleftrightarrow>
     auth = FPassword (password cfg) \<and> map_get (Some params) ''user'' = user cfg"
  by (cases auth) (auto simp: authenticated_def)

text \<open>
  C24: Nothing happens before the password.  Without the configured user and password the answer is the
  authentication failure, whatever opening a session would do.  A connection that gets to the
  message loop has presented them and its session is on the requested database; a connection that
  does not get there is never told that it is authenticated.
\<close>

theorem pg_login_required:
  "(authenticated cfg params auth \<or> pg_start env cfg newSession params auth =
     (None, [BAuthenticationCleartextPassword, BErrorResponse ''FATAL'' ''28P01'' (Err ''authentication failed'')])) \<and>
   (case pg_start env cfg newSession params auth of
      (Some s, out) \<Rightarrow> auth = FPassword (password cfg) \<and> map_get (Some params) ''user'' = user cfg \<and>
        c_db (pg_session s) = or_default '''' ''default'' (map_get (Some params) ''database'')
    | (None, out) \<Rightarrow> BAuthenticationOk \<notin> set out)"
proof (cases "authenticated cfg params auth")
  case False
  then show ?thesis by (simp add: pg_start_def)
next
  case True
  define ctx where "ctx = WithTimeout (pe_ctx env) 15"
  define db where "db = or_default '''' ''default'' (map_get (Some params) ''database'')"
  show ?thesis
  proof (cases "newSession ctx")
    case (Inl e)
    with True show ?thesis by (simp add: pg_start_def pg_open_def ctx_def fail_message_def Let_def)
  next
    case (Inr w)
    obtain u c where u: "handleUseDB (pe_client env) db (NewSession ctx w) = (u, c)"
      by (cases "handleUseDB (pe_client env) db (NewSession ctx w)")
    have c: "u = Inr x \<Longrightarrow> c_db c = db" for x using u handleUseDB_ok by blast
    from True Inr u [unfolded ctx_def db_def] c show ?thesis
      by (cases u) (simp_all add: pg_start_def pg_open_def authenticated_iff ctx_def db_def fail_message_def Let_def)
  qed
qed

section \<open>Delivery of rows\<close>

text \<open>Where a portal of \<open>count\<close> rows stands after Executes with these row limits (0 is no limit).\<close>

fun delivered :: "nat \<Rightarrow> nat \<Rightarrow> nat list \<Rightarrow> nat" where
  "delivered count pos [] = pos"
| "delivered count pos (m # ms) =
     delivered count (if 0 < m \<and> m < count - pos then pos + m else count) ms"

definition data_rows :: "backend list \<Rightarrow> string option list list" where
  "data_rows out = List.map_filter (\<lambda>b. case b of BDataRow r \<Rightarrow> Some r | _ \<Rightarrow> None) out"

lemma data_rows_simps [simp]:
  "data_rows [] = []" "data_rows (xs @ ys) = data_rows xs @ data_rows ys"
  "data_rows (map BDataRow rs @ ys) = rs @ data_rows ys" "data_rows (map BDataRow rs) = rs"
  "data_rows (BCommandComplete t # ys) = data_rows ys" "data_rows (BPortalSuspended # ys) = data_rows ys"
  by (induction rs) (auto simp: data_rows_def List.map_filter_def)

lemma delivered_end: "delivered count count ms = count"
  by (induction ms) simp_all

lemma delivered_bounds: "pos \<le> count \<Longrightarrow> pos \<le> delivered count pos ms \<and> delivered count pos ms \<le> count"
proof (induction ms arbitrary: pos)
  case (Cons m ms)
  let ?til = "if 0 < m \<and> m < count - pos then pos + m else count"
  have "pos \<le> ?til" "?til \<le> count" using Cons.prems by auto
  with Cons.IH [of ?til] show ?case by (simp only: delivered.simps) (meson le_trans)
qed simp

lemma pg_data_all: "traverse (pg_row flds fmts) rs = Inr encs \<Longrightarrow> pg_data flds fmts rs = (encs, None)"
  by (induction rs arbitrary: encs) (auto split: sum.splits)

lemma traverse_window:
  assumes "traverse f xs = Inr ys"
  shows "traverse f (take k (drop n xs)) = Inr (take k (drop n ys))"
  using assms unfolding traverse_Inr by (intro list_all2_takeI list_all2_dropI)

lemma pgRows_window:
  assumes "traverse (pg_row (result_fields r) fmts) (result_values r) = Inr encs"
  shows "pgRows r from til fmts = (take (til - from) (drop from encs), None)"
  unfolding pgRows_def by (rule pg_data_all) (rule traverse_window [OF assms])

text \<open>A portal that holds its result, at a position or completed.\<close>

definition holds :: "string \<Rightarrow> pg_portal \<Rightarrow> mysql_result \<Rightarrow> nat \<Rightarrow> bool \<Rightarrow> ('w, 'c) pg \<Rightarrow> bool" where
  "holds name p r pos fin s \<longleftrightarrow> \<not> pg_failed s \<and> r_resultset r \<noteq> None \<and>
     map_of (pg_portals s) name = Some (p\<lparr>po_result := Some r, po_pos := pos, po_completed := fin\<rparr>)"

lemma step_completed:
  assumes "holds name p r pos True s"
  shows "\<exists>t. pg_step env s (FExecute name m) = (t, [BCommandComplete (pgTag (po_query p) r)]) \<and>
    holds name p r pos True t \<and> pg_session t = pg_session s"
  using assms
  by (simp add: holds_def pg_step_def pg_dispatch_def pg_execute_portal_def pg_fetch_def complete_portal_def
      put_portal_def)

lemma loop_completed:
  assumes "holds name p r pos True s" and "pg_loop env s (map (FExecute name) ms) = (s', out)"
  shows "data_rows out = [] \<and> pg_session s' = pg_session s"
  using assms
proof (induction ms arbitrary: s out)
  case (Cons m ms)
  obtain t where t: "pg_step env s (FExecute name m) = (t, [BCommandComplete (pgTag (po_query p) r)])"
    "holds name p r pos True t" "pg_session t = pg_session s"
    using step_completed [OF Cons.prems(1)] by blast
  obtain o2 where o: "pg_loop env t (map (FExecute name) ms) = (s', o2)"
    "out = [BCommandComplete (pgTag (po_query p) r)] @ o2"
    using Cons.prems(2) t(1) by (auto split: prod.splits)
  show ?case using Cons.IH [OF t(2) o(1)] o(2) t(3) by simp
qed simp

lemma portal_swap: "p\<lparr>po_completed := b, po_pos := n\<rparr> = p\<lparr>po_pos := n, po_completed := b\<rparr>"
  by (cases p) simp

lemma step_delivers:
  assumes "holds name p r pos False s" and "pos \<le> length encs"
    and "traverse (pg_row (result_fields r) (po_formats p)) (result_values r) = Inr encs"
    and til: "til = (if 0 < m \<and> m < length encs - pos then pos + m else length encs)"
  shows "\<exists>t o1. pg_step env s (FExecute name m) = (t, o1) \<and> data_rows o1 = take (til - pos) (drop pos encs) \<and>
    holds name p r til (til = length encs) t \<and> pg_session t = pg_session s"
proof -
  have len: "length (result_values r) = length encs" using traverse_length [OF assms(3)] by simp
  have le: "til \<le> length encs" using til by auto
  let ?p = "p\<lparr>po_result := Some r, po_pos := pos, po_completed := False\<rparr>"
  let ?out = "map BDataRow (take (til - pos) (drop pos encs)) @
    [if til = length encs then BCommandComplete (pgTag (po_query p) r) else BPortalSuspended]"
  have e: "portal_end ?p (length encs) m = til" using til by (simp add: portal_end_def)
  have h: "map_of (pg_portals s) name = Some ?p" "\<not> pg_failed s" "r_resultset r \<noteq> None"
    using assms(1) by (simp_all add: holds_def)
  have "pg_fetch name ?p r m s
      = (put_portal name (p\<lparr>po_result := Some r, po_pos := til, po_completed := (til = length encs)\<rparr>) s, ?out, None)"
    using h(3) le
    by (auto simp: pg_fetch_def len e pgRows_window [OF assms(3)] complete_portal_def portal_swap Let_def)
  then have "pg_step env s (FExecute name m)
      = (put_portal name (p\<lparr>po_result := Some r, po_pos := til, po_completed := (til = length encs)\<rparr>) s, ?out)"
    using h by (simp add: pg_step_def pg_dispatch_def pg_execute_portal_def)
  then show ?thesis using h by (simp add: holds_def put_portal_def)
qed

lemma loop_delivers:
  assumes "holds name p r pos False s" and "pos \<le> length encs"
    and "traverse (pg_row (result_fields r) (po_formats p)) (result_values r) = Inr encs"
    and "pg_loop env s (map (FExecute name) ms) = (s', out)"
  shows "data_rows out = take (delivered (length encs) pos ms - pos) (drop pos encs) \<and> pg_session s' = pg_session s"
  using assms(1,2,4)
proof (induction ms arbitrary: s out pos)
  case (Cons m ms)
  define til where "til = (if 0 < m \<and> m < length encs - pos then pos + m else length encs)"
  have b: "pos \<le> til" "til \<le> length encs" using Cons.prems(2) by (auto simp: til_def)
  obtain t o1 where t: "pg_step env s (FExecute name m) = (t, o1)" "data_rows o1 = take (til - pos) (drop pos encs)"
    "holds name p r til (til = length encs) t" "pg_session t = pg_session s"
    using step_delivers [OF Cons.prems(1,2) assms(3) til_def] by blast
  obtain o2 where o: "pg_loop env t (map (FExecute name) ms) = (s', o2)" "out = o1 @ o2"
    using Cons.prems(3) t(1) by (auto split: prod.splits)
  have d: "delivered (length encs) pos (m # ms) = delivered (length encs) til ms" by (simp add: til_def)
  show ?case
  proof (cases "til = length encs")
    case True
    then show ?thesis
      using loop_completed [OF _ o(1), of p r til] t o(2) by (simp add: d delivered_end del: delivered.simps)
  next
    case False
    let ?k = "delivered (length encs) til ms"
    have k: "til \<le> ?k" using delivered_bounds b(2) by blast
    have "data_rows o2 = take (?k - til) (drop til encs) \<and> pg_session s' = pg_session t"
      using Cons.IH [OF _ b(2) o(1)] t(3) False by simp
    moreover have "take (?k - pos) (drop pos encs)
        = take (til - pos) (drop pos encs) @ take (?k - til) (drop til encs)"
      using take_add [of "til - pos" "?k - til" "drop pos encs"] b(1) k by simp
    ultimately show ?thesis using t(2,4) o(2) by (simp add: d del: delivered.simps)
  qed
qed simp

text \<open>
  C20: Rows are delivered once and in order.  However a client splits the fetching of a portal over
  Execute messages, the data rows it receives are the encoded rows of the result, from the first,
  without gaps or repetitions, up to the position the limits reach; and the query is run once, by
  the first Execute.
\<close>

theorem pg_portal_delivers_once:
  assumes "map_of (pg_portals s) name = Some p" and "po_result p = None" and "po_pos p = 0" and "\<not> po_completed p"
    and "\<not> pg_failed s" and "pg_execute env (po_query p) False s = (Inr r, s1)" and "r_resultset r \<noteq> None"
    and "traverse (pg_row (result_fields r) (po_formats p)) (result_values r) = Inr encs"
    and "pg_loop env s (map (FExecute name) (m # ms)) = (s', out)"
  shows "data_rows out = take (delivered (length encs) 0 (m # ms)) encs \<and> pg_session s' = pg_session s1"
proof -
  obtain c where c: "s1 = s\<lparr>pg_session := c\<rparr>" using assms(6) by (rule pg_execute_session)
  let ?s = "put_portal name (p\<lparr>po_result := Some r\<rparr>) s1"
  have same: "map_put (map_put t k v) k w = map_put t k w" for t :: "(string \<times> pg_portal) list" and k v w
    by (simp add: map_put_def)
  have f: "pg_fetch name (p\<lparr>po_result := Some r\<rparr>) r m s1 = pg_fetch name (p\<lparr>po_result := Some r\<rparr>) r m ?s"
    by (simp add: pg_fetch_def complete_portal_def put_portal_def same Let_def split: prod.split)
  have d: "pg_dispatch env (FExecute name m) s = pg_dispatch env (FExecute name m) ?s"
    using assms(1,2,6) f c by (simp add: pg_dispatch_def pg_execute_portal_def put_portal_def)
  then have "pg_step env s (FExecute name m) = pg_step env ?s (FExecute name m)"
    using assms(5) c by (simp add: pg_step_def put_portal_def)
  then have l: "pg_loop env ?s (map (FExecute name) (m # ms)) = (s', out)" using assms(9) by simp
  have "holds name p r 0 False ?s"
    using assms(3-5,7) c by (simp add: holds_def put_portal_def)
  from loop_delivers [OF this _ assms(8) l] show ?thesis by (simp add: put_portal_def)
qed

section \<open>Instances\<close>

definition demo_env :: "(nat, demo_column) pg_env" where
  "demo_env = \<lparr>pe_client = demo_client, pe_sdk = demo_sdk, pe_parser = demo_parser, pe_printable = (\<lambda>_. False),
     pe_ctx = Background, pe_timeout = 30\<rparr>"

definition demo_config :: config where
  "demo_config = \<lparr>mode = ''postgres'', postgresAddr = ''127.0.0.1:5432'', user = ''root'', password = ''pw'',
     tlsCert = '''', tlsKey = '''', queryTimeoutSeconds = 30, addr = ''127.0.0.1:3306'',
     milvus = \<lparr>address = ''m'', username = '''', mpassword = '''', enableTLSAuth = False, apiKey = ''''\<rparr>,
     logLevel = '''', logPath = ''''\<rparr>"

definition demo_connection :: "(nat, demo_column) pg" where
  "demo_connection = \<lparr>pg_session = demo_session, pg_statements = [],
     pg_portals = [('''', new_portal ''SELECT id, name FROM t'' [])], pg_failed = False\<rparr>"

theorem pg_connection_invariant_witness:
  "\<exists>s0 out. pg_start demo_env demo_config (\<lambda>_. Inr 0) [(''user'', ''root'')] (FPassword ''pw'') = (Some s0, out) \<and>
     table_ok (pg_statements (fst (pg_loop demo_env s0 [FParse ''a'' ''SELECT $1'' [], FSync])))"
proof -
  let ?st = "pg_start demo_env demo_config (\<lambda>_. Inr 0) [(''user'', ''root'')] (FPassword ''pw'')"
  have "fst ?st \<noteq> None" by code_simp
  then obtain s0 out where st: "?st = (Some s0, out)" by (cases ?st) auto
  obtain s sent where l: "pg_loop demo_env s0 [FParse ''a'' ''SELECT $1'' [], FSync] = (s, sent)"
    by (cases "pg_loop demo_env s0 [FParse ''a'' ''SELECT $1'' [], FSync]")
  from pg_connection_invariant [OF st l] st l show ?thesis by auto
qed

theorem pg_error_ends_batch_witness:
  "\<exists>e. snd (pg_loop demo_env demo_connection [FDescribe (CHR ''S'') ''x'', FExecute '''' 0]) = [fail_message e] \<and>
     c_calls (pg_session (fst (pg_loop demo_env demo_connection [FDescribe (CHR ''S'') ''x'', FExecute '''' 0]))) = []"
proof -
  let ?ms = "[FDescribe (CHR ''S'') ''x'', FExecute '''' 0]"
  obtain s out where l: "pg_loop demo_env demo_connection ?ms = (s, out)"
    by (cases "pg_loop demo_env demo_connection ?ms")
  have "pg_failed (fst (pg_loop demo_env demo_connection ?ms))" by code_simp
  with pg_error_ends_batch [OF l] l obtain before m after e where
    b: "?ms = before @ m # after" "fails_at demo_env demo_connection before m s out e"
    by (auto simp: demo_connection_def asks_ready_def)
  have d: "pg_dispatch demo_env (FDescribe (CHR ''S'') ''x'') demo_connection
      = (demo_connection, [], Some (Err ''unknown prepared statement''))"
    by (simp add: pg_dispatch_def pg_describe_def demo_connection_def)
  have "before = []"
  proof (rule ccontr)
    assume "before \<noteq> []"
    then have "before = [FDescribe (CHR ''S'') ''x'']" using b(1) by (auto simp: Cons_eq_append_conv)
    with b(2) d show False by (simp add: fails_at_def pg_step_def demo_connection_def)
  qed
  with b d have so: "s = demo_connection\<lparr>pg_failed := True\<rparr>" "out = [fail_message e]"
    by (auto simp: fails_at_def)
  have "c_calls (pg_session demo_connection) = []" by (simp add: demo_connection_def demo_session_def NewSession_def)
  then show ?thesis unfolding l so by auto
qed

theorem pg_prepare_only_reads_witness:
  "c_db (pg_session (fst (pg_loop demo_env demo_connection
     [FParse '''' ''DROP INDEX i ON t'' [], FBind ''p'' '''' [] [] [], FDescribe (CHR ''P'') ''p'']))) = ''default''"
proof -
  let ?ms = "[FParse '''' ''DROP INDEX i ON t'' [], FBind ''p'' '''' [] [] [], FDescribe (CHR ''P'') ''p'']"
  obtain s out where l: "pg_loop demo_env demo_connection ?ms = (s, out)"
    by (cases "pg_loop demo_env demo_connection ?ms")
  from pg_prepare_only_reads [OF l] l show ?thesis
    by (simp add: prepares_def demo_connection_def demo_session_def NewSession_def)
qed

lemma demo_fetch_rows:
  "case fst (pg_execute demo_env ''SELECT id, name FROM t'' False demo_connection) of
     Inl _ \<Rightarrow> False
   | Inr r \<Rightarrow> r_resultset r \<noteq> None \<and>
       traverse (pg_row (result_fields r) []) (result_values r)
         = Inr [[Some ''7'', Some ''a''], [Some ''8'', Some ''b'']]"
  by code_simp

theorem pg_portal_delivers_once_witness:
  "data_rows (snd (pg_loop demo_env demo_connection [FExecute '''' 1, FExecute '''' 5, FExecute '''' 0]))
    = [[Some ''7'', Some ''a''], [Some ''8'', Some ''b'']]"
proof -
  let ?x = "pg_execute demo_env ''SELECT id, name FROM t'' False demo_connection"
  obtain r s1 where x: "?x = (Inr r, s1)" "r_resultset r \<noteq> None"
    "traverse (pg_row (result_fields r) []) (result_values r)
      = Inr [[Some ''7'', Some ''a''], [Some ''8'', Some ''b'']]"
    using demo_fetch_rows by (cases ?x) (auto split: sum.splits)
  let ?p = "new_portal ''SELECT id, name FROM t'' []"
  obtain s' out where l: "pg_loop demo_env demo_connection (map (FExecute '''') (1 # [5, 0])) = (s', out)"
    by (cases "pg_loop demo_env demo_connection (map (FExecute '''') (1 # [5, 0]))")
  have p: "map_of (pg_portals demo_connection) '''' = Some ?p" "\<not> pg_failed demo_connection"
    by (simp_all add: demo_connection_def)
  from pg_portal_delivers_once [OF p(1) _ _ _ p(2) _ x(2) _ l] x l show ?thesis
    by (simp add: new_portal_def)
qed

end
