(* ===== verification/Mysql.thy ===== *)
theory Mysql
  imports Query Config
begin

text \<open>
  The MySQL adapter (\<open>pkg/mysql.go\<close>).  The protocol server (\<open>go-mysql\<close>) is outside the
  repository: it calls the methods of \<open>mysqlHandler\<close>, which are modelled as actions on the session.
  \<open>BuildSimpleResultset\<close> of that library encodes the rows; it is the parameter \<open>build\<close>, from the
  column names, the cells and the protocol (text or binary) to the fields and the encoded rows \<open>'r\<close>.
\<close>

record ('w, 'c) mysql_env =
  my_client :: "('w, 'c) client"
  my_sdk :: "'c sdk"
  my_parser :: sqlparser
  my_printable :: "nat \<Rightarrow> bool"
  my_ctx :: ctxt
  my_timeout :: int

record 'r wire_resultset =
  wr_fields :: "mysql_field list"
  wr_fieldNames :: "string \<rightharpoonup> nat"
  wr_rows :: 'r

record 'r wire_result =
  wi_affectedRows :: int64
  wi_insertId :: int64
  wi_status :: nat
  wi_resultset :: "'r wire_resultset option"

type_synonym 'r builder = "string list \<Rightarrow> goval list list \<Rightarrow> bool \<Rightarrow> 'r wire_resultset result"

text \<open>\<open>b, _ := json.Marshal(x)\<close>: nothing when a component is not finite.\<close>

definition marshal_or_empty :: "float32 list \<Rightarrow> string" where
  "marshal_or_empty v = (case marshal_floats v of Inl _ \<Rightarrow> '''' | Inr b \<Rightarrow> b)"

definition mysql_cell :: "goval \<Rightarrow> goval" where
  "mysql_cell v =
     (case v of
        GBool b \<Rightarrow> GInt64 (if b then 1 else 0)
      | GFloats x \<Rightarrow> GString (marshal_or_empty x)
      | _ \<Rightarrow> v)"

text \<open>
  The loop over \<open>r.Fields\<close>, for an empty result only.  The library must have made as many fields as
  there are names.
\<close>

definition keep_field :: "nat \<Rightarrow> mysql_field \<Rightarrow> 'r wire_resultset \<Rightarrow> 'r wire_resultset" where
  "keep_field i f rs =
     rs\<lparr>wr_fields := (wr_fields rs)[i := f\<lparr>fd_flag := []\<rparr>],
        wr_fieldNames := (wr_fieldNames rs)(fd_name f \<mapsto> i)\<rparr>"

definition keep_fields :: "mysql_field list \<Rightarrow> goval list list \<Rightarrow> 'r wire_resultset \<Rightarrow> 'r wire_resultset result" where
  "keep_fields flds values rs =
     (if values \<noteq> [] then Inr rs
      else if length (wr_fields rs) < length flds then Inl (Panic ''index out of range'')
      else Inr (fold (\<lambda>(i, f). keep_field i f) (List.enumerate 0 flds) rs))"

definition mysqlResult :: "'r builder \<Rightarrow> mysql_result \<Rightarrow> bool \<Rightarrow> 'r wire_result result" where
  "mysqlResult build r binary =
     (let out = \<lparr>wi_affectedRows = r_affectedRows r, wi_insertId = r_insertId r,
                wi_status = SERVER_STATUS_AUTOCOMMIT, wi_resultset = None\<rparr> in
      case r_resultset r of
        None \<Rightarrow> Inr out
      | Some rs \<Rightarrow>
          (let names = map fd_name (rs_fields rs); values = map (map mysql_cell) (rs_values rs) in
           case build names values binary of
             Inl e \<Rightarrow> Inl e
           | Inr w \<Rightarrow> map_result (\<lambda>w'. out\<lparr>wi_resultset := Some w'\<rparr>) (keep_fields (rs_fields rs) values w)))"

section \<open>The handler\<close>

definition my_handleQuery :: "('w, 'c) mysql_env \<Rightarrow> string \<Rightarrow> ('w, 'c, unit) session_op" where
  "my_handleQuery env = handleQuery (my_client env) (my_sdk env) (my_parser env) (my_printable env)"

definition handler_ctx :: "('w, 'c) mysql_env \<Rightarrow> ctxt" where
  "handler_ctx env = WithTimeout (my_ctx env) (my_timeout env)"

definition UseDB :: "('w, 'c) mysql_env \<Rightarrow> string \<Rightarrow> ('w, 'c, unit) session_op" where
  "UseDB env db =
     andThen (modify (\<lambda>s. s\<lparr>c_ctx := handler_ctx env\<rparr>)) (\<lambda>_. handleUseDB (my_client env) db)"

definition mysql_run ::
  "('w, 'c) mysql_env \<Rightarrow> 'r builder \<Rightarrow> string \<Rightarrow> bool \<Rightarrow> ('w, 'c, 'r wire_result) session_op" where
  "mysql_run env build q binary =
     andThen (Execute (my_handleQuery env) (handler_ctx env) q) (\<lambda>r. lift_result (mysqlResult build r binary))"

definition HandleQuery ::
  "('w, 'c) mysql_env \<Rightarrow> 'r builder \<Rightarrow> string \<Rightarrow> ('w, 'c, 'r wire_result) session_op" where
  "HandleQuery env build q = mysql_run env build q False"

definition HandleFieldList :: "('w, 'c, mysql_field list) session_op" where
  "HandleFieldList = throw (Err ''COM_FIELD_LIST is not supported; use DESCRIBE table'')"

text \<open>The numbers of parameters and of columns.\<close>

definition HandleStmtPrepare :: "('w, 'c) mysql_env \<Rightarrow> string \<Rightarrow> ('w, 'c, nat \<times> nat) session_op" where
  "HandleStmtPrepare env q =
     andThen (lift_result (bindSQL q MySQL [] True)) (\<lambda>(normalized, n).
     andThen (Describe (my_handleQuery env) (handler_ctx env) normalized) (\<lambda>r.
       ret (n, case r_resultset r of None \<Rightarrow> 0 | Some rs \<Rightarrow> length (rs_fields rs))))"

definition HandleStmtExecute ::
  "('w, 'c) mysql_env \<Rightarrow> 'r builder \<Rightarrow> string \<Rightarrow> goval list \<Rightarrow> ('w, 'c, 'r wire_result) session_op" where
  "HandleStmtExecute env build q args =
     andThen (lift_result (bindSQL q MySQL args False)) (\<lambda>(q', _). mysql_run env build q' True)"

definition HandleStmtClose :: "('w, 'c, unit) session_op" where
  "HandleStmtClose = ret ()"

definition HandleOtherCommand :: "('w, 'c, unit) session_op" where
  "HandleOtherCommand = throw (Err ''unsupported MySQL command'')"

text \<open>
  \<open>serveMySQL\<close>: the session is opened under a 15 second deadline; the handler gets the context of
  the connection, not the startup one.
\<close>

definition mysql_open :: "('w, 'c) mysql_env \<Rightarrow> (ctxt \<Rightarrow> 'w result) \<Rightarrow> ('w, 'c) conn option" where
  "mysql_open env newSession =
     (let startup = WithTimeout (my_ctx env) 15 in
      case newSession startup of Inl _ \<Rightarrow> None | Inr w \<Rightarrow> Some (NewSession startup w))"

text \<open>
  The commands the protocol server dispatches to the handler.  An error becomes an error packet and
  the next command is read.
\<close>

datatype mysql_command =
    ComInitDB string | ComQuery string | ComFieldList | ComStmtPrepare string
  | ComStmtExecute string "goval list" | ComStmtClose | ComOther

definition mysql_dispatch ::
  "('w, 'c) mysql_env \<Rightarrow> 'r builder \<Rightarrow> mysql_command \<Rightarrow> ('w, 'c, unit) session_op" where
  "mysql_dispatch env build c =
     (case c of
        ComInitDB db \<Rightarrow> UseDB env db
      | ComQuery q \<Rightarrow> andThen (HandleQuery env build q) (\<lambda>_. ret ())
      | ComFieldList \<Rightarrow> andThen HandleFieldList (\<lambda>_. ret ())
      | ComStmtPrepare q \<Rightarrow> andThen (HandleStmtPrepare env q) (\<lambda>_. ret ())
      | ComStmtExecute q args \<Rightarrow> andThen (HandleStmtExecute env build q args) (\<lambda>_. ret ())
      | ComStmtClose \<Rightarrow> HandleStmtClose
      | ComOther \<Rightarrow> HandleOtherCommand)"

fun mysql_loop ::
  "('w, 'c) mysql_env \<Rightarrow> 'r builder \<Rightarrow> mysql_command list \<Rightarrow> ('w, 'c) conn \<Rightarrow> ('w, 'c) conn" where
  "mysql_loop env build [] s = s"
| "mysql_loop env build (c # cs) s = mysql_loop env build cs (snd (mysql_dispatch env build c s))"

text \<open>
  \<open>serveMySQL\<close> up to the deferred \<open>session.Close()\<close>, for the commands the library dispatches before
  the connection ends; the first may be the database of the handshake, and a refused handshake has
  none.
\<close>

definition serveMySQL ::
  "('w, 'c) mysql_env \<Rightarrow> 'r builder \<Rightarrow> (ctxt \<Rightarrow> 'w result) \<Rightarrow> mysql_command list \<Rightarrow> ('w, 'c) conn option" where
  "serveMySQL env build newSession cs =
     map_option (\<lambda>s. snd (CloseSession (my_client env) (mysql_loop env build cs s))) (mysql_open env newSession)"

end
