(* ===== verification/MysqlProps.thy ===== *)
theory MysqlProps
  imports SessionProps BindProps Mysql
begin

text \<open>
  The prepared statements of the MySQL adapter: preparing has no effect, and what is announced for a
  statement is what executing it asks for.
\<close>

lemma prepare_steps:
  assumes "HandleStmtPrepare env q s = (Inr (n, cols), s')"
  obtains p r where "bindSQL q MySQL [] True = Inr (p, n)"
    and "Describe (my_handleQuery env) (handler_ctx env) p s = (Inr r, s')"
    and "cols = (case r_resultset r of None \<Rightarrow> 0 | Some rs \<Rightarrow> length (rs_fields rs))"
  using assms by (auto simp: HandleStmtPrepare_def action_simps split: sum.splits prod.splits)

text \<open>
  C30: Prepare and execute agree for MySQL.  Preparing makes only schema lookups.  The number of
  parameters it announces is the number executing needs: with as many values that have literals the
  statement is bound and run as one query with binary rows, with any other number it fails before
  anything is sent to Milvus.
\<close>

theorem mysql_prepare_then_execute:
  assumes "HandleStmtPrepare env q s = (Inr (n, cols), s')" and "\<forall>v \<in> set args. is_ok (sqlLiteral v)"
  shows "c_db s' = c_db s \<and> extends is_schema_call (c_calls s) (c_calls s') \<and>
    (if length args = n
     then \<exists>q' m. bindSQL q MySQL args False = Inr (q', m) \<and> HandleStmtExecute env build q args = mysql_run env build q' True
     else \<exists>e. HandleStmtExecute env build q args = throw e)"
proof -
  obtain p r where p: "bindSQL q MySQL [] True = Inr (p, n)"
    "Describe (my_handleQuery env) (handler_ctx env) p s = (Inr r, s')"
    using assms(1) by (rule prepare_steps)
  have d: "c_db s' = c_db s" "extends is_schema_call (c_calls s) (c_calls s')"
    using Describe_frame [OF p(2) [unfolded my_handleQuery_def]] by simp_all
  show ?thesis
  proof (cases "length args = n")
    case True
    then obtain b where "bindSQL q MySQL args False = Inr b" using bindSQL_describe_ok [OF p(1) assms(2)] by auto
    with True d show ?thesis
      by (cases b) (auto simp: HandleStmtExecute_def fun_eq_iff action_simps)
  next
    case False
    have "bindSQL q MySQL args False \<noteq> Inr b" for b using bindSQL_describe_length [OF p(1)] False by (cases b) blast
    then obtain e where "bindSQL q MySQL args False = Inl e" by (cases "bindSQL q MySQL args False") auto
    then have "HandleStmtExecute env build q args = throw e"
      by (simp add: HandleStmtExecute_def fun_eq_iff action_simps)
    with False d show ?thesis by auto
  qed
qed

section \<open>Instances\<close>

definition demo_mysql_env :: "(nat, demo_column) mysql_env" where
  "demo_mysql_env = \<lparr>my_client = demo_client, my_sdk = demo_sdk, my_parser = demo_parser,
     my_printable = (\<lambda>_. False), my_ctx = Background, my_timeout = 30\<rparr>"

definition demo_builder :: "goval list list builder" where
  "demo_builder names cells binary =
     Inr \<lparr>wr_fields = map empty_field names, wr_fieldNames = map_of (zip names [0..<length names]), wr_rows = cells\<rparr>"

lemma demo_prepared:
  "fst (HandleStmtPrepare demo_mysql_env ''SELECT id, name FROM t WHERE id = ?'' demo_session) = Inr (1, 2)"
  by code_simp

theorem mysql_prepare_then_execute_witness:
  "\<exists>q' m. bindSQL ''SELECT id, name FROM t WHERE id = ?'' MySQL [GInt64 7] False = Inr (q', m) \<and>
    HandleStmtExecute demo_mysql_env demo_builder ''SELECT id, name FROM t WHERE id = ?'' [GInt64 7]
      = mysql_run demo_mysql_env demo_builder q' True"
proof -
  let ?q = "''SELECT id, name FROM t WHERE id = ?''"
  obtain s' where p: "HandleStmtPrepare demo_mysql_env ?q demo_session = (Inr (1, 2), s')"
    using demo_prepared by (cases "HandleStmtPrepare demo_mysql_env ?q demo_session") simp
  have l: "\<forall>v \<in> set [GInt64 7]. is_ok (sqlLiteral v)" by code_simp
  from mysql_prepare_then_execute [OF p l, of demo_builder] show ?thesis by simp
qed

end
