(* ===== verification/NoPanic.thy ===== *)
theory NoPanic
  imports SelectRows SessionProps InsertProps
begin

text \<open>
  No statement panics.  The model has a \<open>Panic\<close> wherever the code would dereference a nil pointer, fail
  a type assertion or index out of range; this theory shows that the checks before those places are
  enough, whatever the statement, the schema and the service answer.
\<close>

section \<open>Results without a panic\<close>

fun panics :: "error \<Rightarrow> bool" where
  "panics (Panic _) = True"
| "panics (WrapErr e _) = panics e"
| "panics (MySQLError _ e) = panics e"
| "panics _ = False"

definition calm :: "'a result \<Rightarrow> bool" where
  "calm r \<longleftrightarrow> (case r of Inl e \<Rightarrow> \<not> panics e | Inr _ \<Rightarrow> True)"

lemma calm_simps [simp]: "calm (Inr x)" "calm (Inl e) \<longleftrightarrow> \<not> panics e"
  by (simp_all add: calm_def)

lemma calm_map_result [simp]: "calm (map_result f r) \<longleftrightarrow> calm r"
  by (cases r) (simp_all only: map_result_simps calm_simps)

lemma calm_error: "r = Inl e \<Longrightarrow> calm r \<Longrightarrow> \<not> panics e"
  by simp

lemma calm_traverse:
  assumes "\<And>x. x \<in> set xs \<Longrightarrow> calm (f x)"
  shows "calm (traverse f xs)"
proof (cases "traverse f xs")
  case (Inl e)
  then obtain x where "x \<in> set xs" "f x = Inl e" using traverse_Inl by blast
  with assms [of x] Inl show ?thesis by simp
qed simp

text \<open>An operation that never ends in a panic.\<close>

definition never_panics :: "('s, 'a) action \<Rightarrow> bool" where
  "never_panics m \<longleftrightarrow> (\<forall>s. calm (fst (m s)))"

lemma never_panicsD: "never_panics m \<Longrightarrow> m s = (Inl e, s') \<Longrightarrow> \<not> panics e"
  unfolding never_panics_def by (metis calm_simps(2) fst_conv)

lemma calm_post:
  assumes "never_panics m" and "\<And>s x s'. m s = (Inr x, s') \<Longrightarrow> Q x" and "\<And>x. Q x \<Longrightarrow> never_panics (f x)"
  shows "never_panics (andThen m f)"
  unfolding never_panics_def
proof
  fix s
  obtain r s' where m: "m s = (r, s')" by (cases "m s")
  have "calm r" using assms(1) m by (auto simp: never_panics_def dest: spec [of _ s])
  then show "calm (fst (andThen m f s))"
    using m assms(2,3) by (cases r) (auto simp: action_simps never_panics_def)
qed

lemma calm_andThen: "never_panics m \<Longrightarrow> (\<And>x. never_panics (f x)) \<Longrightarrow> never_panics (andThen m f)"
  by (rule calm_post [where Q = "\<lambda>_. True"]) simp_all

lemma calm_lift_bind: "calm r \<Longrightarrow> (\<And>x. r = Inr x \<Longrightarrow> never_panics (f x)) \<Longrightarrow> never_panics (andThen (lift_result r) f)"
  by (cases r) (auto simp: never_panics_def action_simps)

lemma calm_basic:
  "never_panics (ret x)" "never_panics (modify g)" "never_panics (writeOK res)" "never_panics (writeResultset st rs)"
  "\<not> panics e \<Longrightarrow> never_panics (throw e)" "calm r \<Longrightarrow> never_panics (lift_result r)"
  by (simp_all add: never_panics_def action_simps writeOK_def writeResultset_def)

lemma calm_call: "(\<And>ctx w. calm (fst (f ctx w))) \<Longrightarrow> never_panics (call req f)"
  by (simp add: never_panics_def call_def split: prod.split) (metis fst_conv)

lemma calm_mapErr: "never_panics m \<Longrightarrow> (\<And>e. panics (h e) \<Longrightarrow> panics e) \<Longrightarrow> never_panics (mapErr h m)"
  unfolding never_panics_def
proof
  fix s
  assume m: "\<forall>s. calm (fst (m s))" and h: "\<And>e. panics (h e) \<Longrightarrow> panics e"
  from m have "calm (fst (m s))" ..
  then show "calm (fst (mapErr h m s))" using h by (cases "m s"; cases "fst (m s)") (auto simp: action_simps)
qed

lemma calm_withState: "(\<And>s. never_panics (f s)) \<Longrightarrow> never_panics (withState f)"
  by (simp add: never_panics_def action_simps)

lemma calm_if: "(b \<Longrightarrow> never_panics m) \<Longrightarrow> (\<not> b \<Longrightarrow> never_panics n) \<Longrightarrow> never_panics (if b then m else n)"
  by simp

lemmas calm_intros = calm_lift_bind calm_andThen calm_basic calm_call calm_mapErr calm_withState calm_if

section \<open>What is assumed of the libraries\<close>

text \<open>The SDK, its remote calls and the SQL parser return errors; they do not panic.\<close>

definition calm_client :: "('w, 'c) client \<Rightarrow> bool" where
  "calm_client cl \<longleftrightarrow>
     (\<forall>ctx w. calm (fst (cl_listDatabases cl ctx w)) \<and> calm (fst (cl_listCollections cl ctx w))) \<and>
     (\<forall>ctx n w. calm (fst (cl_createDatabase cl ctx n w)) \<and> calm (fst (cl_dropDatabase cl ctx n w)) \<and>
       calm (fst (cl_usingDatabase cl ctx n w)) \<and> calm (fst (cl_describeCollection cl ctx n w)) \<and>
       calm (fst (cl_dropCollection cl ctx n w)) \<and> calm (fst (cl_loadCollection cl ctx n w)) \<and>
       calm (fst (cl_releaseCollection cl ctx n w)) \<and> calm (fst (cl_flush cl ctx n w)) \<and>
       calm (fst (cl_showPartitions cl ctx n w))) \<and>
     (\<forall>ctx sc k w. calm (fst (cl_createCollection cl ctx sc k w))) \<and>
     (\<forall>ctx t p w. calm (fst (cl_createPartition cl ctx t p w)) \<and> calm (fst (cl_dropPartition cl ctx t p w)) \<and>
       calm (fst (cl_describeIndex cl ctx t p w)) \<and> calm (fst (cl_delete cl ctx t p w))) \<and>
     (\<forall>ctx t ps w. calm (fst (cl_loadPartitions cl ctx t ps w)) \<and> calm (fst (cl_releasePartitions cl ctx t ps w))) \<and>
     (\<forall>ctx t f ix n w. calm (fst (cl_createIndex cl ctx t f ix n w))) \<and>
     (\<forall>ctx t f n w. calm (fst (cl_dropIndex cl ctx t f n w))) \<and>
     (\<forall>g ctx t f w. cl_grpc cl = Some g \<longrightarrow> calm (fst (g ctx t f w))) \<and>
     (\<forall>ctx t cs w. calm (fst (cl_insert cl ctx t cs w)) \<and> calm (fst (cl_upsert cl ctx t cs w))) \<and>
     (\<forall>ctx q w. calm (fst (cl_query cl ctx q w))) \<and>
     (\<forall>ctx q w. calm (fst (cl_search cl ctx q w)) \<and>
       (\<forall>rs. fst (cl_search cl ctx q w) = Inr rs \<longrightarrow> (\<forall>r \<in> set rs. \<forall>e. sr_err r = Some e \<longrightarrow> \<not> panics e)))"

definition calm_sdk :: "'c sdk \<Rightarrow> bool" where
  "calm_sdk sdk \<longleftrightarrow> (\<forall>c v. calm (appendValue sdk c v)) \<and> (\<forall>c i. calm (columnGet sdk c i)) \<and>
     (\<forall>m. calm (newIndexFlat sdk m) \<and> calm (newIndexAUTOINDEX sdk m)) \<and>
     (\<forall>m a b. calm (newIndexHNSW sdk m a b)) \<and> (\<forall>m a. calm (newIndexIvfFlat sdk m a))"

text \<open>
  The parser, and the two laws of its printer the projection relies on: an item without an alias is
  printed as its expression, and an unqualified star as \<open>*\<close>.
\<close>

definition calm_parser :: "sqlparser \<Rightarrow> bool" where
  "calm_parser sp \<longleftrightarrow> (\<forall>q. calm (sp_parseStrictDDL sp q)) \<and>
     (\<forall>x. sp_selectExprString sp (AliasedExpr x '''') = sp_exprString sp x) \<and>
     (\<forall>t. table_name_empty t \<longrightarrow> sp_selectExprString sp (StarExpr t) = ''*'')"

section \<open>Conversions\<close>

named_theorems calm_facts \<open>conversions that never panic\<close>

lemma calm_numbers [calm_facts]:
  "calm (parse_signed fn s b)" "calm (parse_int s b)" "calm (atoi s)" "calm (parse_bool s)"
  "calm (parse_float_bits f s)" "calm (parse_float64 s)" "calm (parse_float32 s)"
proof -
  show s: "calm (parse_signed fn s b)" for fn s b
    by (auto simp: parse_signed_def Let_def split: list.split sum.split)
  show "calm (parse_int s b)" "calm (atoi s)" by (simp_all add: parse_int_def atoi_def s)
  show "calm (parse_bool s)" by (simp add: parse_bool_def)
  show f: "calm (parse_float_bits f s)" for f
    by (auto simp: parse_float_bits_def split: option.split prod.split bool.split)
  show "calm (parse_float64 s)" "calm (parse_float32 s)" by (simp_all add: parse_float64_def parse_float32_def f)
qed

lemma calm_json [calm_facts]: "calm (unmarshal_raw s)" "calm (unmarshal_floats s)"
proof -
  show r: "calm (unmarshal_raw s)" by (auto simp: unmarshal_raw_def split: list.split)
  have "calm (unmarshal_float32 x)" for x
    by (auto simp: unmarshal_float32_def split: list.split sum.split)
  then show "calm (unmarshal_floats s)"
    using r by (auto simp: unmarshal_floats_def split: sum.split intro: calm_traverse)
qed

lemma calm_literalText [calm_facts]: "calm (literalText e)"
  by (cases e) (auto simp: literalText_def Let_def split: expr.split)

lemma calm_vector_argument [calm_facts]: "calm (vector_argument f e)"
  by (cases e) (auto simp: vector_argument_def split: select_expr.split)

lemma calm_parse_field [calm_facts]:
  "calm (parse_field_bool s)" "calm (parse_field_int dt s)" "calm (parse_field_float s)"
  "calm (parse_field_double s)" "calm (parse_field_varchar ps e s)" "calm (parse_field_vector ps s)"
proof -
  note c = calm_numbers calm_json
  show "calm (parse_field_bool s)" by (simp add: parse_field_bool_def c)
  show "calm (parse_field_int dt s)" by (cases dt) (simp_all add: parse_field_int_def c)
  show "calm (parse_field_float s)"
    using c(7) [of s] by (auto simp: parse_field_float_def split: sum.split)
  show "calm (parse_field_double s)"
    using c(6) [of s] by (auto simp: parse_field_double_def split: sum.split)
  show "calm (parse_field_varchar ps e s)"
    by (auto simp: parse_field_varchar_def split: expr.split val_type.split sum.split)
  show "calm (parse_field_vector ps s)"
    using c(8,9) [of s] by (auto simp: parse_field_vector_def Let_def split: sum.split)
qed

lemma calm_case:
  assumes "calm r" and "\<And>x. r = Inr x \<Longrightarrow> calm (f x)"
  shows "calm (case r of Inl e \<Rightarrow> Inl e | Inr x \<Rightarrow> f x)"
  using assms by (cases r) simp_all

lemma calm_case_iff:
  "calm r \<Longrightarrow> calm (case r of Inl e \<Rightarrow> Inl e | Inr x \<Rightarrow> f x) \<longleftrightarrow> (\<forall>x. r = Inr x \<longrightarrow> calm (f x))"
  by (cases r) simp_all

lemma calm_fieldValue [calm_facts]: "calm (fieldValue sdk f e)"
  unfolding fieldValue_def
  by (intro calm_case calm_facts) (auto simp: calm_facts split: field_type.split)

lemma calm_filters [calm_facts]: "calm (filterValue tbl e)" "calm (scalarFilter tbl e)"
proof -
  show v: "calm (filterValue tbl e)" for tbl e
    by (cases e) (auto simp: filterValue_def unsupported_value_def split: val_type.split expr.split)
  have c: "calm (filterCompare tbl op l r esc)" for tbl op l r esc
    unfolding filterCompare_def using v by (auto intro!: calm_case)
  have "calm (filterIn tbl op l r)" for tbl op l r
    unfolding filterIn_def
    by (intro calm_case v) (auto simp: filterItem_def v intro!: calm_traverse split: expr.split)
  with c have k: "calm (filterComparison tbl op l r esc)" for tbl op l r esc
    by (auto simp: filterComparison_def split: expr.split)
  have p: "calm a \<Longrightarrow> calm b \<Longrightarrow> calm (filterPair a b op)" for a b op
    unfolding filterPair_def by (intro calm_case) auto
  show "calm (scalarFilter tbl e)"
    by (induction tbl e rule: scalarFilter.induct) (auto simp: k intro: p)
qed

lemma calm_extractVector [calm_facts]: "calm (extractVector e)"
proof (induction e rule: extractVector.induct)
  case (2 a b)
  then show ?case unfolding extractVector.simps by (intro calm_case) (auto split: prod.split intro!: calm_case)
next
  case (3 op l r esc)
  then show ?case by (auto simp: vectorComparison_def split: expr.split)
qed auto

lemma calm_planSelect [calm_facts]: "calm (planSelect sp tbl s)"
proof -
  have i: "calm (selectInteger e)" for e
    by (auto simp: selectInteger_def split: expr.split sum.split)
  have "calm (plan_projection sp n e)" for n e
    by (auto simp: plan_projection_def split: select_expr.split expr.split)
  then have p: "calm (traverse (plan_projection sp n) es)" for n es by (rule calm_traverse)
  have c: "calm (plan_collection ts)" for ts
    by (auto simp: plan_collection_def split: list.split table_expr.split simple_table_expr.split)
  have w: "calm (plan_where tbl w)" for w
    unfolding plan_where_def
    by (auto split: option.split prod.split intro!: calm_case calm_facts simp: calm_facts)
  have l: "calm (plan_limit l)" for l
    unfolding plan_limit_def by (auto split: option.split intro!: calm_case i simp: i)
  show ?thesis
    unfolding planSelect_def by (auto intro!: calm_case c p w l split: prod.split)
qed

section \<open>Columns, schemas, indexes\<close>

lemma calm_emptyColumn: "calm (emptyColumn sdk f)"
  using calm_numbers(3) [of "map_get (f_typeParams f) ''dim''"]
  by (auto simp: emptyColumn_def column_kind_of_def split: field_type.split sum.split)

lemma calm_append_values:
  "calm_sdk sdk \<Longrightarrow> \<forall>row \<in> set rs. j < length row \<Longrightarrow> calm (append_values sdk f name j i c rs)"
proof (induction sdk f name j i c rs rule: append_values.induct)
  case (2 sdk f name j i c row rs)
  have "calm (fieldValue sdk f (row ! j))" "calm (appendValue sdk c v)" for v
    using 2(2) calm_fieldValue by (auto simp: calm_sdk_def)
  with 2 show ?case
    by (cases "fieldValue sdk f (row ! j)") (auto intro!: calm_case)
qed simp

lemma calm_checks:
  "calm (check_names flds seen ns)" "calm (check_missing seen fs)" "calm (check_row_lengths n i rs)"
proof -
  show "calm (check_names flds seen ns)"
    by (induction flds seen ns rule: check_names.induct) (auto split: option.split)
  show "calm (check_missing seen fs)" by (induction seen fs rule: check_missing.induct) auto
  show "calm (check_row_lengths n i rs)" by (induction n i rs rule: check_row_lengths.induct) auto
qed

text \<open>Every name has passed \<open>check_names\<close>, so the field is never nil.\<close>

lemma check_row_lengths_ok: "check_row_lengths n i rs = Inr u \<Longrightarrow> \<forall>row \<in> set rs. length row = n"
  by (induction n i rs rule: check_row_lengths.induct) (auto split: if_splits)

lemma calm_FillInsertColumns:
  assumes "calm_sdk sdk"
  shows "calm (FillInsertColumns sdk sch s)"
proof -
  have f: "calm (fill_column sdk flds rs jn)"
    if "flds (snd jn) \<noteq> None" "\<forall>row \<in> set rs. fst jn < length row" for flds rs jn
    using that assms
    by (auto simp: fill_column_def intro!: calm_case calm_emptyColumn calm_append_values)
  have t: "calm (traverse (fill_column sdk flds rs) (List.enumerate 0 ns))"
    if "check_names flds [] ns = Inr u" "check_row_lengths (length ns) 0 rs = Inr v" for flds ns rs u v
    using that(1) check_names_ok [of flds "[]" ns] check_row_lengths_ok [OF that(2)]
    by (intro calm_traverse f) (fastforce simp: in_set_enumerate_eq)+
  show ?thesis
    unfolding FillInsertColumns_def Let_def
    by (auto split: insert_rows.split intro!: calm_case calm_checks t)
qed

lemma calm_schema: "calm (DDLToMilvusSchema sp stmt)"
proof -
  have "calm (vector_params l)" "calm (varchar_params l)" for l
    by (auto simp: vector_params_def varchar_params_def split: option.split)
  then have dt: "calm (column_data_type sp t)" for t
    by (auto simp: column_data_type_def split: option.split)
  have "calm (column_key t)" for t by (simp add: column_key_def)
  with dt have "calm (columnToMilvusField sp c)" for c
    unfolding columnToMilvusField_def Let_def by (auto split: prod.split intro!: calm_case)
  then have "calm (schema_column sp c)" for c
    unfolding schema_column_def by (cases "columnToMilvusField sp c") (auto, metis calm_simps(2))
  then have tr: "calm (traverse (schema_column sp) cs)" for cs by (rule calm_traverse)
  have c: "calm (check_field seen f)" for seen f by (simp add: check_field_def)
  have "calm (check_fields seen a b fs)" for seen a b fs
    by (induction seen a b fs rule: check_fields.induct) (auto intro!: calm_case c)
  with tr show ?thesis
    unfolding DDLToMilvusSchema_def by (auto split: option.split prod.split intro!: calm_case)
qed

lemma calm_index_params: "calm (index_params k opts)"
proof -
  have "calm (index_options ps parts)" for ps parts
  proof (induction parts arbitrary: ps)
    case (Cons part parts)
    show ?case unfolding index_options.simps Let_def by (simp add: Cons.IH split: list.split)
  qed simp
  moreover have "calm (default_metric ps)" for ps by (simp add: default_metric_def Let_def)
  ultimately show ?thesis unfolding index_params_def Let_def by (intro calm_case) auto
qed

lemma calm_buildIndex: "calm_sdk sdk \<Longrightarrow> calm (buildIndex sdk ps)"
  unfolding buildIndex_def Let_def calm_sdk_def
  by (simp add: calm_case_iff calm_numbers split: list.split)

section \<open>Projections and rows\<close>

lemma calm_buildResultset: "calm (buildResultset flds names values)"
proof -
  have f: "calm (formatField f v)" for f v by (cases v) (simp_all add: formatField_def)
  have "calm (formatFields fs row)" for fs row
    unfolding formatFields_def by (rule calm_traverse) (auto simp: f split: prod.split)
  then have "calm (check_rows d n i fs rws)" for d n i fs rws
    by (induction d n i fs rws rule: check_rows.induct) (auto intro!: calm_case)
  then show ?thesis by (simp add: buildResultset_def Let_def)
qed

text \<open>An accepted projection is one star, one count or a list of fields, so the assertions hold.\<close>

lemma calm_select_columns:
  assumes sp: "calm_parser sp" and p: "planSelect sp tbl s = Inr p"
  shows "calm (select_columns sp sch vf (sel_exprs s))"
proof -
  let ?n = "length (sel_exprs s)"
  have proj: "plan_projection sp ?n e = Inr ()" if "e \<in> set (sel_exprs s)" for e
  proof -
    obtain us where "traverse (plan_projection sp ?n) (sel_exprs s) = Inr us"
      using p by (auto simp: planSelect_def split: if_splits sum.splits)
    then show ?thesis using that by (auto simp: traverse_Inr list_all2_conv_all_nth in_set_conv_nth)
  qed
  have "calm (select_column sp flds vf e)"
    if e: "e \<in> set (sel_exprs s)" and star: "\<not> (?n = 1 \<and> sp_selectExprString sp (hd (sel_exprs s)) = ''*'')" for e flds
  proof -
    have hd: "hd (sel_exprs s) = e" if "?n = 1" using that e by (auto simp: length_Suc_conv)
    have "calm (select_name sp e)"
      using proj [OF e] sp star hd
      by (cases e) (auto simp: plan_projection_def select_name_def calm_parser_def split: if_splits expr.split expr.split_asm)
    then show ?thesis by (auto simp: select_column_def intro!: calm_case split: option.split)
  qed
  then show ?thesis unfolding select_columns_def by (auto intro!: calm_traverse)
qed

lemma calm_search_field: "calm (search_field sch n)"
  by (auto simp: search_field_def split: option.split)

lemma calm_search_vector:
  assumes "search_field sch n = Inr f"
  shows "calm (search_vector sdk f e)"
proof (cases e)
  case (Some x)
  have "f_dataType f = FieldTypeFloatVector"
    using assms by (auto simp: search_field_def split: option.splits if_splits)
  then have "\<exists>v. y = GFloats v" if "fieldValue sdk f x = Inr y" for y
    using fieldValue_Inr [OF that] by (cases y) (simp_all add: value_fits_def)
  then show ?thesis
    using calm_fieldValue [of sdk f x] Some
    by (cases "fieldValue sdk f x") (auto simp: search_vector_def split: goval.split)
qed (simp add: search_vector_def)

lemma calm_rows:
  assumes "calm_sdk sdk"
  shows "calm (search_rows sdk names pk r)" and "calm (query_rows sdk names cols)"
proof -
  have g: "calm (columnGet sdk c i)" for c i using assms by (simp add: calm_sdk_def)
  have "calm (search_cell sdk r cs pk i n)" for cs i n
    by (auto simp: search_cell_def g split: option.split)
  then show "calm (search_rows sdk names pk r)"
    unfolding search_rows_def Let_def by (intro calm_traverse)
  have "calm (query_cell sdk cols i n)" for i n by (auto simp: query_cell_def g split: option.split)
  then show "calm (query_rows sdk names cols)"
    unfolding query_rows_def by (intro calm_traverse)
qed

section \<open>The handlers\<close>

lemma calm_clientD:
  assumes "calm_client cl"
  shows "calm (fst (cl_listDatabases cl ctx w))" "calm (fst (cl_listCollections cl ctx w))"
    "calm (fst (cl_createDatabase cl ctx n w))" "calm (fst (cl_dropDatabase cl ctx n w))"
    "calm (fst (cl_usingDatabase cl ctx n w))" "calm (fst (cl_describeCollection cl ctx n w))"
    "calm (fst (cl_dropCollection cl ctx n w))" "calm (fst (cl_loadCollection cl ctx n w))"
    "calm (fst (cl_releaseCollection cl ctx n w))" "calm (fst (cl_flush cl ctx n w))"
    "calm (fst (cl_showPartitions cl ctx n w))" "calm (fst (cl_createCollection cl ctx sc k w))"
    "calm (fst (cl_createPartition cl ctx n p w))" "calm (fst (cl_dropPartition cl ctx n p w))"
    "calm (fst (cl_describeIndex cl ctx n p w))" "calm (fst (cl_delete cl ctx n p w))"
    "calm (fst (cl_loadPartitions cl ctx n ps w))" "calm (fst (cl_releasePartitions cl ctx n ps w))"
    "calm (fst (cl_createIndex cl ctx n f ix p w))" "calm (fst (cl_dropIndex cl ctx n f p w))"
    "cl_grpc cl = Some g \<Longrightarrow> calm (fst (g ctx n f w))"
    "calm (fst (cl_insert cl ctx n cs w))" "calm (fst (cl_upsert cl ctx n cs w))"
    "calm (fst (cl_query cl ctx qr w))" "calm (fst (cl_search cl ctx sq w))"
  using assms by (simp_all add: calm_client_def)

lemma calm_search_err:
  "calm_client cl \<Longrightarrow> fst (cl_search cl ctx sq w) = Inr rs \<Longrightarrow> r \<in> set rs \<Longrightarrow> sr_err r = Some e \<Longrightarrow> \<not> panics e"
  unfolding calm_client_def by blast

lemma panics_wrapped [simp]: "panics (build_failed e) = panics e"
  by (simp add: build_failed_def)

lemmas calm_ops = calm_intros calm_clientD

lemma calm_rows_op: "never_panics (rows names values)"
  unfolding rows_def by (intro calm_ops calm_buildResultset)

lemma calm_select_result: "never_panics (select_result cs values)"
  unfolding select_result_def Let_def by (intro calm_ops calm_buildResultset)

lemma calm_schema_op: "calm_client cl \<Longrightarrow> never_panics (GetCollectinSchema cl n)"
  unfolding GetCollectinSchema_def
  by (intro calm_ops) (auto intro!: calm_ops split: option.split)

lemma calm_handleInsert:
  assumes "calm_client cl" and "calm_sdk sdk"
  shows "never_panics (handleInsert cl sdk s)"
  unfolding handleInsert_def send_columns_def Let_def
  by (intro calm_ops calm_schema_op calm_FillInsertColumns assms) simp

lemma calm_handleDelete:
  assumes "calm_client cl"
  shows "never_panics (handleDelete cl tbl s)"
proof -
  have "calm (delete_target ts)" for ts
    by (auto simp: delete_target_def split: list.split table_expr.split simple_table_expr.split)
  then show ?thesis
    unfolding handleDelete_def
    by (auto split: option.split intro!: calm_ops assms calm_filters)
qed

lemma calm_ddl_ops:
  assumes "calm_client cl"
  shows "never_panics (handleDDL cl sp d)" "never_panics (handleDBDDL cl b)" "never_panics (handleUseDB cl n)"
  unfolding handleDDL_def handleCreateTable_def handleDropTable_def handleDBDDL_def handleCreateDB_def
    handleDropDB_def handleUseDB_def Let_def
  by (auto intro!: calm_ops assms calm_schema)

lemma calm_show:
  assumes "calm_client cl"
  shows "never_panics (handleShow cl typ)"
proof -
  have "never_panics (show_values n vs)" for n vs
    unfolding show_values_def by (intro calm_ops calm_buildResultset) simp
  then show ?thesis
    unfolding handleShow_def by (auto intro!: calm_ops calm_rows_op assms)
qed

lemma calm_indexes:
  assumes "calm_client cl"
  shows "never_panics (listIndexes cl sdk t)" "never_panics (vectorIndexes cl sdk t f)"
  unfolding listIndexes_def vectorIndexes_def
  by (auto split: option.split intro!: calm_ops assms)

lemma calm_select_ops:
  assumes cl: "calm_client cl" and sdk: "calm_sdk sdk"
  shows "never_panics (select_search cl sdk p sch cs)" "never_panics (select_query cl sdk p lim cs)"
proof -
  have i: "never_panics (search_index cl sdk t f)" for t f
    unfolding search_index_def by (intro calm_andThen calm_indexes cl) (auto split: list.split intro!: calm_ops)
  have rs: "never_panics (case rs of [] \<Rightarrow> select_result cs []
        | r # _ \<Rightarrow> (case sr_err r of Some e \<Rightarrow> throw e
           | None \<Rightarrow> andThen (lift_result (search_rows sdk (map fst cs) (primary_key (s_fields sch)) r)) (select_result cs)))"
    if "\<And>r e. r \<in> set rs \<Longrightarrow> sr_err r = Some e \<Longrightarrow> \<not> panics e" for rs
  proof (cases rs)
    case (Cons r rest)
    then show ?thesis
      using that [of r] by (cases "sr_err r") (auto intro!: calm_ops calm_select_result calm_rows sdk)
  qed (simp add: calm_select_result)
  have s: "never_panics (andThen (call (Search req) (\<lambda>ctx. cl_search cl ctx req)) (\<lambda>rs. case rs of [] \<Rightarrow> select_result cs []
        | r # _ \<Rightarrow> (case sr_err r of Some e \<Rightarrow> throw e
           | None \<Rightarrow> andThen (lift_result (search_rows sdk (map fst cs) (primary_key (s_fields sch)) r)) (select_result cs))))"
    for req
  proof (rule calm_post [OF _ _ rs])
    show "never_panics (call (Search req) (\<lambda>ctx. cl_search cl ctx req))" by (intro calm_ops cl)
    fix s rs' s'
    assume "call (Search req) (\<lambda>ctx. cl_search cl ctx req) s = (Inr rs', s')"
    then have "fst (cl_search cl (c_ctx s) req (c_world s)) = Inr rs'"
      by (auto simp: call_def split: prod.splits)
    then show "\<forall>r \<in> set rs'. \<forall>e. sr_err r = Some e \<longrightarrow> \<not> panics e" using calm_search_err [OF cl] by blast
  qed blast
  show "never_panics (select_search cl sdk p sch cs)"
    unfolding select_search_def Let_def
    by (intro calm_lift_bind calm_search_field calm_search_vector calm_andThen i s)
  show "never_panics (select_query cl sdk p lim cs)"
    unfolding select_query_def Let_def
    by (auto intro!: calm_ops calm_select_result calm_rows cl sdk)
qed

lemma calm_handleSelect:
  assumes "calm_client cl" and "calm_sdk sdk" and "calm_parser sp"
  shows "never_panics (handleSelect cl sdk sp tbl s)"
proof -
  have "never_panics (select_collection cl sdk sp p s)" if "planSelect sp tbl s = Inr p" for p
    unfolding select_collection_def
    by (intro calm_andThen calm_schema_op calm_if calm_basic calm_lift_bind calm_withState calm_select_result
          calm_select_ops calm_select_columns [OF _ that] assms) simp
  then show ?thesis
    unfolding handleSelect_def
    by (auto split: option.split intro!: calm_withState calm_rows_op calm_lift_bind calm_planSelect)
qed

lemma calm_commands:
  assumes "calm_client cl" and "calm_sdk sdk"
  shows "list_all (\<lambda>pa. \<forall>m. never_panics (snd pa m)) (commands cl sdk)"
proof -
  have u: "never_panics a \<Longrightarrow> never_panics b \<Longrightarrow> never_panics (unless_describing a b)" for a b
    unfolding unless_describing_def by (intro calm_ops)
  have k: "never_panics a \<Longrightarrow> never_panics (then_OK a)" for a unfolding then_OK_def by (intro calm_ops)
  note c = u k calm_rows_op calm_schema_op calm_indexes calm_index_params calm_buildIndex calm_buildResultset assms
  have "never_panics (cmd_lifecycle cl m)" "never_panics (cmd_describe cl sdk m)"
    "never_panics (cmd_createIndex cl sdk m)" "never_panics (cmd_dropIndex cl m)"
    "never_panics (cmd_showIndexes cl sdk m)" "never_panics (cmd_partition cl m)"
    "never_panics (cmd_showPartitions cl m)" for m
    unfolding cmd_lifecycle_def cmd_createIndex_def cmd_dropIndex_def cmd_showIndexes_def cmd_partition_def
      cmd_showPartitions_def cmd_describe_def Let_def
    by (intro c calm_ops)+
  then show ?thesis by (simp add: commands_def)
qed

lemma calm_run_command:
  "list_all (\<lambda>pa. \<forall>m. never_panics (snd pa m)) cs \<Longrightarrow> never_panics (run_command cs sql)"
proof (induction cs sql rule: run_command.induct)
  case (2 p act cs sql)
  then show ?case by (cases "find_submatch p sql") (auto intro!: calm_ops)
qed (simp add: calm_basic)

lemma calm_handleQuery_step:
  assumes "calm_client cl" and "calm_sdk sdk" and "calm_parser sp" and "\<And>q. never_panics (f q)"
  shows "never_panics (handleQuery_step cl sdk sp tbl f sql)"
proof -
  have "never_panics (run_statement cl sdk sp tbl stmt)" for stmt
    unfolding run_statement_def
    by (cases stmt) (auto intro!: calm_show calm_ddl_ops calm_handleSelect calm_handleInsert calm_handleDelete
        calm_basic assms(1-3))
  moreover have "calm (validateStatementKind q)" for q
    by (auto simp: validateStatementKind_def Let_def split: list.split)
  moreover have "calm (sp_parseStrictDDL sp q)" for q using assms(3) by (simp add: calm_parser_def)
  ultimately have "never_panics (handleSQL cl sdk sp tbl q)" for q
    unfolding handleSQL_def by (intro calm_ops)
  moreover have "never_panics (handleMilvusCommand cl sdk f q)" for q
    unfolding handleMilvusCommand_def Let_def unless_describing_def
    by (intro calm_ops calm_run_command calm_commands assms)
  ultimately show ?thesis
    unfolding handleQuery_step_def Let_def by (intro calm_ops) simp
qed

lemma calm_handleQuery:
  assumes "calm_client cl" and "calm_sdk sdk" and "calm_parser sp"
  shows "never_panics (handleQuery cl sdk sp tbl sql)"
proof -
  let ?f = "handleQuery_fuel cl sdk sp tbl (Suc 0)"
  let ?g = "\<lambda>q. if starts_R q then ?f q else ret ()"
  have "?f q = handleQuery_step cl sdk sp tbl (\<lambda>_. ret ()) q" if "starts_R q" for q
    using step_R [OF that] by simp
  then have g: "never_panics (?g q)" for q
    using calm_handleQuery_step [OF assms, of "\<lambda>_. ret ()"] by (simp add: calm_basic)
  have "handleQuery cl sdk sp tbl sql = handleQuery_step cl sdk sp tbl ?g sql"
    unfolding handleQuery_def numeral_2_eq_2 handleQuery_fuel.simps(2) by (rule step_cong) simp
  then show ?thesis using calm_handleQuery_step [OF assms g] by simp
qed

text \<open>
  No statement panics.  Whatever the SQL text, the schemas and the answers of Milvus are, a statement
  never ends in a nil dereference, a failed type assertion or unbounded recursion: the checks before
  the places where the code would panic are enough.
\<close>

lemma statement_never_panics:
  assumes "calm_client cl" and "calm_sdk sdk" and "calm_parser sp"
    and "handleQuery cl sdk sp tbl sql s = (Inl e, s')"
  shows "\<not> panics e"
  using calm_handleQuery [OF assms(1-3)] assms(4) by (rule never_panicsD)

section \<open>Instances\<close>

lemma demo_calm: "calm_client demo_client" "calm_sdk demo_sdk" "calm_parser demo_parser"
proof -
  show "calm_client demo_client"
    by (simp add: calm_client_def demo_client_def demo_write_def demo_ids_def)
  show "calm_sdk demo_sdk" by (auto simp: calm_sdk_def demo_sdk_def)
  show "calm_parser demo_parser"
    by (simp add: calm_parser_def demo_parser_def demo_parse_def demo_item_text_def)
qed

end
