(* ===== verification/ConnSafe.thy ===== *)
theory ConnSafe
  imports NoPanic PgFlow MysqlProps
begin

text \<open>
  No message of a client makes a connection panic, with either protocol.  Results are rectangular,
  statements have one type for each parameter, and every conversion checks its input, so the
  positions the adapters read exist.
\<close>

section \<open>Values\<close>

lemma calm_marshal: "calm (marshal_floats v)"
  unfolding marshal_floats_def
  by (intro calm_case calm_traverse) (auto simp: json_float32_def split: fval.split)

lemma calm_formatValue: "calm (formatValue v)"
  by (cases v) (simp_all add: calm_marshal)

lemma calm_pgValue: "calm (pgValue v oid fmt)"
  by (auto simp: pgValue_def calm_numbers calm_formatValue split: goval.split)

lemma calm_pgParameter: "calm (pgParameter d oid fmt)"
  by (auto simp: pgParameter_def text_parameter_def binary_parameter_def Let_def calm_numbers
      split: option.split list.split)

lemma calm_bind_arguments: "length ps = length oids \<Longrightarrow> calm (bind_arguments ps oids fmts)"
  unfolding bind_arguments_def
  by (rule calm_traverse) (auto simp: calm_pgParameter in_set_enumerate_eq)

lemma calm_bindSQL: "calm (bindSQL q d args describe)"
proof -
  have l: "calm (sqlLiteral v)" for v by (cases v) simp_all
  then have p: "calm (placeholder args describe i)" for i by (simp add: placeholder_def)
  have e: "calm (emit x r) = calm r" for x r by (simp add: emit_def)
  have "calm (bind_loop d args describe q n)" for n
  proof (induction "length q" arbitrary: q n rule: less_induct)
    case less
    show ?case
    proof (cases q)
      case (Cons ch s)
      have IH: "length q' \<le> length s \<Longrightarrow> calm (bind_loop d args describe q' k)" for q' k
        using less [of q' k] Cons by simp
      show ?thesis
      proof (cases rule: byte_cases [where c = ch and s = s and d = "Some d"])
        case quoted
        have sq: "length r \<le> length s" if "scan_quoted d ch s = Some (x, v, r)" for x v r
          using scan_quoted_length [OF that] by simp
        show ?thesis
          unfolding Cons by (subst bind_loop.simps) (use quoted sq IH in \<open>auto simp: is_quote_def e split: option.split\<close>)
      next
        case line
        then show ?thesis
          unfolding Cons by (subst bind_loop.simps) (simp add: is_quote_def e IH split: option.split)
      next
        case block
        then show ?thesis
          unfolding Cons by (subst bind_loop.simps) (simp add: is_quote_def e IH split: option.split)
      next
        case question
        have "calm (case placeholder args describe (n + 1) of Inl e \<Rightarrow> Inl e
            | Inr v \<Rightarrow> emit v (bind_loop d args describe s (n + 1)))"
          by (intro calm_case p) (simp add: e IH)
        with question show ?thesis
          unfolding Cons by (subst bind_loop.simps) (simp add: is_quote_def)
      next
        case dollar
        let ?r = "dropWhile is_digit s"
        have b: "calm (case placeholder args describe i of Inl e \<Rightarrow> Inl e
            | Inr v \<Rightarrow> emit v (bind_loop d args describe ?r k))" for i k
          by (intro calm_case p) (simp add: e IH length_dropWhile_le)
        show ?thesis
          unfolding Cons
          by (subst bind_loop.simps) (use dollar b in \<open>auto simp: is_quote_def Let_def split: sum.split\<close>)
      next
        case plain
        then show ?thesis unfolding Cons by (simp add: bind_loop_plain e IH)
      qed
    qed (simp add: bind_loop.simps)
  qed
  then show ?thesis
    unfolding bindSQL_def by (auto intro!: calm_case split: prod.split)
qed

lemma calm_rectangle:
  assumes "wf_result r" and "pgRows r i j fmts = (sent, Some e)"
  shows "\<not> panics e"
proof -
  have row: "calm (pg_row flds fmts row)" if "length row = length flds" for flds row
    unfolding pg_row_def using that
    by (intro calm_traverse) (auto simp: calm_pgValue in_set_enumerate_eq)
  have d: "\<not> panics x" if "pg_data flds fmts rws = (s, Some x)" "\<forall>row \<in> set rws. length row = length flds" for flds rws s x
    using that
  proof (induction rws arbitrary: s)
    case (Cons rw rws)
    then show ?case using row [of rw flds] by (auto split: sum.splits prod.splits)
  qed simp
  have "\<forall>row \<in> set (result_values r). length row = length (result_fields r)"
    using assms(1) by (auto simp: wf_result_def wf_resultset_def result_values_def result_fields_def split: option.splits)
  then have "\<forall>row \<in> set (take (j - i) (drop i (result_values r))). length row = length (result_fields r)"
    using in_set_takeD in_set_dropD by metis
  then show ?thesis using d assms(2) unfolding pgRows_def by blast
qed

section \<open>PostgreSQL messages\<close>

definition calm_env :: "('w, 'c) pg_env \<Rightarrow> bool" where
  "calm_env env \<longleftrightarrow> calm_client (pe_client env) \<and> calm_sdk (pe_sdk env) \<and> calm_parser (pe_parser env)"

lemma calm_Execute: "(\<And>q. never_panics (hq q)) \<Longrightarrow> never_panics (Execute hq ctx q)"
  unfolding Execute_def Let_def by (intro calm_intros)

lemma calm_Describe: "(\<And>q. never_panics (hq q)) \<Longrightarrow> never_panics (Describe hq ctx q)"
  using calm_Execute [of hq ctx q] by (simp add: Describe_def never_panics_def split: prod.split) (metis fst_conv)

lemma calm_pg_execute:
  assumes "calm_env env" and "pg_execute env q d s = (Inl e, s')"
  shows "\<not> panics e"
proof -
  have h: "never_panics (pg_handleQuery env q)" for q
    using assms(1) unfolding calm_env_def pg_handleQuery_def by (intro calm_handleQuery) simp_all
  let ?m = "if d then Describe (pg_handleQuery env) (query_ctx env) q else Execute (pg_handleQuery env) (query_ctx env) q"
  obtain c where "?m (pg_session s) = (Inl e, c)"
    using assms(2) on_session_frame [of ?m s "Inl e" s'] unfolding pg_execute_def by blast
  moreover have "never_panics ?m" using calm_Execute [OF h] calm_Describe [OF h] by simp
  ultimately show ?thesis by (intro never_panicsD)
qed

lemma calm_parameterOIDs:
  assumes "calm_client cl"
  shows "never_panics (parameterOIDs cl sp ctx q oids)"
proof -
  have "never_panics m \<Longrightarrow> never_panics (with_ctx c m)" for m :: "('a, 'b, schema) session_op" and c
    by (simp add: never_panics_def with_ctx_def split: prod.split) (metis fst_conv)
  then have "never_panics (with_ctx ctx (GetCollectinSchema cl t))" for t
    by (simp add: calm_schema_op assms)
  then show ?thesis
    unfolding parameterOIDs_def
    by (auto simp: Let_def split: prod.split sum.split intro!: calm_intros calm_bindSQL)
qed

lemma calm_on_session: "never_panics m \<Longrightarrow> on_session m s = (Inl e, s') \<Longrightarrow> \<not> panics e"
  using on_session_frame never_panicsD by metis

lemma calm_bindSQL_Inl: "bindSQL q d args b = Inl e \<Longrightarrow> \<not> panics e"
  using calm_bindSQL [of q d args b] by simp

lemma calm_run_query:
  assumes "calm_env env" and "pg_run_query env q s = (s', out, Some e)"
  shows "\<not> panics e"
proof -
  have r: "\<not> panics x" if "pg_execute env b False s = (Inr r, t)" "query_messages b r = (o', Some x)" for b r t o' x
    using that calm_rectangle [OF pg_execute_wf [OF that(1)]]
    by (auto simp: query_messages_def split: option.splits prod.splits)
  show ?thesis
    using assms(2) r
    by (auto simp: pg_run_query_def split: if_splits sum.splits prod.splits
        dest: calm_bindSQL_Inl calm_pg_execute [OF assms(1)])
qed

lemma calm_parse:
  assumes "calm_env env" and "pg_parse env n q os s = (s', out, Some e)"
  shows "\<not> panics e"
proof -
  have "calm_client (pe_client env)" using assms(1) by (simp add: calm_env_def)
  with assms(2) show ?thesis
    by (auto simp: pg_parse_def split: if_splits sum.splits prod.splits
        dest: calm_bindSQL_Inl calm_on_session [OF calm_parameterOIDs])
qed

lemma calm_describe:
  assumes "calm_env env" and "pg_describe env t n s = (s', out, Some e)"
  shows "\<not> panics e"
  using assms(2)
  by (auto simp: pg_describe_def pg_describe_query_def Let_def split: if_splits sum.splits prod.splits option.splits
      dest: calm_bindSQL_Inl calm_pg_execute [OF assms(1)])

lemma calm_bind:
  assumes "calm_env env" and "pg_bind env p n pf ps rf s = (s', out, Some e)"
  shows "\<not> panics e"
proof -
  have "bind_arguments ps oids fs = Inl x \<Longrightarrow> length ps = length oids \<Longrightarrow> \<not> panics x" for oids fs x
    using calm_bind_arguments [of ps oids fs] by simp
  with assms(2) show ?thesis
    by (auto simp: pg_bind_def pg_open_portal_def split: if_splits sum.splits prod.splits option.splits
        dest: calm_bindSQL_Inl calm_pg_execute [OF assms(1)])
qed

lemma calm_fetch:
  assumes "wf_result r" and "pg_fetch n p r m s = (s', out, Some e)"
  shows "\<not> panics e"
  using assms(2) calm_rectangle [OF assms(1)]
  by (auto simp: pg_fetch_def complete_portal_def Let_def split: if_splits prod.splits)

lemma calm_execute_portal:
  assumes "calm_env env" and "pg_ok s" and "pg_execute_portal env n m s = (s', out, Some e)"
  shows "\<not> panics e"
proof -
  have "wf_result r" if "map_of (pg_portals s) n = Some p" "po_result p = Some r" for p r
    using assms(2) that by (auto simp: pg_ok_def portal_ok_def split: option.splits)
  with assms(3) show ?thesis
    by (auto simp: pg_execute_portal_def split: option.splits sum.splits prod.splits
        dest: calm_fetch pg_execute_wf calm_pg_execute [OF assms(1)])
qed

text \<open>The errors a reply reports.\<close>

definition calm_reply :: "backend list \<Rightarrow> bool" where
  "calm_reply out \<longleftrightarrow> list_all (\<lambda>b. case b of BErrorResponse _ _ e \<Rightarrow> \<not> panics e | _ \<Rightarrow> True) out"

lemma calm_reply_plain: "list_all plain out \<Longrightarrow> calm_reply out"
  by (induction out) (auto simp: calm_reply_def plain_def is_error_def split: backend.split)

lemma calm_reply_simps [simp]:
  "calm_reply []" "calm_reply (xs @ ys) \<longleftrightarrow> calm_reply xs \<and> calm_reply ys"
  "calm_reply (fail_message e # xs) \<longleftrightarrow> \<not> panics e \<and> calm_reply xs"
  "calm_reply (BReadyForQuery # xs) \<longleftrightarrow> calm_reply xs"
  by (simp_all add: calm_reply_def fail_message_def)

lemma calm_dispatch:
  assumes "calm_env env" and "pg_ok s" and "pg_dispatch env m s = (s', out, e)"
  shows "calm_reply out \<and> (\<forall>x. e = Some x \<longrightarrow> \<not> panics x)"
proof (cases "asks_ready m")
  case False
  have "calm_reply out" using dispatch_plain [OF assms(3) False] by (rule calm_reply_plain)
  moreover have "\<not> panics x" if "e = Some x" for x
    using assms that False
    by (cases m) (auto simp: pg_dispatch_def pg_close_def asks_ready_def split: if_splits
        dest: calm_parse calm_describe calm_bind calm_execute_portal)
  ultimately show ?thesis by blast
next
  case True
  show ?thesis
  proof (cases m)
    case (FQuery q)
    obtain t pre x where r: "pg_run_query env q s = (t, pre, x)" by (cases "pg_run_query env q s")
    have "calm_reply pre" using plain_run_query [OF r] by (rule calm_reply_plain)
    then show ?thesis
      using assms(3) r calm_run_query [OF assms(1), of q s t pre] FQuery
      by (auto simp: pg_dispatch_def pg_query_def split: option.splits)
  qed (use True assms(3) in \<open>auto simp: asks_ready_def pg_dispatch_def\<close>)
qed

lemma calm_step:
  assumes "calm_env env" and "pg_ok s"
  shows "calm_reply (snd (pg_step env s m))"
proof -
  obtain s' out e where "pg_dispatch env m s = (s', out, e)" by (cases "pg_dispatch env m s")
  with calm_dispatch [OF assms this] show ?thesis by (auto simp: pg_step_def split: option.split)
qed

lemma calm_loop: "calm_env env \<Longrightarrow> pg_ok s \<Longrightarrow> calm_reply (snd (pg_loop env s ms))"
proof (induction ms arbitrary: s)
  case (Cons m ms)
  obtain t o1 where t: "pg_step env s m = (t, o1)" by (cases "pg_step env s m")
  have "pg_ok t" "calm_reply o1"
    using pg_ok_step [OF Cons.prems(2), of env m] calm_step [OF Cons.prems, of m] t by simp_all
  with Cons.IH [of t] Cons.prems(1) t show ?case by (auto split: prod.split)
qed simp

text \<open>
  C35: No client can make a PostgreSQL connection panic.  Whatever messages a client sends after logging
  in, in whatever order and with whatever contents, no reply reports a panic: every value has a type
  to convert it to, every cell a field, and every statement runs without one.
\<close>

theorem pg_connection_never_panics:
  assumes "calm_env env" and "pg_start env cfg newSession params auth = (Some s, sent)"
    and "pg_loop env s ms = (s', out)" and "BErrorResponse severity code e \<in> set out"
  shows "\<not> panics e"
proof -
  have "pg_ok s" using pg_start_state [OF assms(2)] by blast
  then have "calm_reply out" using calm_loop [OF assms(1), of s ms] assms(3) by simp
  with assms(4) show ?thesis by (auto simp: calm_reply_def list_all_iff)
qed

section \<open>MySQL commands\<close>

text \<open>The result builder of the protocol library makes a field for each name, and does not panic.\<close>

definition calm_builder :: "'r builder \<Rightarrow> bool" where
  "calm_builder build \<longleftrightarrow> (\<forall>names cells binary. calm (build names cells binary) \<and>
     (\<forall>w. build names cells binary = Inr w \<longrightarrow> length names \<le> length (wr_fields w)))"

lemma calm_mysqlResult:
  assumes "calm_builder build"
  shows "calm (mysqlResult build r binary)"
proof -
  have "calm (case build (map fd_name fs) vs binary of Inl e \<Rightarrow> Inl e
      | Inr w \<Rightarrow> map_result f (keep_fields fs vs w))" for fs vs and f :: "'a wire_resultset \<Rightarrow> 'a wire_result"
  proof (rule calm_case)
    show "calm (build (map fd_name fs) vs binary)" using assms by (simp add: calm_builder_def)
    fix w
    assume "build (map fd_name fs) vs binary = Inr w"
    then have "length (map fd_name fs) \<le> length (wr_fields w)" using assms unfolding calm_builder_def by blast
    then show "calm (map_result f (keep_fields fs vs w))" by (simp add: keep_fields_def)
  qed
  then show ?thesis by (auto simp: mysqlResult_def Let_def split: option.split)
qed

text \<open>
  C36: No command can make a MySQL connection panic.  Whatever the command and the state of the session,
  the handler answers with a result or an ordinary error.
\<close>

theorem mysql_command_never_panics:
  assumes "calm_client (my_client env)" and "calm_sdk (my_sdk env)" and "calm_parser (my_parser env)"
    and "calm_builder build" and "mysql_dispatch env build cmd s = (Inl e, s')"
  shows "\<not> panics e"
proof -
  have h: "never_panics (my_handleQuery env q)" for q
    unfolding my_handleQuery_def by (rule calm_handleQuery [OF assms(1-3)])
  have run: "never_panics (mysql_run env build q b)" for q b
    unfolding mysql_run_def by (intro calm_intros calm_Execute h calm_mysqlResult assms(4))
  have "never_panics (mysql_dispatch env build cmd)"
    unfolding mysql_dispatch_def UseDB_def HandleQuery_def HandleFieldList_def HandleStmtPrepare_def
      HandleStmtExecute_def HandleStmtClose_def HandleOtherCommand_def
    by (cases cmd)
       (auto intro!: calm_intros calm_bindSQL calm_Describe h run calm_ddl_ops assms(1) split: prod.split)
  then show ?thesis using assms(5) by (rule never_panicsD)
qed

section \<open>Instances\<close>

theorem pg_connection_never_panics_witness:
  "\<exists>s sent e. pg_start demo_env demo_config (\<lambda>_. Inr 0) [(''user'', ''root'')] (FPassword ''pw'') = (Some s, sent) \<and>
     snd (pg_loop demo_env s [FQuery ''UPDATE t'']) = [fail_message e, BReadyForQuery] \<and> \<not> panics e"
proof -
  let ?st = "pg_start demo_env demo_config (\<lambda>_. Inr 0) [(''user'', ''root'')] (FPassword ''pw'')"
  let ?ms = "[FQuery ''UPDATE t'']"
  have c: "case ?st of (Some s, _) \<Rightarrow>
      (case snd (pg_loop demo_env s ?ms) of
         [BErrorResponse sv code e, b] \<Rightarrow> sv = ''ERROR'' \<and> code = ''0A000'' \<and> b = BReadyForQuery | _ \<Rightarrow> False)
    | _ \<Rightarrow> False" by code_simp
  then obtain s sent where st: "?st = (Some s, sent)" by (auto split: prod.splits option.splits)
  obtain s' out where l: "pg_loop demo_env s ?ms = (s', out)" by (cases "pg_loop demo_env s ?ms")
  obtain e where out: "out = [fail_message e, BReadyForQuery]"
    using c st l by (auto simp: fail_message_def split: list.splits backend.splits)
  have "BErrorResponse ''ERROR'' ''0A000'' e \<in> set out" by (simp add: out fail_message_def)
  moreover have "calm_env demo_env" by (simp add: calm_env_def demo_env_def demo_calm)
  ultimately have "\<not> panics e" using pg_connection_never_panics [OF _ st l] by blast
  moreover have "snd (pg_loop demo_env s ?ms) = [fail_message e, BReadyForQuery]" using l out by simp
  ultimately show ?thesis using st by blast
qed

theorem mysql_command_never_panics_witness:
  "\<exists>e. fst (mysql_dispatch demo_mysql_env demo_builder (ComStmtPrepare ''INSERT INTO t VALUES (`a'') demo_session) = Inl e \<and>
     \<not> panics e"
proof -
  let ?m = "mysql_dispatch demo_mysql_env demo_builder (ComStmtPrepare ''INSERT INTO t VALUES (`a'') demo_session"
  have "\<not> is_ok (fst ?m)" by code_simp
  then obtain e s' where e: "?m = (Inl e, s')" by (cases ?m; cases "fst ?m") auto
  have "calm_builder demo_builder" by (simp add: calm_builder_def demo_builder_def)
  with mysql_command_never_panics [OF _ _ _ this e] e show ?thesis
    by (simp add: demo_mysql_env_def demo_calm)
qed

end
