(* ===== verification/SessionLife.thy ===== *)
theory SessionLife
  imports PgFlow MysqlProps
begin

text \<open>
  The life of a session: its client is closed exactly once, when the connection ends, and every remote
  call made for the connection runs under a context derived from that of the connection, with a
  deadline.  Cancelling the connection's context, as the server's \<open>Close\<close> does, therefore reaches
  every call in progress.
\<close>

section \<open>Calls within a set of contexts\<close>

definition tied :: "('w, 'c) conn \<Rightarrow> ('w, 'c) conn \<Rightarrow> bool" where
  "tied s t \<longleftrightarrow> own_calls s t \<and> c_closes t = c_closes s"

interpretation life: session_frame_db tied
  by unfold_locales (auto simp: tied_def own_calls_def intro: extends_trans)

definition within :: "ctxt set \<Rightarrow> ('w, 'c) conn \<Rightarrow> ('w, 'c) conn \<Rightarrow> bool" where
  "within C s t \<longleftrightarrow> c_closes t = c_closes s \<and> extends (\<lambda>x. fst x \<in> C) (c_calls s) (c_calls t)"

lemma within_refl [simp]: "within C s s"
  by (simp add: within_def)

lemma within_trans: "within C s t \<Longrightarrow> within C t u \<Longrightarrow> within C s u"
  by (auto simp: within_def intro: extends_trans)

lemma within_update [simp]:
  "within C (s\<lparr>c_ctx := x\<rparr>) t = within C s t" "within C s (t\<lparr>c_ctx := x\<rparr>) = within C s t"
  "within C s (t\<lparr>c_result := r\<rparr>) = within C s t" "within C (s\<lparr>c_result := r\<rparr>) t = within C s t"
  "within C (s\<lparr>c_describe := b\<rparr>) t = within C s t" "within C s (t\<lparr>c_describe := b\<rparr>) = within C s t"
  "within C s (t\<lparr>c_db := d\<rparr>) = within C s t"
  by (simp_all add: within_def)

lemma tied_within: "tied s t \<Longrightarrow> c_ctx s \<in> C \<Longrightarrow> within C s t"
  by (auto simp: tied_def own_calls_def within_def extends_def)

lemma within_useDB: "handleUseDB cl db s = (r, t) \<Longrightarrow> c_ctx s \<in> C \<Longrightarrow> within C s t"
  using life.keepsD [OF life.keeps_handleUseDB] by (rule tied_within)

lemma within_Execute:
  assumes "Execute (handleQuery cl sdk sp tbl) ctx q s = (r, t)" and "ctx \<in> C"
  shows "within C s t"
proof -
  obtain r1 s1 where 1: "handleQuery cl sdk sp tbl q (s\<lparr>c_ctx := ctx, c_result := None\<rparr>) = (r1, s1)"
    "t = s1 \<or> (\<exists>x. t = s1\<lparr>c_result := Some x\<rparr>)"
    using assms(1) by (rule Execute_frame) simp
  have "within C (s\<lparr>c_ctx := ctx, c_result := None\<rparr>) s1"
    using life.keepsD [OF life.keeps_statement 1(1)] by (rule tied_within) (simp add: assms(2))
  with 1(2) show ?thesis by auto
qed

lemma within_Describe:
  assumes "Describe (handleQuery cl sdk sp tbl) ctx q s = (r, t)" and "ctx \<in> C"
  shows "within C s t"
proof -
  obtain u where "Execute (handleQuery cl sdk sp tbl) ctx q (s\<lparr>c_describe := True\<rparr>) = (r, u)"
    "t = u\<lparr>c_describe := False\<rparr>"
    using assms(1) by (auto simp: Describe_def split: prod.splits)
  then show ?thesis using within_Execute [OF _ assms(2)] by fastforce
qed

lemma within_oids:
  assumes "parameterOIDs cl sp ctx q oids s = (r, t)" and "ctx \<in> C"
  shows "within C s t"
  using assms
  by (auto simp: parameterOIDs_def action_simps Let_def with_ctx_def GetCollectinSchema_def call_def
      within_def split: sum.splits prod.splits if_splits option.splits)

section \<open>PostgreSQL connections\<close>

lemma within_pg_execute:
  assumes "pg_execute env q d s = (r, t)" and "query_ctx env \<in> C"
  shows "within C (pg_session s) (pg_session t)"
  using assms within_Execute within_Describe
  by (cases d) (fastforce simp: pg_execute_def pg_handleQuery_def dest!: on_session_frame)+

lemma within_on_oids:
  assumes "on_session (parameterOIDs cl sp ctx q oids) s = (r, t)" and "ctx \<in> C"
  shows "within C (pg_session s) (pg_session t)"
  using assms by (auto dest!: on_session_frame intro: within_oids)

lemma within_dispatch:
  assumes "pg_dispatch env m s = (t, out, e)" and C: "query_ctx env \<in> C"
  shows "within C (pg_session s) (pg_session t)"
proof (cases m)
  case (FQuery q)
  with assms show ?thesis
    by (auto simp: pg_dispatch_def pg_query_def pg_run_query_def
        split: if_splits sum.splits prod.splits dest: within_pg_execute [OF _ C])
next
  case (FParse n q os)
  with assms show ?thesis
    by (auto simp: pg_dispatch_def pg_parse_def split: if_splits sum.splits prod.splits dest: within_on_oids [OF _ C])
next
  case (FDescribe k n)
  with assms show ?thesis
    by (auto simp: pg_dispatch_def pg_describe_def pg_describe_query_def Let_def
        split: if_splits sum.splits prod.splits option.splits dest: within_pg_execute [OF _ C])
next
  case (FBind p n pf ps rf)
  with assms show ?thesis
    by (auto simp: pg_dispatch_def pg_bind_def pg_open_portal_def
        split: if_splits sum.splits prod.splits option.splits dest: within_pg_execute [OF _ C])
next
  case (FExecute n k)
  with assms show ?thesis
    by (auto simp: pg_dispatch_def pg_execute_portal_def split: sum.splits prod.splits option.splits
        dest!: fetch_session dest: within_pg_execute [OF _ C])
qed (use assms in \<open>auto simp: pg_dispatch_def pg_close_def split: if_splits\<close>)

lemma within_loop:
  assumes "query_ctx env \<in> C"
  shows "within C (pg_session s) (pg_session (fst (pg_loop env s ms)))"
proof (induction ms arbitrary: s)
  case (Cons m ms)
  obtain t o1 where t: "pg_step env s m = (t, o1)" by (cases "pg_step env s m")
  obtain u o2 where u: "pg_loop env t ms = (u, o2)" by (cases "pg_loop env t ms")
  have "within C (pg_session s) (pg_session t)"
    using t within_dispatch [OF _ assms, of m s]
    by (auto simp: pg_step_def split: if_splits prod.splits option.splits)
  then show ?case using Cons.IH [of t] t u by (auto intro: within_trans)
qed simp

lemma within_open:
  assumes "pg_open env newSession params = Inr (r, c)" and "WithTimeout (pe_ctx env) 15 \<in> C"
  shows "c_closes c = 0 \<and> (\<forall>x \<in> set (c_calls c). fst x \<in> C)"
proof -
  obtain w where "handleUseDB (pe_client env) (or_default '''' ''default'' (map_get (Some params) ''database''))
      (NewSession (WithTimeout (pe_ctx env) 15) w) = (r, c)"
    using assms(1) by (cases "newSession (WithTimeout (pe_ctx env) 15)") (auto simp: pg_open_def Let_def)
  from within_useDB [OF this] assms(2) show ?thesis
    by (simp add: within_def NewSession_def extends_def)
qed

text \<open>
  C37: A PostgreSQL connection releases its client and bounds its calls.  However the client behaves, the
  session of a connection exists exactly when a user was authenticated and the connection to Milvus
  was made; its client is closed exactly once, also when the requested database is refused; and
  every remote call ran under the context of the connection, with the timeout of the start or of the
  configuration.
\<close>

theorem pg_connection_released:
  assumes "servePostgres env cfg newSession tls handshake startups auth msgs = (answer, out, session)"
  shows "(session \<noteq> None \<longleftrightarrow>
      (\<exists>params. negotiate tls handshake startups = (answer, Some params) \<and> authenticated cfg params auth \<and>
         is_ok (newSession (WithTimeout (pe_ctx env) 15)))) \<and>
    (\<forall>c. session = Some c \<longrightarrow> c_closes c = 1 \<and>
       (\<forall>x \<in> set (c_calls c). fst x \<in> {WithTimeout (pe_ctx env) 15, WithTimeout (pe_ctx env) (pe_timeout env)}))"
proof (cases "negotiate tls handshake startups")
  case n: (Pair answer' ps)
  let ?C = "{WithTimeout (pe_ctx env) 15, WithTimeout (pe_ctx env) (pe_timeout env)}"
  show ?thesis
  proof (cases "ps = None \<or> (\<exists>params. ps = Some params \<and> \<not> authenticated cfg params auth)")
    case True
    then show ?thesis using assms n by (auto simp: servePostgres_def pg_start_def)
  next
    case False
    then obtain params where p: "ps = Some params" "authenticated cfg params auth" by auto
    show ?thesis
    proof (cases "pg_open env newSession params")
      case (Inl e)
      then have "\<not> is_ok (newSession (WithTimeout (pe_ctx env) 15))"
        by (cases "newSession (WithTimeout (pe_ctx env) 15)") (auto simp: pg_open_def Let_def)
      then show ?thesis using assms n p Inl by (auto simp: servePostgres_def pg_start_def)
    next
      case (Inr rc)
      obtain r c where rc: "rc = (r, c)" by (cases rc)
      have ok: "is_ok (newSession (WithTimeout (pe_ctx env) 15))"
        using Inr by (cases "newSession (WithTimeout (pe_ctx env) 15)") (auto simp: pg_open_def Let_def)
      have c: "c_closes c = 0" "\<forall>x \<in> set (c_calls c). fst x \<in> ?C"
        using within_open [OF Inr [unfolded rc], of ?C] by simp_all
      have "\<exists>d. session = Some (close_pg env d) \<and> within ?C c d"
      proof (cases r)
        case (Inl e)
        then show ?thesis using assms n p Inr rc by (auto simp: servePostgres_def pg_start_def)
      next
        case (Inr u)
        let ?s = "\<lparr>pg_session = c, pg_statements = [], pg_portals = [], pg_failed = False\<rparr>"
        have "within ?C c (pg_session (fst (pg_loop env ?s msgs)))"
          using within_loop [of env ?C ?s msgs] by (simp add: query_ctx_def)
        then show ?thesis using assms n p \<open>pg_open env newSession params = Inr rc\<close> rc Inr
          by (auto simp: servePostgres_def pg_start_def split: prod.splits)
      qed
      then obtain d where d: "session = Some (close_pg env d)" "within ?C c d" by blast
      then have "answer = answer'" using assms n p Inr rc
        by (auto simp: servePostgres_def pg_start_def split: prod.splits sum.splits)
      moreover have "\<forall>x \<in> set (c_calls d). fst x \<in> ?C" "c_closes d = 0"
        using c d(2) unfolding within_def extends_def by (metis Un_iff set_append)+
      ultimately show ?thesis
        using d(1) ok n p by (simp add: close_pg_def CloseSession_def action_simps)
    qed
  qed
qed

section \<open>MySQL connections\<close>

lemma within_mysql_dispatch:
  assumes "mysql_dispatch env build cmd s = (r, t)" and C: "handler_ctx env \<in> C"
  shows "within C s t"
  using assms(1)
  by (cases cmd)
     (auto simp: mysql_dispatch_def UseDB_def HandleQuery_def HandleFieldList_def HandleStmtPrepare_def
        HandleStmtExecute_def HandleStmtClose_def HandleOtherCommand_def mysql_run_def my_handleQuery_def action_simps C
        split: sum.splits prod.splits dest!: within_useDB [where C = C] within_Execute [OF _ C] within_Describe [OF _ C])

text \<open>
  C38: A MySQL connection releases its client and bounds its calls.  The session of a connection is closed
  exactly once, and every remote call made for any sequence of commands ran under the context of the
  connection with the configured timeout.
\<close>

theorem mysql_connection_released:
  assumes "serveMySQL env build newSession cmds = Some c"
  shows "c_closes c = 1 \<and> (\<forall>x \<in> set (c_calls c). fst x = WithTimeout (my_ctx env) (my_timeout env))"
proof -
  have loop: "within {handler_ctx env} s (mysql_loop env build cmds s)" for s
  proof (induction cmds arbitrary: s)
    case (Cons cmd cmds)
    obtain r t where "mysql_dispatch env build cmd s = (r, t)" by (cases "mysql_dispatch env build cmd s")
    then show ?case
      using within_mysql_dispatch [of env build cmd s r t "{handler_ctx env}"] Cons.IH [of t]
      by (auto intro: within_trans)
  qed simp
  obtain w where "c = snd (CloseSession (my_client env)
      (mysql_loop env build cmds (NewSession (WithTimeout (my_ctx env) 15) w)))"
    using assms by (auto simp: serveMySQL_def mysql_open_def Let_def split: sum.splits)
  with loop [of "NewSession (WithTimeout (my_ctx env) 15) w"] show ?thesis
    by (auto simp: CloseSession_def action_simps within_def extends_def NewSession_def handler_ctx_def)
qed

section \<open>Instances\<close>

theorem pg_connection_released_witness:
  "case servePostgres demo_env demo_config (\<lambda>_. Inr 0) False True [SSLRequest, StartupMessage [(''user'', ''root'')]]
     (FPassword ''pw'') [FQuery ''SELECT id, name FROM t'', FTerminate] of
     (_, _, Some c) \<Rightarrow> c_closes c = 1 \<and> length (c_calls c) = 3 \<and>
       list_all (\<lambda>x. fst x \<in> {WithTimeout Background 15, WithTimeout Background 30}) (c_calls c)
   | _ \<Rightarrow> False"
proof -
  let ?m = "servePostgres demo_env demo_config (\<lambda>_. Inr 0) False True [SSLRequest, StartupMessage [(''user'', ''root'')]]
     (FPassword ''pw'') [FQuery ''SELECT id, name FROM t'', FTerminate]"
  have c: "case ?m of (_, _, Some c) \<Rightarrow> length (c_calls c) = 3 | _ \<Rightarrow> False" by code_simp
  obtain answer out session where m: "?m = (answer, out, session)" by (cases ?m)
  then obtain d where d: "session = Some d" "length (c_calls d) = 3" using c by (cases session) auto
  have "pe_ctx demo_env = Background" "pe_timeout demo_env = 30" by (simp_all add: demo_env_def)
  with pg_connection_released [OF m] d show ?thesis by (simp add: m list_all_iff)
qed

theorem mysql_connection_released_witness:
  "case serveMySQL demo_mysql_env demo_builder (\<lambda>_. Inr 0) [ComInitDB ''a'', ComQuery ''SELECT id, name FROM t''] of
     Some c \<Rightarrow> c_closes c = 1 \<and> length (c_calls c) = 3 \<and>
       list_all (\<lambda>x. fst x = WithTimeout Background 30) (c_calls c)
   | None \<Rightarrow> False"
proof -
  let ?m = "serveMySQL demo_mysql_env demo_builder (\<lambda>_. Inr 0) [ComInitDB ''a'', ComQuery ''SELECT id, name FROM t'']"
  have c: "case ?m of Some c \<Rightarrow> length (c_calls c) = 3 | None \<Rightarrow> False" by code_simp
  then obtain s where m: "?m = Some s" by (cases ?m) auto
  have "my_ctx demo_mysql_env = Background" "my_timeout demo_mysql_env = 30" by (simp_all add: demo_mysql_env_def)
  with mysql_connection_released [OF m] c show ?thesis by (simp add: m list_all_iff)
qed

end
