(* ===== verification/Server.thy ===== *)
theory Server
  imports Config
begin

text \<open>
  The server (\<open>pkg/server.go\<close>): opening the listeners, the accept loops, the life of a
  connection's goroutine, and \<open>Close\<close>.

  The critical sections of the mutex are single steps, everything else interleaves freely: the
  relation \<open>server_step\<close> has one rule for each thing that can happen next.  A connection is kept
  for ever in \<open>sv_handlers\<close>, with the phase its goroutine has reached; the deferred calls of the
  goroutine run in the order \<open>cancel\<close>, deregister, \<open>co.Close\<close>, \<open>wg.Done\<close>, whether the protocol
  function returned or panicked.
\<close>

section \<open>State\<close>

text \<open>\<open>Holding\<close>: \<open>Accept\<close> has returned a connection and the loop is about to take the mutex.\<close>

datatype serve_loop = NotStarted | Accepting | Holding | Returned "error option"

record listener =
  li_mode :: string
  li_addr :: string
  li_open :: bool
  li_loop :: serve_loop
  li_collected :: bool

datatype phase = Serving | Cancelling | Deregistered | SocketClosed | Finished

text \<open>A goroutine goes through its phases in this order.\<close>

fun phase_rank :: "phase \<Rightarrow> nat" where
  "phase_rank Serving = 0"
| "phase_rank Cancelling = 1"
| "phase_rank Deregistered = 2"
| "phase_rank SocketClosed = 3"
| "phase_rank Finished = 4"

instantiation phase :: linorder
begin

definition less_eq_phase :: "phase \<Rightarrow> phase \<Rightarrow> bool" where
  "less_eq_phase p q \<longleftrightarrow> phase_rank p \<le> phase_rank q"

definition less_phase :: "phase \<Rightarrow> phase \<Rightarrow> bool" where
  "less_phase p q \<longleftrightarrow> phase_rank p < phase_rank q"

instance
proof
  fix p q :: phase
  show "p \<le> q \<Longrightarrow> q \<le> p \<Longrightarrow> p = q" by (cases p; cases q) (simp_all add: less_eq_phase_def)
qed (auto simp: less_eq_phase_def less_phase_def)

end

record handler =
  ha_mode :: string
  ha_registered :: bool
  ha_cancelled :: bool
  ha_closed :: bool
  ha_phase :: phase

record server =
  sv_cfg :: config
  sv_tls :: bool
  sv_listeners :: "listener list"
  sv_handlers :: "handler list"
  sv_closed :: bool
  sv_first :: "error option"
  sv_done :: bool

section \<open>\<open>Close\<close> and \<open>NewServer\<close>\<close>

definition shut :: "handler \<Rightarrow> handler" where
  "shut h = (if ha_registered h then h\<lparr>ha_cancelled := True, ha_closed := True\<rparr> else h)"

definition CloseServer :: "server \<Rightarrow> server" where
  "CloseServer s =
     (if sv_closed s then s
      else s\<lparr>sv_closed := True, sv_listeners := map (\<lambda>l. l\<lparr>li_open := False\<rparr>) (sv_listeners s),
             sv_handlers := map shut (sv_handlers s)\<rparr>)"

text \<open>The closure \<open>bind\<close> with the error handling of its callers.\<close>

definition bind_listener ::
  "(string \<Rightarrow> unit result) \<Rightarrow> string \<Rightarrow> string \<Rightarrow> error option \<times> server \<Rightarrow> error option \<times> server" where
  "bind_listener listen md adr es =
     (case es of
        (Some e, s) \<Rightarrow> (Some e, s)
      | (None, s) \<Rightarrow>
          (case listen adr of
             Inl e \<Rightarrow> (Some e, CloseServer s)
           | Inr _ \<Rightarrow>
               (None, s\<lparr>sv_listeners := sv_listeners s @
                  [\<lparr>li_mode = md, li_addr = adr, li_open = True, li_loop = NotStarted, li_collected = False\<rparr>]\<rparr>)))"

definition initial_server :: "config \<Rightarrow> server" where
  "initial_server cfg =
     \<lparr>sv_cfg = cfg, sv_tls = (tlsCert cfg \<noteq> ''''), sv_listeners = [], sv_handlers = [], sv_closed = False,
      sv_first = None, sv_done = False\<rparr>"

text \<open>
  \<open>loadTLS\<close> and \<open>listen\<close> are the certificate loader and \<open>net.Listen\<close>.  The second component is the
  server object as it is left, also when an error is returned.
\<close>

definition NewServer ::
  "(string \<Rightarrow> string \<Rightarrow> unit result) \<Rightarrow> (string \<Rightarrow> unit result) \<Rightarrow> config \<Rightarrow> error option \<times> server" where
  "NewServer loadTLS listen cfg0 =
     (case defaults cfg0 of
        Inl e \<Rightarrow> (Some e, initial_server cfg0)
      | Inr cfg \<Rightarrow>
          (case (if tlsCert cfg \<noteq> '''' then loadTLS (tlsCert cfg) (tlsKey cfg) else Inr ()) of
             Inl e \<Rightarrow> (Some e, initial_server cfg)
           | Inr _ \<Rightarrow>
               (let r0 = (None, initial_server cfg);
                    r1 = (if mode cfg = ''mysql'' \<or> mode cfg = ''both''
                          then bind_listener listen ''mysql'' (addr cfg) r0 else r0) in
                if mode cfg = ''postgres'' \<or> mode cfg = ''both''
                then bind_listener listen ''postgres'' (postgresAddr cfg) r1 else r1)))"

section \<open>The operations behind the steps\<close>

definition set_loop :: "nat \<Rightarrow> serve_loop \<Rightarrow> server \<Rightarrow> server" where
  "set_loop i l s = s\<lparr>sv_listeners := (sv_listeners s)[i := (sv_listeners s ! i)\<lparr>li_loop := l\<rparr>]\<rparr>"

definition start_loops :: "server \<Rightarrow> server" where
  "start_loops s = s\<lparr>sv_listeners := map (\<lambda>l. l\<lparr>li_loop := Accepting\<rparr>) (sv_listeners s)\<rparr>"

text \<open>The critical section after \<open>Accept\<close>.\<close>

definition admit :: "nat \<Rightarrow> server \<Rightarrow> server" where
  "admit i s =
     (let md = li_mode (sv_listeners s ! i) in
      if sv_closed s then
        set_loop i (Returned None)
          (s\<lparr>sv_handlers := sv_handlers s @ [\<lparr>ha_mode = md, ha_registered = False, ha_cancelled = True,
                                             ha_closed = True, ha_phase = Finished\<rparr>]\<rparr>)
      else
        set_loop i Accepting
          (s\<lparr>sv_handlers := sv_handlers s @ [\<lparr>ha_mode = md, ha_registered = True, ha_cancelled = False,
                                             ha_closed = False, ha_phase = Serving\<rparr>]\<rparr>))"

text \<open>\<open>Accept\<close> fails: a closed listener ends the loop without an error.\<close>

definition accept_failed :: "nat \<Rightarrow> error \<Rightarrow> server \<Rightarrow> server" where
  "accept_failed i e s =
     set_loop i (Returned (if li_open (sv_listeners s ! i) then Some e else None)) s"

text \<open>The next deferred call of a goroutine.\<close>

fun advance :: "phase \<Rightarrow> handler \<Rightarrow> handler" where
  "advance Serving h = h\<lparr>ha_phase := Cancelling, ha_cancelled := True\<rparr>"
| "advance Cancelling h = h\<lparr>ha_phase := Deregistered, ha_registered := False\<rparr>"
| "advance Deregistered h = h\<lparr>ha_phase := SocketClosed, ha_closed := True\<rparr>"
| "advance SocketClosed h = h\<lparr>ha_phase := Finished\<rparr>"
| "advance Finished h = h"

definition unwind :: "nat \<Rightarrow> server \<Rightarrow> server" where
  "unwind j s =
     s\<lparr>sv_handlers := (sv_handlers s)[j := advance (ha_phase (sv_handlers s ! j)) (sv_handlers s ! j)]\<rparr>"

text \<open>\<open>Run\<close> receives the result of one loop; the first error closes the server.\<close>

definition collect :: "nat \<Rightarrow> server \<Rightarrow> server" where
  "collect i s =
     (let s' = s\<lparr>sv_listeners := (sv_listeners s)[i := (sv_listeners s ! i)\<lparr>li_collected := True\<rparr>]\<rparr> in
      case li_loop (sv_listeners s ! i) of
        Returned (Some e) \<Rightarrow> if sv_first s = None then CloseServer (s'\<lparr>sv_first := Some e\<rparr>) else s'
      | _ \<Rightarrow> s')"

text \<open>\<open>wg.Wait()\<close> returns when no goroutine is left.\<close>

definition wg_zero :: "server \<Rightarrow> bool" where
  "wg_zero s \<longleftrightarrow> list_all (\<lambda>h. ha_phase h = Finished) (sv_handlers s)"

section \<open>Steps\<close>

inductive server_step :: "server \<Rightarrow> server \<Rightarrow> bool" where
  run: "list_all (\<lambda>l. li_loop l = NotStarted) (sv_listeners s) \<Longrightarrow> \<not> sv_done s \<Longrightarrow>
     server_step s (start_loops s)"
| accept: "i < length (sv_listeners s) \<Longrightarrow> li_loop (sv_listeners s ! i) = Accepting \<Longrightarrow>
     li_open (sv_listeners s ! i) \<Longrightarrow> server_step s (set_loop i Holding s)"
| admit: "i < length (sv_listeners s) \<Longrightarrow> li_loop (sv_listeners s ! i) = Holding \<Longrightarrow>
     server_step s (admit i s)"
| accept_failed: "i < length (sv_listeners s) \<Longrightarrow> li_loop (sv_listeners s ! i) = Accepting \<Longrightarrow>
     server_step s (accept_failed i e s)"
| unwind: "j < length (sv_handlers s) \<Longrightarrow> ha_phase (sv_handlers s ! j) \<noteq> Finished \<Longrightarrow>
     server_step s (unwind j s)"
| close: "server_step s (CloseServer s)"
| collect: "i < length (sv_listeners s) \<Longrightarrow> li_loop (sv_listeners s ! i) = Returned r \<Longrightarrow>
     \<not> li_collected (sv_listeners s ! i) \<Longrightarrow> server_step s (collect i s)"
| finish: "list_all li_collected (sv_listeners s) \<Longrightarrow> sv_listeners s \<noteq> [] \<Longrightarrow> wg_zero s \<Longrightarrow> \<not> sv_done s \<Longrightarrow>
     server_step s (s\<lparr>sv_done := True\<rparr>)"

inductive reachable :: "server \<Rightarrow> server \<Rightarrow> bool" for s0 where
  start: "reachable s0 s0"
| step: "reachable s0 s \<Longrightarrow> server_step s t \<Longrightarrow> reachable s0 t"

end
