(* ===== verification/Program.thy ===== *)
theory Program
  imports Server GoStrings
begin

text \<open>
  \<open>cmd/milvus-sql.go\<close>: the command line.  Flag parsing, reading the file, decoding YAML, opening the
  log file and joining its path are library calls and are parameters.  \<open>run_program\<close> is \<open>run\<close> up to the
  call of \<open>Run\<close>; \<open>program_exits\<close> adds the running server and the deferred calls.
\<close>

datatype log_level = LevelDebug | LevelInfo | LevelWarn | LevelError

definition setLogLevel :: "string \<Rightarrow> log_level" where
  "setLogLevel level =
     (let l = to_lower level in
      if l = ''debug'' then LevelDebug
      else if l = ''warn'' then LevelWarn
      else if l = ''error'' then LevelError
      else LevelInfo)"

record flags =
  fl_config :: string
  fl_logLevel :: string
  fl_version :: bool

record 'b environment =
  en_parseFlags :: "string list \<Rightarrow> flags result"
  en_readFile :: "string \<Rightarrow> 'b result"
  en_unmarshal :: "'b \<Rightarrow> config result"
  en_openLog :: "string \<Rightarrow> unit result"
  en_joinPath :: "string \<Rightarrow> string \<Rightarrow> string"
  en_loadTLS :: "string \<Rightarrow> string \<Rightarrow> unit result"
  en_listen :: "string \<Rightarrow> unit result"

datatype program_result = VersionPrinted | Failed error | Started log_level server

definition open_log :: "'b environment \<Rightarrow> config \<Rightarrow> unit result" where
  "open_log env cfg =
     (if logPath cfg \<noteq> '''' then en_openLog env (en_joinPath env (logPath cfg) ''sys.log'') else Inr ())"

definition run_program :: "'b environment \<Rightarrow> string list \<Rightarrow> program_result" where
  "run_program env args =
     (case en_parseFlags env args of
        Inl e \<Rightarrow> Failed e
      | Inr fl \<Rightarrow>
          if fl_version fl then VersionPrinted
          else
            (case ParseConfigFile (en_readFile env) (en_unmarshal env) (fl_config fl) of
               Inl e \<Rightarrow> Failed (WrapErr e ''configuration'')
             | Inr cfg \<Rightarrow>
                 (let level = (if fl_logLevel fl \<noteq> '''' then fl_logLevel fl else logLevel cfg) in
                  case open_log env cfg of
                    Inl e \<Rightarrow> Failed e
                  | Inr _ \<Rightarrow>
                      (case NewServer (en_loadTLS env) (en_listen env) cfg of
                         (Some e, _) \<Rightarrow> Failed e
                       | (None, s) \<Rightarrow> Started (setLogLevel level) s))))"

text \<open>
  The ends of \<open>run\<close>.  While the server runs a signal closes it, which is one of the \<open>close\<close> steps; when
  \<open>Run\<close> has returned the deferred \<open>Close\<close> is called once more.
\<close>

inductive program_exits :: "'b environment \<Rightarrow> string list \<Rightarrow> error option \<Rightarrow> server option \<Rightarrow> bool"
  for env args where
  exit_version: "run_program env args = VersionPrinted \<Longrightarrow> program_exits env args None None"
| exit_failed: "run_program env args = Failed e \<Longrightarrow> program_exits env args (Some e) None"
| exit_served: "run_program env args = Started level s \<Longrightarrow> reachable s t \<Longrightarrow> sv_done t \<Longrightarrow>
     program_exits env args (sv_first t) (Some (CloseServer t))"

text \<open>\<open>main\<close> prints the error and exits with 1.\<close>

definition exit_code :: "error option \<Rightarrow> int" where
  "exit_code e = (if e = None then 0 else 1)"

end
