(* ===== verification/ServerProps.thy ===== *)
theory ServerProps
  imports Program
begin

text \<open>
  The life of the server: what opening leaves behind, what \<open>Close\<close> reaches whatever it races with,
  when \<open>Run\<close> may return, and that a shutdown always comes to its end.
\<close>

section \<open>Opening\<close>

lemma bind_listener_error: "bind_listener listen md adr (Some e, s) = (Some e, s)"
  by (simp add: bind_listener_def)

lemma NewServer_ok:
  assumes "NewServer loadTLS listen cfg0 = (None, s)"
  shows "\<exists>cfg. defaults cfg0 = Inr cfg \<and> sv_cfg s = cfg \<and> \<not> sv_closed s \<and> sv_handlers s = [] \<and> \<not> sv_done s \<and>
    sv_first s = None \<and>
    sv_listeners s =
      (if mode cfg = ''postgres'' then [] else
         [\<lparr>li_mode = ''mysql'', li_addr = addr cfg, li_open = True, li_loop = NotStarted, li_collected = False\<rparr>]) @
      (if mode cfg = ''mysql'' then [] else
         [\<lparr>li_mode = ''postgres'', li_addr = postgresAddr cfg, li_open = True, li_loop = NotStarted,
           li_collected = False\<rparr>])"
proof -
  obtain cfg where cfg: "defaults cfg0 = Inr cfg" using assms by (auto simp: NewServer_def split: sum.splits)
  have m: "mode cfg = ''mysql'' \<or> mode cfg = ''postgres'' \<or> mode cfg = ''both''"
    using defaults_Inr [OF cfg] by (auto simp: config_ok_def)
  show ?thesis
    using assms cfg m
    by (elim disjE) (auto simp: NewServer_def bind_listener_def initial_server_def Let_def
        split: sum.splits if_splits)
qed

text \<open>
  Opening is all or nothing.  When the server is created it has one open listener for each protocol
  of the configured mode, on the configured address; when creation fails no listener stays open.
\<close>

lemma NewServer_all_or_nothing:
  "case NewServer loadTLS listen cfg0 of
     (None, s) \<Rightarrow> map (\<lambda>l. (li_mode l, li_addr l, li_open l)) (sv_listeners s) =
       (if mode (sv_cfg s) = ''postgres'' then [] else [(''mysql'', addr (sv_cfg s), True)]) @
       (if mode (sv_cfg s) = ''mysql'' then [] else [(''postgres'', postgresAddr (sv_cfg s), True)]) \<and>
       sv_listeners s \<noteq> []
   | (Some e, s) \<Rightarrow> list_all (\<lambda>l. \<not> li_open l) (sv_listeners s)"
proof (cases "NewServer loadTLS listen cfg0")
  case (Pair e s)
  show ?thesis
  proof (cases e)
    case None
    with Pair NewServer_ok [of loadTLS listen cfg0 s] show ?thesis by (auto split: if_splits)
  next
    case (Some x)
    have "list_all (\<lambda>l. \<not> li_open l) (sv_listeners s)"
      using Pair Some
      by (auto simp: NewServer_def bind_listener_def initial_server_def CloseServer_def Let_def list_all_iff
          split: sum.splits if_splits)
    with Pair Some show ?thesis by simp
  qed
qed

section \<open>The invariant\<close>

definition handler_ok :: "handler \<Rightarrow> bool" where
  "handler_ok h \<longleftrightarrow>
     (case ha_phase h of
        Serving \<Rightarrow> ha_registered h
      | Cancelling \<Rightarrow> ha_registered h \<and> ha_cancelled h
      | Deregistered \<Rightarrow> \<not> ha_registered h \<and> ha_cancelled h
      | SocketClosed \<Rightarrow> \<not> ha_registered h \<and> ha_cancelled h \<and> ha_closed h
      | Finished \<Rightarrow> \<not> ha_registered h \<and> ha_cancelled h \<and> ha_closed h)"

text \<open>After \<open>Close\<close> a registered connection is cancelled and closed, and no listener is open.\<close>

definition handler_inv :: "bool \<Rightarrow> handler \<Rightarrow> bool" where
  "handler_inv clsd h \<longleftrightarrow> handler_ok h \<and> (clsd \<and> ha_registered h \<longrightarrow> ha_cancelled h \<and> ha_closed h)"

definition listener_inv :: "bool \<Rightarrow> listener \<Rightarrow> bool" where
  "listener_inv clsd l \<longleftrightarrow> (li_collected l \<longrightarrow> (\<exists>e. li_loop l = Returned e)) \<and> (clsd \<longrightarrow> \<not> li_open l)"

definition done_ok :: "server \<Rightarrow> bool" where
  "done_ok s \<longleftrightarrow> (sv_done s \<longrightarrow> sv_listeners s \<noteq> [] \<and> (\<forall>l \<in> set (sv_listeners s). li_collected l) \<and> wg_zero s)"

definition server_ok :: "server \<Rightarrow> bool" where
  "server_ok s \<longleftrightarrow> (\<forall>h \<in> set (sv_handlers s). handler_inv (sv_closed s) h) \<and>
     (\<forall>l \<in> set (sv_listeners s). listener_inv (sv_closed s) l) \<and> done_ok s"

lemma ball_update: "\<forall>x \<in> set xs. P x \<Longrightarrow> P y \<Longrightarrow> \<forall>x \<in> set (xs[i := y]). P x"
  using set_update_subset_insert [of xs i y] by blast

lemma shut_inv: "handler_inv clsd h \<Longrightarrow> handler_inv b (shut h)"
  by (auto simp: handler_inv_def handler_ok_def shut_def split: phase.splits)

lemma advance_inv: "handler_inv clsd h \<Longrightarrow> handler_inv clsd (advance (ha_phase h) h)"
  by (cases "ha_phase h") (auto simp: handler_inv_def handler_ok_def)

lemma shut_phase [simp]: "ha_phase (shut h) = ha_phase h"
  by (simp add: shut_def)

lemma CloseServer_ok: "server_ok s \<Longrightarrow> server_ok (CloseServer s)"
  by (auto simp: CloseServer_def server_ok_def done_ok_def wg_zero_def list_all_iff listener_inv_def
      intro: shut_inv)

lemma live_loop_not_done:
  assumes "server_ok s" and "i < length (sv_listeners s)"
    and "\<not> li_collected (sv_listeners s ! i) \<or> (\<forall>e. li_loop (sv_listeners s ! i) \<noteq> Returned e)"
  shows "\<not> sv_done s"
proof
  assume "sv_done s"
  then have "li_collected (sv_listeners s ! i)" "listener_inv (sv_closed s) (sv_listeners s ! i)"
    using assms(1,2) by (auto simp: server_ok_def done_ok_def)
  with assms(3) show False by (auto simp: listener_inv_def)
qed

text \<open>An update of one listener keeps the invariant while \<open>Run\<close> has not returned.\<close>

lemma set_listener_ok:
  assumes "server_ok s" and "\<not> sv_done s" and "listener_inv (sv_closed s) l"
  shows "server_ok (s\<lparr>sv_listeners := (sv_listeners s)[i := l]\<rparr>)"
  using assms ball_update [of "sv_listeners s" "listener_inv (sv_closed s)" l i]
  by (simp add: server_ok_def done_ok_def)

lemma set_loop_ok:
  assumes "server_ok s" and "\<not> sv_done s" and "i < length (sv_listeners s)"
    and "\<not> li_collected (sv_listeners s ! i) \<or> (\<exists>e. l = Returned e)"
  shows "server_ok (set_loop i l s)"
proof -
  have "listener_inv (sv_closed s) (sv_listeners s ! i)" using assms(1,3) by (simp add: server_ok_def)
  then have "listener_inv (sv_closed s) ((sv_listeners s ! i)\<lparr>li_loop := l\<rparr>)"
    using assms(4) by (auto simp: listener_inv_def)
  with assms(1,2) show ?thesis unfolding set_loop_def by (rule set_listener_ok)
qed

lemma uncollected:
  assumes "server_ok s" and "i < length (sv_listeners s)" and "\<And>e. li_loop (sv_listeners s ! i) \<noteq> Returned e"
  shows "\<not> li_collected (sv_listeners s ! i)" and "\<not> sv_done s"
proof -
  have "listener_inv (sv_closed s) (sv_listeners s ! i)" using assms(1,2) by (simp add: server_ok_def)
  with assms(3) show "\<not> li_collected (sv_listeners s ! i)" by (auto simp: listener_inv_def)
  then show "\<not> sv_done s" using live_loop_not_done [OF assms(1,2)] by simp
qed

lemma new_handler_ok:
  "server_ok s \<Longrightarrow> \<not> sv_done s \<Longrightarrow> handler_inv (sv_closed s) h \<Longrightarrow> server_ok (s\<lparr>sv_handlers := sv_handlers s @ [h]\<rparr>)"
  by (auto simp: server_ok_def done_ok_def)

lemma server_ok_step:
  assumes "server_step s t" and "server_ok s"
  shows "server_ok t"
  using assms
proof cases
  case run
  then show ?thesis using assms(2)
    by (auto simp: server_ok_def done_ok_def start_loops_def listener_inv_def list_all_iff)
next
  case (accept i)
  with uncollected [OF assms(2) accept(2)] show ?thesis by (simp add: set_loop_ok assms(2))
next
  case (admit i)
  have u: "\<not> li_collected (sv_listeners s ! i)" "\<not> sv_done s" using uncollected [OF assms(2) admit(2)] admit(3) by simp_all
  show ?thesis unfolding admit(1) admit_def Let_def
    using u admit(2) assms(2)
    by (auto intro!: set_loop_ok new_handler_ok simp: handler_inv_def handler_ok_def)
next
  case (accept_failed i e)
  have u: "\<not> li_collected (sv_listeners s ! i)" "\<not> sv_done s"
    using uncollected [OF assms(2) accept_failed(2)] accept_failed(3) by simp_all
  with accept_failed assms(2) show ?thesis by (simp add: accept_failed_def set_loop_ok)
next
  case (unwind j)
  have "\<not> sv_done s" using unwind(2,3) assms(2) by (auto simp: server_ok_def done_ok_def wg_zero_def list_all_iff)
  moreover have "handler_inv (sv_closed s) (sv_handlers s ! j)" using assms(2) unwind(2) by (simp add: server_ok_def)
  then have "\<forall>h \<in> set ((sv_handlers s)[j := advance (ha_phase (sv_handlers s ! j)) (sv_handlers s ! j)]).
      handler_inv (sv_closed s) h"
    using assms(2) by (intro ball_update advance_inv) (simp_all add: server_ok_def)
  ultimately show ?thesis
    using assms(2) unwind(1) by (simp add: unwind_def server_ok_def done_ok_def)
next
  case close
  then show ?thesis using assms(2) by (simp add: CloseServer_ok)
next
  case (collect i r)
  have nd: "\<not> sv_done s" using live_loop_not_done [OF assms(2) collect(2)] collect(4) by simp
  have "listener_inv (sv_closed s) (sv_listeners s ! i)" using assms(2) collect(2) by (simp add: server_ok_def)
  then have "listener_inv (sv_closed s) ((sv_listeners s ! i)\<lparr>li_collected := True\<rparr>)"
    using collect(3) by (simp add: listener_inv_def)
  then have k: "server_ok (s\<lparr>sv_listeners := (sv_listeners s)[i := (sv_listeners s ! i)\<lparr>li_collected := True\<rparr>]\<rparr>)"
    (is "server_ok ?s") by (rule set_listener_ok [OF assms(2) nd])
  moreover have "server_ok (?s\<lparr>sv_first := f\<rparr>)" for f using k by (simp add: server_ok_def done_ok_def wg_zero_def)
  ultimately show ?thesis unfolding collect(1) collect_def Let_def
    by (auto intro: CloseServer_ok split: serve_loop.split option.split)
next
  case finish
  then show ?thesis using assms(2) by (simp add: server_ok_def done_ok_def wg_zero_def list_all_iff)
qed

lemma reachable_ok: "reachable s0 s \<Longrightarrow> server_ok s0 \<Longrightarrow> server_ok s"
  by (induction rule: reachable.induct) (auto intro: server_ok_step)

lemma NewServer_server_ok: "NewServer loadTLS listen cfg0 = (None, s) \<Longrightarrow> server_ok s \<and> sv_listeners s \<noteq> []"
  using NewServer_ok [of loadTLS listen cfg0 s]
  by (auto simp: server_ok_def done_ok_def listener_inv_def split: if_splits)

section \<open>Results of the loops\<close>

text \<open>The loops start together; the first error that \<open>Run\<close> receives is kept and closes the server.\<close>

definition started_ok :: "server \<Rightarrow> bool" where
  "started_ok s \<longleftrightarrow> (\<forall>l \<in> set (sv_listeners s). li_loop l = NotStarted) \<or>
     (\<forall>l \<in> set (sv_listeners s). li_loop l \<noteq> NotStarted)"

definition first_ok :: "server \<Rightarrow> bool" where
  "first_ok s \<longleftrightarrow>
     (if sv_first s = None then \<forall>l \<in> set (sv_listeners s). li_collected l \<longrightarrow> li_loop l = Returned None
      else sv_closed s)"

definition run_ok :: "server \<Rightarrow> bool" where
  "run_ok s \<longleftrightarrow> server_ok s \<and> started_ok s \<and> first_ok s \<and> sv_listeners s \<noteq> []"

lemma CloseServer_simps [simp]:
  "sv_first (CloseServer s) = sv_first s" "sv_done (CloseServer s) = sv_done s" "sv_closed (CloseServer s)"
  "map li_loop (sv_listeners (CloseServer s)) = map li_loop (sv_listeners s)"
  "map li_collected (sv_listeners (CloseServer s)) = map li_collected (sv_listeners s)"
  "map ha_phase (sv_handlers (CloseServer s)) = map ha_phase (sv_handlers s)"
  by (simp_all add: CloseServer_def)

lemma CloseServer_listeners:
  "sv_listeners (CloseServer s) = [] \<longleftrightarrow> sv_listeners s = []"
  "l \<in> set (sv_listeners (CloseServer s)) \<Longrightarrow>
     \<exists>k \<in> set (sv_listeners s). li_loop l = li_loop k \<and> li_collected l = li_collected k"
  by (auto simp: CloseServer_def split: if_splits)

lemma started_CloseServer: "started_ok s \<Longrightarrow> started_ok (CloseServer s)"
  unfolding started_ok_def using CloseServer_listeners(2) by metis

lemma first_CloseServer: "first_ok s \<Longrightarrow> first_ok (CloseServer s)"
  unfolding first_ok_def using CloseServer_listeners(2) by (metis CloseServer_simps(1,3))

lemma started_set_loop:
  assumes "started_ok s" "i < length (sv_listeners s)" "li_loop (sv_listeners s ! i) \<noteq> NotStarted" "l \<noteq> NotStarted"
  shows "started_ok (set_loop i l s)"
proof -
  have "\<forall>l \<in> set (sv_listeners s). li_loop l \<noteq> NotStarted"
    using assms(1-3) nth_mem unfolding started_ok_def by blast
  then have "\<forall>k \<in> set ((sv_listeners s)[i := (sv_listeners s ! i)\<lparr>li_loop := l\<rparr>]). li_loop k \<noteq> NotStarted"
    by (rule ball_update) (simp add: assms(4))
  then show ?thesis by (simp add: started_ok_def set_loop_def)
qed

lemma first_set_loop:
  assumes "first_ok s" "\<not> li_collected (sv_listeners s ! i)"
  shows "first_ok (set_loop i l s)"
proof (cases "sv_first s")
  case None
  then have "\<forall>l \<in> set (sv_listeners s). li_collected l \<longrightarrow> li_loop l = Returned None"
    using assms(1) by (simp add: first_ok_def)
  then have "\<forall>k \<in> set ((sv_listeners s)[i := (sv_listeners s ! i)\<lparr>li_loop := l\<rparr>]).
      li_collected k \<longrightarrow> li_loop k = Returned None"
    by (rule ball_update) (simp add: assms(2))
  then show ?thesis using None by (simp add: first_ok_def set_loop_def)
next
  case (Some e)
  with assms(1) show ?thesis by (simp add: first_ok_def set_loop_def)
qed

lemma started_first_handlers [simp]:
  "started_ok (s\<lparr>sv_handlers := hs\<rparr>) = started_ok s" "first_ok (s\<lparr>sv_handlers := hs\<rparr>) = first_ok s"
  "started_ok (s\<lparr>sv_done := d\<rparr>) = started_ok s" "first_ok (s\<lparr>sv_done := d\<rparr>) = first_ok s"
  by (simp_all add: started_ok_def first_ok_def)

lemma set_loop_simps [simp]:
  "set_loop i l (s\<lparr>sv_handlers := hs\<rparr>) = (set_loop i l s)\<lparr>sv_handlers := hs\<rparr>"
  "sv_listeners (set_loop i l s) = [] \<longleftrightarrow> sv_listeners s = []"
  by (simp_all add: set_loop_def)

lemma collect_listener:
  assumes "first_ok s" "started_ok s" "i < length (sv_listeners s)" "li_loop (sv_listeners s ! i) = Returned r"
  shows "started_ok (s\<lparr>sv_listeners := (sv_listeners s)[i := (sv_listeners s ! i)\<lparr>li_collected := True\<rparr>]\<rparr>)"
    and "sv_first s \<noteq> None \<or> r = None \<Longrightarrow>
      first_ok (s\<lparr>sv_listeners := (sv_listeners s)[i := (sv_listeners s ! i)\<lparr>li_collected := True\<rparr>]\<rparr>)"
proof -
  let ?l = "(sv_listeners s ! i)\<lparr>li_collected := True\<rparr>"
  have "\<forall>l \<in> set (sv_listeners s). li_loop l \<noteq> NotStarted"
    using assms(2-4) nth_mem [OF assms(3)] by (auto simp: started_ok_def)
  then have "\<forall>l \<in> set ((sv_listeners s)[i := ?l]). li_loop l \<noteq> NotStarted"
    by (rule ball_update) (simp add: assms(4))
  then show "started_ok (s\<lparr>sv_listeners := (sv_listeners s)[i := ?l]\<rparr>)" by (simp add: started_ok_def)
  assume r: "sv_first s \<noteq> None \<or> r = None"
  show "first_ok (s\<lparr>sv_listeners := (sv_listeners s)[i := ?l]\<rparr>)"
  proof (cases "sv_first s")
    case None
    then have "\<forall>l \<in> set (sv_listeners s). li_collected l \<longrightarrow> li_loop l = Returned None"
      using assms(1) by (simp add: first_ok_def)
    then have "\<forall>l \<in> set ((sv_listeners s)[i := ?l]). li_collected l \<longrightarrow> li_loop l = Returned None"
      by (rule ball_update) (use r None assms(4) in simp)
    then show ?thesis using None by (simp add: first_ok_def)
  next
    case (Some e)
    with assms(1) show ?thesis by (simp add: first_ok_def)
  qed
qed

lemma run_ok_step:
  assumes "server_step s t" and "run_ok s"
  shows "run_ok t"
proof -
  have s: "server_ok s" "started_ok s" "first_ok s" "sv_listeners s \<noteq> []" using assms(2) by (auto simp: run_ok_def)
  have "started_ok t \<and> first_ok t \<and> sv_listeners t \<noteq> []"
    using assms(1)
  proof cases
    case run
    have nc: "\<not> li_collected l" if "l \<in> set (sv_listeners s)" for l
      using that run(2) s(1) by (fastforce simp: server_ok_def listener_inv_def list_all_iff)
    then show ?thesis using s run by (auto simp: start_loops_def started_ok_def first_ok_def)
  next
    case (accept i)
    then show ?thesis using s uncollected(1) [OF s(1) accept(2)]
      by (simp add: started_set_loop first_set_loop)
  next
    case (admit i)
    then show ?thesis using s uncollected(1) [OF s(1) admit(2)]
      by (simp add: admit_def Let_def started_set_loop first_set_loop)
  next
    case (accept_failed i e)
    then show ?thesis using s uncollected(1) [OF s(1) accept_failed(2)]
      by (simp add: accept_failed_def started_set_loop first_set_loop)
  next
    case (unwind j)
    then show ?thesis using s by (simp add: unwind_def)
  next
    case close
    then show ?thesis using s by (simp add: started_CloseServer first_CloseServer CloseServer_listeners)
  next
    case (collect i r)
    let ?s = "s\<lparr>sv_listeners := (sv_listeners s)[i := (sv_listeners s ! i)\<lparr>li_collected := True\<rparr>]\<rparr>"
    have st: "started_ok ?s" using s(3,2) collect(2,3) by (rule collect_listener)
    show ?thesis
    proof (cases "sv_first s = None \<and> r \<noteq> None")
      case True
      then obtain e where e: "r = Some e" by auto
      have "started_ok (?s\<lparr>sv_first := Some e\<rparr>)" using st by (simp add: started_ok_def)
      then have "started_ok (CloseServer (?s\<lparr>sv_first := Some e\<rparr>))" by (rule started_CloseServer)
      moreover have "first_ok (CloseServer (?s\<lparr>sv_first := Some e\<rparr>))" by (simp add: first_ok_def)
      ultimately show ?thesis using True e collect s(4)
        by (simp add: collect_def Let_def CloseServer_listeners)
    next
      case False
      then have t: "t = ?s" using collect by (auto simp: collect_def Let_def split: option.split)
      have "first_ok ?s" using s(3,2) collect(2,3) by (rule collect_listener) (use False in simp)
      then show ?thesis using st s(4) t by simp
    qed
  next
    case finish
    then show ?thesis using s by simp
  qed
  moreover have "server_ok t" using assms(1) s(1) by (rule server_ok_step)
  ultimately show ?thesis by (simp add: run_ok_def)
qed

lemma reachable_run_ok: "reachable s0 s \<Longrightarrow> run_ok s0 \<Longrightarrow> run_ok s"
  by (induction rule: reachable.induct) (auto intro: run_ok_step)

lemma NewServer_run_ok: "NewServer loadTLS listen cfg0 = (None, s) \<Longrightarrow> run_ok s"
  using NewServer_ok [of loadTLS listen cfg0 s] NewServer_server_ok [of loadTLS listen cfg0 s]
  by (auto simp: run_ok_def started_ok_def first_ok_def split: if_splits)

section \<open>The reported error is that of a failed loop\<close>

definition loops :: "server \<Rightarrow> serve_loop list" where
  "loops s = map li_loop (sv_listeners s)"

definition blamed :: "server \<Rightarrow> bool" where
  "blamed s \<longleftrightarrow> (\<forall>e. sv_first s = Some e \<longrightarrow> Returned (Some e) \<in> set (loops s))"

lemma in_set_update: "y \<in> set xs \<Longrightarrow> xs ! i \<noteq> y \<Longrightarrow> y \<in> set (xs[i := x])"
  by (metis in_set_conv_nth length_list_update nth_list_update_neq)

lemma loops_simps [simp]:
  "loops (CloseServer s) = loops s" "loops (s\<lparr>sv_handlers := hs\<rparr>) = loops s" "loops (s\<lparr>sv_done := d\<rparr>) = loops s"
  "loops (s\<lparr>sv_first := f\<rparr>) = loops s" "loops (set_loop i l s) = (loops s)[i := l]"
  by (simp_all add: loops_def set_loop_def map_update)

lemma first_set_loop_same [simp]: "sv_first (set_loop i l s) = sv_first s"
  by (simp add: set_loop_def)

lemma blamed_set_loop:
  "blamed s \<Longrightarrow> i < length (sv_listeners s) \<Longrightarrow> \<forall>e. li_loop (sv_listeners s ! i) \<noteq> Returned e \<Longrightarrow> blamed (set_loop i l s)"
  by (auto simp: blamed_def loops_def [of s] intro!: in_set_update)

lemma blamed_step:
  assumes "server_step s t" and "blamed s"
  shows "blamed t"
  using assms(1)
proof cases
  case run
  then have "Returned (Some e) \<notin> set (loops s)" for e by (auto simp: loops_def list_all_iff)
  then have "sv_first s = None" using assms(2) by (cases "sv_first s") (auto simp: blamed_def)
  then show ?thesis using run by (simp add: blamed_def start_loops_def)
next
  case (accept i)
  then show ?thesis using blamed_set_loop assms(2) by simp
next
  case (admit i)
  have "blamed (set_loop i l s)" for l using blamed_set_loop [OF assms(2) admit(2)] admit(3) by simp
  then show ?thesis using admit(1) by (simp add: admit_def blamed_def Let_def)
next
  case (accept_failed i e)
  then show ?thesis using blamed_set_loop assms(2) by (simp add: accept_failed_def)
next
  case (unwind j)
  then show ?thesis using assms(2) by (simp add: unwind_def blamed_def)
next
  case close
  then show ?thesis using assms(2) by (simp add: blamed_def)
next
  case (collect i r)
  let ?s = "s\<lparr>sv_listeners := (sv_listeners s)[i := (sv_listeners s ! i)\<lparr>li_collected := True\<rparr>]\<rparr>"
  have "map li_loop ((sv_listeners s)[i := (sv_listeners s ! i)\<lparr>li_collected := True\<rparr>]) = map li_loop (sv_listeners s)"
    by (simp add: map_update list_update_same_conv collect(2))
  then have l: "loops ?s = loops s" by (simp add: loops_def)
  have "r \<in> {x. Returned x \<in> set (loops s)}"
    using collect(2,3) by (auto simp: loops_def) (metis image_eqI nth_mem)
  then show ?thesis
    using assms(2) l unfolding collect(1) collect_def Let_def collect(3)
    by (auto simp: blamed_def split: option.split)
next
  case finish
  then show ?thesis using assms(2) by (simp add: blamed_def)
qed

lemma blamed_reachable: "reachable s0 s \<Longrightarrow> blamed s0 \<Longrightarrow> blamed s"
  by (induction rule: reachable.induct) (auto intro: blamed_step)

lemma first_error_blamed:
  assumes "NewServer loadTLS listen cfg = (None, s0)" and "reachable s0 s" and "sv_first s = Some e"
  shows "\<exists>l \<in> set (sv_listeners s). li_loop l = Returned (Some e)"
proof -
  have "blamed s0" using NewServer_ok [OF assms(1)] by (auto simp: blamed_def)
  with assms(3) show ?thesis
    using blamed_reachable [OF assms(2)] by (fastforce simp: blamed_def loops_def image_iff)
qed

section \<open>Nothing is undone\<close>

text \<open>A connection only advances; once it is cancelled or its socket closed it stays so.\<close>

definition older :: "handler \<Rightarrow> handler \<Rightarrow> bool" where
  "older h k \<longleftrightarrow> ha_mode k = ha_mode h \<and> ha_phase h \<le> ha_phase k \<and> (ha_cancelled h \<longrightarrow> ha_cancelled k) \<and>
     (ha_closed h \<longrightarrow> ha_closed k) \<and> (ha_registered k \<longrightarrow> ha_registered h)"

lemma older_refl [simp]: "older h h"
  by (simp add: older_def)

lemma older_trans: "older h k \<Longrightarrow> older k m \<Longrightarrow> older h m"
  by (auto simp: older_def)

lemma older_shut: "older h (shut h)"
  by (auto simp: older_def shut_def)

lemma older_advance: "older h (advance (ha_phase h) h)"
  by (cases "ha_phase h") (auto simp: older_def less_eq_phase_def)

definition handlers_grow :: "handler list \<Rightarrow> handler list \<Rightarrow> bool" where
  "handlers_grow hs ks \<longleftrightarrow> (\<exists>ms new. ks = ms @ new \<and> list_all2 older hs ms)"

lemma list_all2_older [simp]: "list_all2 older hs hs"
  by (simp add: list_all2_refl)

lemma grow_refl [simp]: "handlers_grow hs hs"
  unfolding handlers_grow_def by (metis append_Nil2 list_all2_older)

lemma grow_trans:
  assumes "handlers_grow xs ys" and "handlers_grow ys zs"
  shows "handlers_grow xs zs"
proof -
  obtain ms new where 1: "ys = ms @ new" "list_all2 older xs ms" using assms(1) by (auto simp: handlers_grow_def)
  obtain ms' new' where 2: "zs = ms' @ new'" "list_all2 older ys ms'" using assms(2) by (auto simp: handlers_grow_def)
  obtain us vs where 3: "ms' = us @ vs" "list_all2 older ms us" using 1(1) 2(2) by (auto simp: list_all2_append1)
  have "list_all2 older xs us" using older_trans 1(2) 3(2) by (rule list_all2_trans)
  then show ?thesis using 2(1) 3(1) by (auto simp: handlers_grow_def)
qed

lemma grow_CloseServer: "handlers_grow (sv_handlers s) (sv_handlers (CloseServer s))"
proof -
  have "list_all2 older hs (map shut hs)" for hs by (induction hs) (simp_all add: older_shut)
  then have "handlers_grow hs (map shut hs)" for hs unfolding handlers_grow_def by (metis append_Nil2)
  then show ?thesis by (simp add: CloseServer_def)
qed

lemma grow_step:
  assumes "server_step s t"
  shows "handlers_grow (sv_handlers s) (sv_handlers t)"
  using assms
proof cases
  case (admit i)
  have "handlers_grow hs (hs @ new)" for hs new unfolding handlers_grow_def by (metis list_all2_older)
  then show ?thesis using admit(1) by (simp add: admit_def set_loop_def Let_def)
next
  case (unwind j)
  have "list_all2 older hs (hs[j := advance (ha_phase (hs ! j)) (hs ! j)])" if "j < length hs" for hs
    using that by (simp add: list_all2_conv_all_nth nth_list_update older_advance)
  then have "handlers_grow (sv_handlers s) ((sv_handlers s)[j := advance (ha_phase (sv_handlers s ! j)) (sv_handlers s ! j)])"
    unfolding handlers_grow_def using unwind(2) by (metis append_Nil2)
  then show ?thesis by (simp add: unwind(1) unwind_def)
next
  case (collect i r)
  let ?s = "s\<lparr>sv_listeners := (sv_listeners s)[i := (sv_listeners s ! i)\<lparr>li_collected := True\<rparr>]\<rparr>"
  have "handlers_grow (sv_handlers s) (sv_handlers (CloseServer (?s\<lparr>sv_first := f\<rparr>)))" for f
    using grow_CloseServer [of "?s\<lparr>sv_first := f\<rparr>"] by simp
  then show ?thesis unfolding collect(1) collect_def Let_def by (simp split: serve_loop.split option.split)
next
  case close
  then show ?thesis by (simp add: grow_CloseServer)
qed (simp_all add: start_loops_def set_loop_def accept_failed_def)

section \<open>Properties\<close>

text \<open>
  No connection is forgotten or revived.  Along every run the connections keep their places, each goes
  through its phases in order and never back, and a connection once cancelled or closed stays so,
  whichever goroutine did it.
\<close>

lemma server_connections_advance:
  assumes "reachable s t" and "j < length (sv_handlers s)"
  shows "j < length (sv_handlers t) \<and> ha_phase (sv_handlers s ! j) \<le> ha_phase (sv_handlers t ! j) \<and>
    (ha_cancelled (sv_handlers s ! j) \<longrightarrow> ha_cancelled (sv_handlers t ! j)) \<and>
    (ha_closed (sv_handlers s ! j) \<longrightarrow> ha_closed (sv_handlers t ! j))"
proof -
  have "handlers_grow (sv_handlers s) (sv_handlers t)"
    using assms(1) by (induction rule: reachable.induct) (auto intro: grow_trans grow_step)
  then obtain ms new where g: "sv_handlers t = ms @ new" "list_all2 older (sv_handlers s) ms"
    by (auto simp: handlers_grow_def)
  then have "older (sv_handlers s ! j) (ms ! j)" "length ms = length (sv_handlers s)"
    using assms(2) by (auto simp: list_all2_conv_all_nth)
  with g(1) assms(2) show ?thesis by (simp add: older_def nth_append)
qed

text \<open>
  C26: \<open>Close\<close> reaches everything, whatever it races with.  In every state a server can get to after
  \<open>Close\<close>, no listener is open and every connection has been cancelled, and its socket is closed
  except between the deferred deregistration and the deferred \<open>Close\<close> of its own goroutine; a
  connection accepted while closing is never served.
\<close>

theorem server_close_reaches_all:
  assumes "NewServer loadTLS listen cfg = (None, s0)" and "reachable s0 s" and "sv_closed s"
  shows "(\<forall>l \<in> set (sv_listeners s). \<not> li_open l) \<and>
    (\<forall>h \<in> set (sv_handlers s). ha_cancelled h \<and> (ha_closed h \<or> ha_phase h = Deregistered))"
proof -
  have "server_ok s" using reachable_run_ok [OF assms(2) NewServer_run_ok [OF assms(1)]] by (simp add: run_ok_def)
  moreover have "ha_cancelled h \<and> (ha_closed h \<or> ha_phase h = Deregistered)" if "handler_inv True h" for h
    using that by (cases "ha_phase h") (auto simp: handler_inv_def handler_ok_def)
  ultimately show ?thesis using assms(3) by (auto simp: server_ok_def listener_inv_def)
qed

lemma run_returned_last:
  assumes "NewServer loadTLS listen cfg = (None, s0)" and "reachable s0 s" and "sv_done s"
  shows "(\<forall>h \<in> set (sv_handlers s). ha_phase h = Finished \<and> ha_closed h \<and> \<not> ha_registered h) \<and>
    (\<forall>l \<in> set (sv_listeners s). \<exists>e. li_loop l = Returned e) \<and>
    (if sv_first s = None then \<forall>l \<in> set (sv_listeners s). li_loop l = Returned None else sv_closed s)"
proof -
  have r: "server_ok s" "first_ok s"
    using reachable_run_ok [OF assms(2) NewServer_run_ok [OF assms(1)]] by (auto simp: run_ok_def)
  have d: "\<forall>l \<in> set (sv_listeners s). li_collected l" "\<forall>h \<in> set (sv_handlers s). ha_phase h = Finished"
    using r(1) assms(3) by (auto simp: server_ok_def done_ok_def wg_zero_def list_all_iff)
  have "ha_closed h \<and> \<not> ha_registered h" if "h \<in> set (sv_handlers s)" for h
  proof -
    have "handler_ok h" "ha_phase h = Finished"
      using that r(1) d(2) by (auto simp: server_ok_def handler_inv_def)
    then show ?thesis by (simp add: handler_ok_def)
  qed
  moreover have "\<exists>e. li_loop l = Returned e" if "l \<in> set (sv_listeners s)" for l
    using that r(1) d(1) by (auto simp: server_ok_def listener_inv_def)
  ultimately show ?thesis using r(2) d by (auto simp: first_ok_def)
qed

text \<open>
  C27: \<open>Run\<close> returns only when everything has ended.  When it has returned, every accept loop and every
  connection goroutine has finished, every socket is closed, and the error is nil exactly when no
  loop failed; any other error is the one a loop ended with, and the server is closed.
\<close>

theorem server_run_returns_last:
  assumes "NewServer loadTLS listen cfg = (None, s0)" and "reachable s0 s" and "sv_done s"
  shows "(\<forall>h \<in> set (sv_handlers s). ha_phase h = Finished \<and> ha_closed h \<and> \<not> ha_registered h) \<and>
    (\<forall>l \<in> set (sv_listeners s). \<exists>e. li_loop l = Returned e) \<and>
    (case sv_first s of
       None \<Rightarrow> \<forall>l \<in> set (sv_listeners s). li_loop l = Returned None
     | Some e \<Rightarrow> sv_closed s \<and> (\<exists>l \<in> set (sv_listeners s). li_loop l = Returned (Some e)))"
  using run_returned_last [OF assms] first_error_blamed [OF assms(1,2)] by (auto split: option.split)

section \<open>Shutdown\<close>

fun loop_work :: "serve_loop \<Rightarrow> nat" where
  "loop_work NotStarted = 2"
| "loop_work Accepting = 1"
| "loop_work Holding = 1"
| "loop_work (Returned e) = 0"

definition listener_work :: "listener \<Rightarrow> nat" where
  "listener_work l = loop_work (li_loop l) + (if li_collected l then 0 else 1)"

definition phase_work :: "phase \<Rightarrow> nat" where
  "phase_work p = 4 - phase_rank p"

definition shutdown_work :: "server \<Rightarrow> nat" where
  "shutdown_work s = sum_list (map listener_work (sv_listeners s)) +
     sum_list (map (\<lambda>h. phase_work (ha_phase h)) (sv_handlers s)) + (if sv_done s then 0 else 1)"

lemma sum_list_less_update:
  fixes f :: "'a \<Rightarrow> nat"
  assumes "i < length xs" and "f y < f (xs ! i)"
  shows "sum_list (map f (xs[i := y])) < sum_list (map f xs)"
proof -
  have "f (xs ! i) \<le> sum_list (map f xs)" using elem_le_sum_list [of i "map f xs"] assms(1) by simp
  then show ?thesis using assms by (simp add: map_update sum_list_update)
qed

lemma work_set_listener:
  assumes "i < length (sv_listeners s)" and "listener_work l < listener_work (sv_listeners s ! i)"
  shows "shutdown_work (s\<lparr>sv_listeners := (sv_listeners s)[i := l]\<rparr>) < shutdown_work s"
  using sum_list_less_update [of i "sv_listeners s" listener_work l] assms by (simp add: shutdown_work_def)

lemma work_returned:
  assumes "i < length (sv_listeners s)" and "0 < loop_work (li_loop (sv_listeners s ! i))"
  shows "shutdown_work (set_loop i (Returned e) s) < shutdown_work s"
  unfolding set_loop_def using assms by (intro work_set_listener) (simp_all add: listener_work_def)

lemma work_start:
  assumes "\<forall>l \<in> set ls. li_loop l = NotStarted" and "ls \<noteq> []"
  shows "sum_list (map listener_work (map (\<lambda>l. l\<lparr>li_loop := Accepting\<rparr>) ls)) < sum_list (map listener_work ls)"
  using assms
proof (induction ls)
  case (Cons l ls)
  then show ?case by (cases "ls = []") (auto simp: listener_work_def)
qed simp

lemma shutdown_decreases:
  assumes "server_step s t" and "sv_closed s" and "t \<noteq> s" and "run_ok s"
  shows "shutdown_work t < shutdown_work s \<and> sv_closed t"
  using assms(1)
proof cases
  case run
  then show ?thesis using assms(2,4) work_start [of "sv_listeners s"]
    by (simp add: start_loops_def shutdown_work_def list_all_iff run_ok_def)
next
  case (accept i)
  then show ?thesis using assms(2,4) by (auto simp: run_ok_def server_ok_def listener_inv_def)
next
  case (admit i)
  have "t = (set_loop i (Returned None) s)\<lparr>sv_handlers := sv_handlers s @
      [\<lparr>ha_mode = li_mode (sv_listeners s ! i), ha_registered = False, ha_cancelled = True, ha_closed = True,
        ha_phase = Finished\<rparr>]\<rparr>"
    using admit(1) assms(2) by (simp add: admit_def Let_def)
  moreover have "shutdown_work (set_loop i (Returned None) s) < shutdown_work s"
    using admit(2,3) by (simp add: work_returned)
  ultimately show ?thesis using assms(2) by (simp add: shutdown_work_def set_loop_def phase_work_def)
next
  case (accept_failed i e)
  then have "\<exists>x. t = set_loop i (Returned x) s" unfolding accept_failed_def by blast
  then show ?thesis using accept_failed(2,3) assms(2) work_returned by (auto simp: set_loop_def)
next
  case (unwind j)
  have "phase_work (ha_phase (advance p h)) < phase_work p" if "p \<noteq> Finished" "ha_phase h = p" for p h
    using that by (cases p) (simp_all add: phase_work_def)
  then show ?thesis
    using unwind assms(2) sum_list_less_update [of j "sv_handlers s" "\<lambda>h. phase_work (ha_phase h)"]
    by (simp add: unwind_def shutdown_work_def)
next
  case close
  then show ?thesis using assms(2,3) by (simp add: CloseServer_def)
next
  case (collect i r)
  let ?s = "s\<lparr>sv_listeners := (sv_listeners s)[i := (sv_listeners s ! i)\<lparr>li_collected := True\<rparr>]\<rparr>"
  have "shutdown_work ?s < shutdown_work s"
    using collect(2,4) by (intro work_set_listener) (simp_all add: listener_work_def)
  moreover have "shutdown_work t = shutdown_work ?s" "sv_closed t"
    using collect(1) assms(2)
    by (auto simp: collect_def CloseServer_def shutdown_work_def Let_def split: serve_loop.split option.split)
  ultimately show ?thesis by simp
next
  case finish
  then show ?thesis using assms(2) by (simp add: shutdown_work_def)
qed

text \<open>
  C29: A shutdown ends.  After \<open>Close\<close>, every step that changes the server, by whichever goroutine,
  uses up some of a finite amount of work, and the server stays closed; so there is no infinite run
  without idle steps.
\<close>

theorem server_shutdown_decreases:
  assumes "NewServer loadTLS listen cfg = (None, s0)" and "reachable s0 s" and "sv_closed s"
    and "server_step s t" and "t \<noteq> s"
  shows "shutdown_work t < shutdown_work s \<and> sv_closed t"
  using shutdown_decreases [OF assms(4,3,5)] reachable_run_ok [OF assms(2) NewServer_run_ok [OF assms(1)]] .

text \<open>A closed server that has not returned can always make a step that changes it.\<close>

lemma list_update_differs: "i < length xs \<Longrightarrow> y \<noteq> xs ! i \<Longrightarrow> xs[i := y] \<noteq> xs"
  by (metis nth_list_update_eq)

lemma set_loop_differs:
  assumes "i < length (sv_listeners s)" and "li_loop (sv_listeners s ! i) \<noteq> l"
  shows "set_loop i l s \<noteq> s"
proof -
  have "(sv_listeners s ! i)\<lparr>li_loop := l\<rparr> \<noteq> sv_listeners s ! i"
    using assms(2) by (metis listener.select_convs(4) listener.surjective listener.update_convs(4))
  then have "sv_listeners (set_loop i l s) \<noteq> sv_listeners s"
    using list_update_differs [OF assms(1)] by (simp add: set_loop_def)
  then show ?thesis by auto
qed

text \<open>
  The steps the program takes without the help of a client.  \<open>Accept\<close> is sure to return when its listener
  is closed, and the protocol of a connection is sure to end when its context is cancelled and its
  socket closed; everything after that is deferred calls.
\<close>

inductive forced_step :: "server \<Rightarrow> server \<Rightarrow> bool" where
  forced_run: "list_all (\<lambda>l. li_loop l = NotStarted) (sv_listeners s) \<Longrightarrow> \<not> sv_done s \<Longrightarrow>
     forced_step s (start_loops s)"
| forced_admit: "i < length (sv_listeners s) \<Longrightarrow> li_loop (sv_listeners s ! i) = Holding \<Longrightarrow>
     forced_step s (admit i s)"
| forced_accept: "i < length (sv_listeners s) \<Longrightarrow> li_loop (sv_listeners s ! i) = Accepting \<Longrightarrow>
     \<not> li_open (sv_listeners s ! i) \<Longrightarrow> forced_step s (accept_failed i e s)"
| forced_unwind: "j < length (sv_handlers s) \<Longrightarrow> ha_phase (sv_handlers s ! j) \<noteq> Finished \<Longrightarrow>
     (ha_phase (sv_handlers s ! j) = Serving \<Longrightarrow> ha_cancelled (sv_handlers s ! j) \<and> ha_closed (sv_handlers s ! j)) \<Longrightarrow>
     forced_step s (unwind j s)"
| forced_collect: "i < length (sv_listeners s) \<Longrightarrow> li_loop (sv_listeners s ! i) = Returned r \<Longrightarrow>
     \<not> li_collected (sv_listeners s ! i) \<Longrightarrow> forced_step s (collect i s)"
| forced_finish: "list_all li_collected (sv_listeners s) \<Longrightarrow> sv_listeners s \<noteq> [] \<Longrightarrow> wg_zero s \<Longrightarrow> \<not> sv_done s \<Longrightarrow>
     forced_step s (s\<lparr>sv_done := True\<rparr>)"

lemma forced_server_step: "forced_step s t \<Longrightarrow> server_step s t"
  by (induction rule: forced_step.induct) (auto intro: server_step.intros)

text \<open>
  \<open>must_return s\<close>: every run from \<open>s\<close> comes to the return of \<open>Run\<close>.  Before that there is always a step
  the program is forced to take, and every step that changes something, by whomever, leads to a state
  with the same promise.
\<close>

inductive must_return :: "server \<Rightarrow> bool" where
  returned: "sv_done s \<Longrightarrow> must_return s"
| progress: "forced_step s t \<Longrightarrow> t \<noteq> s \<Longrightarrow> (\<And>u. server_step s u \<Longrightarrow> u \<noteq> s \<Longrightarrow> must_return u) \<Longrightarrow> must_return s"

lemma shutdown_progress:
  assumes "run_ok s" and "sv_closed s" and "\<not> sv_done s"
  shows "\<exists>t. forced_step s t \<and> t \<noteq> s"
proof -
  have ok: "server_ok s" "started_ok s" "sv_listeners s \<noteq> []" using assms(1) by (auto simp: run_ok_def)
  consider "\<forall>l \<in> set (sv_listeners s). li_loop l = NotStarted"
    | i where "i < length (sv_listeners s)" "li_loop (sv_listeners s ! i) = Accepting"
    | i where "i < length (sv_listeners s)" "li_loop (sv_listeners s ! i) = Holding"
    | i e where "i < length (sv_listeners s)" "li_loop (sv_listeners s ! i) = Returned e"
        "\<not> li_collected (sv_listeners s ! i)"
    | "\<forall>l \<in> set (sv_listeners s). li_collected l"
    using ok(2) unfolding started_ok_def by (metis in_set_conv_nth serve_loop.exhaust)
  then show ?thesis
  proof cases
    case 1
    then have "forced_step s (start_loops s)" using assms(3) by (intro forced_run) (simp_all add: list_all_iff)
    moreover have "start_loops s \<noteq> s"
    proof
      assume "start_loops s = s"
      then have "sv_listeners (start_loops s) = sv_listeners s" by simp
      then have "map (\<lambda>l. l\<lparr>li_loop := Accepting\<rparr>) (sv_listeners s) = sv_listeners s" by (simp add: start_loops_def)
      then have "hd (sv_listeners s)\<lparr>li_loop := Accepting\<rparr> = hd (sv_listeners s)" using ok(3) by (metis hd_map)
      then have "li_loop (hd (sv_listeners s)) = Accepting" by (metis listener.select_convs(4) listener.surjective listener.update_convs(4))
      with 1 ok(3) show False by simp
    qed
    ultimately show ?thesis by blast
  next
    case 2
    have "\<not> li_open (sv_listeners s ! i)"
      using 2(1) ok(1) assms(2) by (simp add: server_ok_def listener_inv_def)
    with 2 have "forced_step s (accept_failed i (Err '''') s)" by (rule forced_accept)
    moreover have "accept_failed i (Err '''') s \<noteq> s"
      unfolding accept_failed_def using 2 by (intro set_loop_differs) simp_all
    ultimately show ?thesis by blast
  next
    case 3
    have "length (sv_handlers (admit i s)) \<noteq> length (sv_handlers s)"
      by (simp add: admit_def Let_def)
    then have "admit i s \<noteq> s" by auto
    with forced_admit [OF 3] show ?thesis by blast
  next
    case 4
    have "li_collected (sv_listeners (collect i s) ! i)"
      using 4(1,2) assms(2) by (auto simp: collect_def CloseServer_def Let_def split: option.split)
    then have "collect i s \<noteq> s" using 4(3) by auto
    with forced_collect [OF 4] show ?thesis by blast
  next
    case 5
    show ?thesis
    proof (cases "wg_zero s")
      case True
      then have "forced_step s (s\<lparr>sv_done := True\<rparr>)" using 5 ok(3) assms(3)
        by (intro forced_finish) (simp_all add: list_all_iff)
      moreover have "s\<lparr>sv_done := True\<rparr> \<noteq> s" using assms(3) by (metis server.select_convs(7) server.surjective server.update_convs(7))
      ultimately show ?thesis by blast
    next
      case False
      then obtain j where j: "j < length (sv_handlers s)" "ha_phase (sv_handlers s ! j) \<noteq> Finished"
        by (auto simp: wg_zero_def list_all_length)
      have "ha_phase (advance p h) \<noteq> p" if "p \<noteq> Finished" for p h using that by (cases p) simp_all
      then have "ha_phase (sv_handlers (unwind j s) ! j) \<noteq> ha_phase (sv_handlers s ! j)"
        using j by (simp add: unwind_def)
      then have "unwind j s \<noteq> s" by auto
      moreover have "ha_cancelled (sv_handlers s ! j) \<and> ha_closed (sv_handlers s ! j)"
        if "ha_phase (sv_handlers s ! j) = Serving"
        using that ok(1) j(1) assms(2) by (auto simp: server_ok_def handler_inv_def handler_ok_def dest!: bspec [OF _ nth_mem])
      then have "forced_step s (unwind j s)" by (rule forced_unwind [OF j])
      ultimately show ?thesis by blast
    qed
  qed
qed

lemma reachable_trans: "reachable s t \<Longrightarrow> reachable s0 s \<Longrightarrow> reachable s0 t"
  by (induction rule: reachable.induct) (auto intro: reachable.intros)

lemma shutdown_must_return:
  assumes "run_ok s" and "sv_closed s"
  shows "must_return s"
  using assms
proof (induction "shutdown_work s" arbitrary: s rule: less_induct)
  case less
  show ?case
  proof (cases "sv_done s")
    case False
    obtain t where t: "forced_step s t" "t \<noteq> s" using shutdown_progress [OF less.prems False] by blast
    then show ?thesis
    proof (rule progress)
      fix u
      assume u: "server_step s u" "u \<noteq> s"
      have "shutdown_work u < shutdown_work s" "sv_closed u"
        using shutdown_decreases [OF u(1) less.prems(2) u(2) less.prems(1)] by simp_all
      with run_ok_step [OF u(1) less.prems(1)] show "must_return u" by (intro less.hyps)
    qed
  qed (rule returned)
qed

lemma must_return_reaches: "must_return s \<Longrightarrow> \<exists>t. reachable s t \<and> sv_done t"
proof (induction rule: must_return.induct)
  case (progress s t)
  have s: "server_step s t" using progress(1) by (rule forced_server_step)
  then obtain u where "reachable t u" "sv_done u" using progress.IH progress.hyps(2) by metis
  moreover have "reachable s t" using reachable.start s by (rule reachable.step)
  ultimately show ?case using reachable_trans by metis
next
  case (returned s)
  then show ?case using reachable.start by metis
qed

text \<open>
  C28: A closed server comes to its end by itself.  From every state of a closed server, whatever its
  loops and connections were doing, every run leads to the return of \<open>Run\<close>: until then some goroutine
  has a step that it is forced to take because its listener is closed, or its connection cancelled and
  closed, or it waits for nobody, and no step of any goroutine leads away from the end.
\<close>

theorem server_shutdown_completes:
  assumes "NewServer loadTLS listen cfg = (None, s0)" and "reachable s0 s" and "sv_closed s"
  shows "must_return s \<and> (\<exists>t. reachable s t \<and> sv_done t)"
proof -
  have "run_ok s" using reachable_run_ok [OF assms(2) NewServer_run_ok [OF assms(1)]] .
  then have "must_return s" using assms(3) by (rule shutdown_must_return)
  with must_return_reaches show ?thesis by blast
qed

section \<open>Configuration\<close>

text \<open>
  A program that starts listens with a configuration that has a known mode, addresses, a user, a
  positive timeout and either both or none of the TLS files, whatever the file left out; and
  normalising it a second time, as \<open>NewServer\<close> does after \<open>ParseConfigFile\<close>, changes nothing.
\<close>

lemma started_config:
  assumes "run_program env args = Started level s"
  shows "config_ok (sv_cfg s) \<and> defaults (sv_cfg s) = Inr (sv_cfg s) \<and>
    (\<exists>fl. en_parseFlags env args = Inr fl \<and>
      ParseConfigFile (en_readFile env) (en_unmarshal env) (fl_config fl) = Inr (sv_cfg s))"
proof -
  obtain fl cfg where p: "en_parseFlags env args = Inr fl"
    "ParseConfigFile (en_readFile env) (en_unmarshal env) (fl_config fl) = Inr cfg"
    "NewServer (en_loadTLS env) (en_listen env) cfg = (None, s)"
    using assms by (auto simp: run_program_def split: sum.splits if_splits prod.splits option.splits)
  obtain raw where raw: "defaults raw = Inr cfg"
    using p(2) by (auto simp: ParseConfigFile_def ParseConfigData_def split: sum.splits)
  have ok: "config_ok cfg" using raw by (rule defaults_config_ok)
  then have again: "defaults cfg = Inr cfg" by (rule defaults_fixpoint)
  have "sv_cfg s = cfg" using NewServer_ok [OF p(3)] again by auto
  with ok again p show ?thesis by auto
qed

section \<open>Instances\<close>

definition both_config :: config where
  "both_config = \<lparr>mode = ''both'', postgresAddr = '''', user = '''', password = ''pw'', tlsCert = '''', tlsKey = '''',
     queryTimeoutSeconds = 0, addr = '''',
     milvus = \<lparr>address = ''m'', username = '''', mpassword = '''', enableTLSAuth = False, apiKey = ''''\<rparr>,
     logLevel = '''', logPath = ''''\<rparr>"

definition both_server :: server where
  "both_server = snd (NewServer (\<lambda>_ _. Inr ()) (\<lambda>_. Inr ()) both_config)"

lemma both_server_new: "NewServer (\<lambda>_ _. Inr ()) (\<lambda>_. Inr ()) both_config = (None, both_server)"
proof -
  have "fst (NewServer (\<lambda>_ _. Inr ()) (\<lambda>_. Inr ()) both_config) = None" by code_simp
  then show ?thesis by (simp add: both_server_def prod_eq_iff)
qed

text \<open>A connection is being served when the server is closed.\<close>

definition serving_server :: server where
  "serving_server = admit 0 (set_loop 0 Holding (start_loops both_server))"

lemma serving_reachable: "reachable both_server (CloseServer serving_server)"
proof -
  have "server_step both_server (start_loops both_server)"
    by (rule server_step.run) code_simp+
  moreover have "server_step (start_loops both_server) (set_loop 0 Holding (start_loops both_server))"
    by (rule server_step.accept) code_simp+
  moreover have "server_step (set_loop 0 Holding (start_loops both_server)) serving_server"
    unfolding serving_server_def by (rule server_step.admit) code_simp+
  ultimately show ?thesis
    by (meson reachable.start reachable.step server_step.close)
qed

lemma serving_facts:
  "sv_closed (CloseServer serving_server)"
  "map ha_phase (sv_handlers (CloseServer serving_server)) = [Serving]"
  by code_simp+

theorem server_close_reaches_all_witness:
  "list_all (\<lambda>h. ha_cancelled h \<and> (ha_closed h \<or> ha_phase h = Deregistered)) (sv_handlers (CloseServer serving_server))"
  using server_close_reaches_all [OF both_server_new serving_reachable serving_facts(1)] by (simp add: list_all_iff)

theorem server_shutdown_completes_witness:
  "must_return (CloseServer serving_server)"
  using server_shutdown_completes [OF both_server_new serving_reachable serving_facts(1)] by blast

lemma both_server_stops: "\<exists>t. reachable both_server t \<and> sv_done t"
proof -
  have "run_ok (CloseServer serving_server)"
    using reachable_run_ok [OF serving_reachable NewServer_run_ok [OF both_server_new]] .
  then have "must_return (CloseServer serving_server)" using serving_facts(1) by (rule shutdown_must_return)
  then obtain t where "reachable (CloseServer serving_server) t" "sv_done t" using must_return_reaches by blast
  with reachable_trans [OF _ serving_reachable] show ?thesis by blast
qed

theorem server_run_returns_last_witness:
  "\<exists>t. reachable both_server t \<and> sv_done t \<and> list_all (\<lambda>h. ha_phase h = Finished) (sv_handlers t)"
proof -
  obtain t where t: "reachable both_server t" "sv_done t" using both_server_stops by blast
  from server_run_returns_last [OF both_server_new t] have "list_all (\<lambda>h. ha_phase h = Finished) (sv_handlers t)"
    by (simp add: list_all_iff)
  with t show ?thesis by blast
qed

theorem server_shutdown_decreases_witness:
  "shutdown_work (unwind 0 (CloseServer serving_server)) < shutdown_work (CloseServer serving_server)"
proof -
  have s: "server_step (CloseServer serving_server) (unwind 0 (CloseServer serving_server))"
    by (rule server_step.unwind) code_simp+
  have "map ha_phase (sv_handlers (unwind 0 (CloseServer serving_server))) = [Cancelling]" by code_simp
  then have "unwind 0 (CloseServer serving_server) \<noteq> CloseServer serving_server"
    using serving_facts(2) by (metis list.inject phase.distinct(1))
  from server_shutdown_decreases [OF both_server_new serving_reachable serving_facts(1) s this] show ?thesis by blast
qed

definition demo_environment :: "unit environment" where
  "demo_environment = \<lparr>en_parseFlags = (\<lambda>_. Inr \<lparr>fl_config = ''c.yaml'', fl_logLevel = '''', fl_version = False\<rparr>),
     en_readFile = (\<lambda>_. Inr ()), en_unmarshal = (\<lambda>_. Inr both_config), en_openLog = (\<lambda>_. Inr ()),
     en_joinPath = (\<lambda>d f. d @ ''/'' @ f), en_loadTLS = (\<lambda>_ _. Inr ()), en_listen = (\<lambda>_. Inr ())\<rparr>"

end
