(* ===== verification/ServerSpec.thy ===== *)
theory ServerSpec
  imports ServerProps
begin

text \<open>
  What the server promises its operator, as an abstract machine: it is up with a number of live
  connections, then it drains, then it has stopped.  Every run of the server with its listeners,
  loops and goroutines is a run of this machine.  The program around it exits only when the machine
  has stopped.
\<close>

section \<open>The abstract service\<close>

datatype service = Up nat | Draining nat | Stopped

inductive service_step :: "service \<Rightarrow> service \<Rightarrow> bool" where
  connect: "service_step (Up n) (Up (Suc n))"
| disconnect: "service_step (Up (Suc n)) (Up n)"
| shutdown: "service_step (Up n) (Draining n)"
| drain: "service_step (Draining (Suc n)) (Draining n)"
| stop: "service_step (Draining 0) Stopped"

inductive_simps service_step_simps [simp]:
  "service_step (Up n) x" "service_step (Draining n) x" "service_step Stopped x"

text \<open>A connection is live until its goroutine has finished.\<close>

definition live :: "handler list \<Rightarrow> nat" where
  "live hs = length (filter (\<lambda>h. ha_phase h \<noteq> Finished) hs)"

definition service_of :: "server \<Rightarrow> service" where
  "service_of s =
     (if sv_done s then Stopped
      else if sv_closed s then Draining (live (sv_handlers s)) else Up (live (sv_handlers s)))"

lemma live_append [simp]: "live (hs @ ks) = live hs + live ks"
  by (simp add: live_def)

lemma live_shut [simp]: "live (map shut hs) = live hs"
  by (induction hs) (simp_all add: live_def)

lemma live_single [simp]:
  "live [h] = (if ha_phase h = Finished then 0 else 1)" "live [] = 0"
  by (simp_all add: live_def)

lemma live_Cons: "live (h # hs) = live [h] + live hs"
  by (simp add: live_def)

lemma live_zero: "live (sv_handlers s) = 0 \<longleftrightarrow> wg_zero s"
  by (auto simp: live_def wg_zero_def list_all_iff filter_empty_conv)

lemma live_update:
  "j < length hs \<Longrightarrow> live (hs[j := h]) + live [hs ! j] = live hs + live [h]"
proof -
  assume j: "j < length hs"
  have "live (hs[j := h]) = live (take j hs) + live [h] + live (drop (Suc j) hs)"
    using j live_Cons [of h "drop (Suc j) hs"] by (simp add: upd_conv_take_nth_drop)
  moreover have "live hs = live (take j hs) + live [hs ! j] + live (drop (Suc j) hs)"
    using live_Cons [of "hs ! j" "drop (Suc j) hs"] live_append [of "take j hs" "hs ! j # drop (Suc j) hs"]
      id_take_nth_drop [OF j] by simp
  ultimately show ?thesis by simp
qed

lemma live_unwind:
  assumes "j < length (sv_handlers s)" and "ha_phase (sv_handlers s ! j) \<noteq> Finished"
  shows "live (sv_handlers s) =
    live (sv_handlers (unwind j s)) + (if ha_phase (sv_handlers s ! j) = SocketClosed then 1 else 0)"
  using live_update [OF assms(1), of "advance (ha_phase (sv_handlers s ! j)) (sv_handlers s ! j)"] assms(2)
  by (cases "ha_phase (sv_handlers s ! j)") (simp_all add: unwind_def)

section \<open>Loops end without an error only after \<open>Close\<close>\<close>

definition open_ok :: "server \<Rightarrow> bool" where
  "open_ok s \<longleftrightarrow> (\<not> sv_closed s \<longrightarrow> (\<forall>l \<in> set (sv_listeners s). li_open l \<and> li_loop l \<noteq> Returned None))"

lemma open_ok_closed [simp]: "sv_closed s \<Longrightarrow> open_ok s"
  by (simp add: open_ok_def)

lemma open_ok_set_listener:
  assumes "open_ok s" and "li_open l" and "li_loop l \<noteq> Returned None"
  shows "open_ok (s\<lparr>sv_listeners := (sv_listeners s)[i := l]\<rparr>)"
proof (cases "sv_closed s")
  case False
  then have "\<forall>k \<in> set (sv_listeners s). li_open k \<and> li_loop k \<noteq> Returned None" using assms(1) by (simp add: open_ok_def)
  then have "\<forall>k \<in> set ((sv_listeners s)[i := l]). li_open k \<and> li_loop k \<noteq> Returned None"
    by (rule ball_update) (simp add: assms(2,3))
  then show ?thesis by (simp add: open_ok_def)
qed simp

lemma open_ok_nth: "open_ok s \<Longrightarrow> \<not> sv_closed s \<Longrightarrow> i < length (sv_listeners s) \<Longrightarrow>
   li_open (sv_listeners s ! i) \<and> li_loop (sv_listeners s ! i) \<noteq> Returned None"
  using nth_mem by (fastforce simp: open_ok_def)

lemma open_ok_step:
  assumes "server_step s t" and "open_ok s"
  shows "open_ok t"
proof (cases "sv_closed s")
  case False
  note o = open_ok_nth [OF assms(2) False]
  have set: "open_ok (set_loop i x s)" if "i < length (sv_listeners s)" "x \<noteq> Returned None" for i x
    using open_ok_set_listener [OF assms(2)] o [OF that(1)] that(2) by (simp add: set_loop_def)
  show ?thesis
    using assms(1)
  proof cases
    case run
    then show ?thesis using assms(2) by (simp add: open_ok_def start_loops_def)
  next
    case (accept i)
    then show ?thesis using set by simp
  next
    case (admit i)
    have "open_ok (set_loop i Accepting s)" using admit(2) set by simp
    then show ?thesis using admit(1) False by (simp add: admit_def open_ok_def set_loop_def Let_def)
  next
    case (accept_failed i e)
    then show ?thesis using set o by (simp add: accept_failed_def)
  next
    case (unwind j)
    then show ?thesis using assms(2) by (simp add: open_ok_def unwind_def)
  next
    case (collect i r)
    have "open_ok (s\<lparr>sv_listeners := (sv_listeners s)[i := (sv_listeners s ! i)\<lparr>li_collected := True\<rparr>]\<rparr>)"
      using open_ok_set_listener [OF assms(2)] o [OF collect(2)] by simp
    then show ?thesis unfolding collect(1) collect_def Let_def
      by (simp split: serve_loop.split option.split)
  next
    case finish
    then show ?thesis using assms(2) by (simp add: open_ok_def)
  qed simp
next
  case True
  have "sv_closed t" using assms(1)
    by cases (simp_all add: True start_loops_def set_loop_def admit_def accept_failed_def unwind_def collect_def
        CloseServer_def Let_def split: serve_loop.split option.split)
  then show ?thesis by simp
qed

lemma NewServer_open_ok: "NewServer loadTLS listen cfg = (None, s0) \<Longrightarrow> open_ok s0"
  using NewServer_ok [of loadTLS listen cfg s0] by (auto simp: open_ok_def)

lemma reachable_open_ok: "reachable s0 s \<Longrightarrow> open_ok s0 \<Longrightarrow> open_ok s"
  by (induction rule: reachable.induct) (auto intro: open_ok_step)

text \<open>\<open>Run\<close> returns only from a closed server.\<close>

lemma collected_closed:
  assumes "run_ok s" and "open_ok s" and "list_all li_collected (sv_listeners s)"
  shows "sv_closed s"
proof (rule ccontr)
  assume c: "\<not> sv_closed s"
  then have "\<forall>l \<in> set (sv_listeners s). li_collected l \<longrightarrow> li_loop l = Returned None"
    using assms(1) by (auto simp: run_ok_def first_ok_def split: if_splits)
  moreover obtain l where "l \<in> set (sv_listeners s)"
    using assms(1) by (cases "sv_listeners s") (auto simp: run_ok_def)
  ultimately show False using c assms(2,3) by (auto simp: open_ok_def list_all_iff)
qed

section \<open>Refinement\<close>

lemma service_CloseServer:
  "service_of (CloseServer s) = service_of s \<or> service_step (service_of s) (service_of (CloseServer s))"
  by (auto simp: service_of_def CloseServer_def)

lemma service_same:
  "sv_done t = sv_done s \<Longrightarrow> sv_closed t = sv_closed s \<Longrightarrow> live (sv_handlers t) = live (sv_handlers s) \<Longrightarrow>
     service_of t = service_of s"
  by (simp add: service_of_def)

lemma service_simulates:
  assumes "run_ok s" and "open_ok s" and "server_step s t"
  shows "service_of t = service_of s \<or> service_step (service_of s) (service_of t)"
  using assms(3)
proof cases
  case run
  then show ?thesis by (auto intro: service_same simp: start_loops_def)
next
  case (accept i)
  then show ?thesis by (auto intro: service_same simp: set_loop_def)
next
  case (admit i)
  have "\<not> sv_done s"
    using live_loop_not_done [of s i] assms(1) admit(2,3) by (simp add: run_ok_def)
  then show ?thesis using admit(1) by (auto simp: service_of_def admit_def set_loop_def Let_def)
next
  case (accept_failed i e)
  then show ?thesis by (auto intro: service_same simp: accept_failed_def set_loop_def)
next
  case (unwind j)
  have "\<not> sv_done s"
    using assms(1) unwind(2,3) by (auto simp: run_ok_def server_ok_def done_ok_def wg_zero_def list_all_iff)
  then show ?thesis
    using live_unwind [OF unwind(2,3)] unwind(1)
    by (auto simp: service_of_def unwind_def split: if_splits)
next
  case close
  then show ?thesis using service_CloseServer by simp
next
  case (collect i r)
  let ?s = "s\<lparr>sv_listeners := (sv_listeners s)[i := (sv_listeners s ! i)\<lparr>li_collected := True\<rparr>]\<rparr>"
  have same: "service_of ?s = service_of s" "service_of (?s\<lparr>sv_first := f\<rparr>) = service_of s" for f
    by (simp_all add: service_of_def)
  show ?thesis
    using service_CloseServer [of "?s\<lparr>sv_first := f\<rparr>" for f] same
    unfolding collect(1) collect_def Let_def by (auto split: serve_loop.split option.split)
next
  case finish
  have "sv_closed s" using assms(1,2) finish(2) by (rule collected_closed)
  then show ?thesis using finish live_zero [of s] by (simp add: service_of_def)
qed

text \<open>
  C39: The server refines a service that is up, drains and stops.  In the abstract view a new server is
  up without connections; each step of the real one, in any interleaving of accept loops, connection
  goroutines, \<open>Run\<close> and \<open>Close\<close>, is a step of the service or invisible.  So no connection is taken on
  once the server drains, and it stops only when the last one is gone.
\<close>

theorem server_refines_service:
  assumes "NewServer loadTLS listen cfg = (None, s0)" and "reachable s0 s"
  shows "service_step\<^sup>*\<^sup>* (Up 0) (service_of s) \<and>
    (server_step s t \<longrightarrow> service_of t = service_of s \<or> service_step (service_of s) (service_of t))"
proof -
  have ok: "run_ok u \<and> open_ok u" if "reachable s0 u" for u
    using reachable_run_ok [OF that NewServer_run_ok [OF assms(1)]] reachable_open_ok [OF that NewServer_open_ok [OF assms(1)]]
    by blast
  have s0: "service_of s0 = Up 0" using NewServer_ok [OF assms(1)] by (auto simp: service_of_def)
  have "service_step\<^sup>*\<^sup>* (Up 0) (service_of s)"
    using assms(2)
  proof (induction rule: reachable.induct)
    case (step u v)
    then show ?case using ok [of u] service_simulates [of u v] by (metis rtranclp.rtrancl_into_rtrancl)
  qed (simp add: s0)
  then show ?thesis using ok [OF assms(2)] service_simulates [of s t] by blast
qed

section \<open>Instances\<close>

theorem server_refines_service_witness:
  "service_of (CloseServer serving_server) = Draining 1 \<and> service_step\<^sup>*\<^sup>* (Up 0) (service_of (CloseServer serving_server))"
proof -
  have "service_of (CloseServer serving_server) = Draining 1" by code_simp
  with server_refines_service [OF both_server_new serving_reachable] show ?thesis by simp
qed

end
