(* ===== verification/ProgramProps.thy ===== *)
theory ProgramProps
  imports ServerSpec Program
begin

text \<open>
  The program from its command line to its exit: what a finished run leaves behind, and what its exit
  code says.
\<close>

section \<open>The configuration never changes\<close>

lemma cfg_step: "server_step s t \<Longrightarrow> sv_cfg t = sv_cfg s"
  by (induction rule: server_step.induct)
     (auto simp: start_loops_def set_loop_def admit_def accept_failed_def unwind_def collect_def CloseServer_def
       Let_def split: serve_loop.split option.split)

lemma cfg_reachable: "reachable s0 s \<Longrightarrow> sv_cfg s = sv_cfg s0"
  by (induction rule: reachable.induct) (simp_all add: cfg_step)

section \<open>Exits\<close>

lemma started_server:
  assumes "run_program env args = Started level s"
  obtains cfg where "NewServer (en_loadTLS env) (en_listen env) cfg = (None, s)"
  using assms by (auto simp: run_program_def split: sum.splits if_splits prod.splits option.splits)

text \<open>
  C40: The program leaves nothing behind and its exit code tells.  When a program that served exits,
  it ran with a complete configuration, every listener is closed, every connection has ended with its
  socket closed, and the exit code is 0 exactly when no accept loop failed; otherwise the error it
  prints is the error of a loop that failed.
\<close>

theorem program_exit_clean:
  assumes "program_exits env args e (Some t)"
  shows "config_ok (sv_cfg t) \<and> (\<forall>l \<in> set (sv_listeners t). \<not> li_open l) \<and>
    (\<forall>h \<in> set (sv_handlers t). ha_phase h = Finished \<and> ha_closed h) \<and>
    (exit_code e = 0 \<longleftrightarrow> (\<forall>l \<in> set (sv_listeners t). li_loop l = Returned None)) \<and>
    (\<forall>x. e = Some x \<longrightarrow> (\<exists>l \<in> set (sv_listeners t). li_loop l = Returned (Some x)))"
  using assms
proof cases
  case (exit_served level s u)
  obtain cfg where n: "NewServer (en_loadTLS env) (en_listen env) cfg = (None, s)"
    using exit_served(3) by (rule started_server)
  have run: "run_ok u" "open_ok u"
    using reachable_run_ok [OF exit_served(4) NewServer_run_ok [OF n]]
      reachable_open_ok [OF exit_served(4) NewServer_open_ok [OF n]] by blast+
  have "list_all li_collected (sv_listeners u)"
    using run(1) exit_served(5) by (auto simp: run_ok_def server_ok_def done_ok_def list_all_iff)
  then have closed: "sv_closed u" using collected_closed run by blast
  then have t: "t = u" using exit_served(2) by (simp add: CloseServer_def)
  have r: "(\<forall>h \<in> set (sv_handlers u). ha_phase h = Finished \<and> ha_closed h \<and> \<not> ha_registered h) \<and>
    (\<forall>l \<in> set (sv_listeners u). \<exists>e. li_loop l = Returned e) \<and>
    (if sv_first u = None then \<forall>l \<in> set (sv_listeners u). li_loop l = Returned None else sv_closed u)"
    by (rule run_returned_last [OF n exit_served(4,5)])
  have b: "\<forall>x. e = Some x \<longrightarrow> (\<exists>l \<in> set (sv_listeners u). li_loop l = Returned (Some x))"
    using first_error_blamed [OF n exit_served(4)] exit_served(1) by simp
  have "exit_code e = 0 \<longleftrightarrow> (\<forall>l \<in> set (sv_listeners u). li_loop l = Returned None)"
  proof (cases e)
    case None
    then show ?thesis using r exit_served(1) by (simp add: exit_code_def)
  next
    case (Some x)
    then show ?thesis using b by (force simp: exit_code_def)
  qed
  moreover have "config_ok (sv_cfg u)"
    using started_config [OF exit_served(3)] cfg_reachable [OF exit_served(4)] by simp
  moreover have "\<forall>l \<in> set (sv_listeners u). \<not> li_open l"
    using run(1) closed by (auto simp: run_ok_def server_ok_def listener_inv_def)
  ultimately show ?thesis using r b t by blast
qed

section \<open>Instances\<close>

lemma demo_started: "run_program demo_environment [] = Started LevelInfo both_server"
  by code_simp

theorem program_exit_clean_witness:
  "\<exists>e t. program_exits demo_environment [] e (Some t) \<and> list_all (\<lambda>l. \<not> li_open l) (sv_listeners t)"
proof -
  obtain t where "reachable both_server t" "sv_done t" using both_server_stops by blast
  then have e: "program_exits demo_environment [] (sv_first t) (Some (CloseServer t))"
    by (intro program_exits.exit_served [OF demo_started])
  from program_exit_clean [OF e] e show ?thesis by (auto simp: list_all_iff)
qed

end
