(* ===== verification/Spec2Isabelle.thy ===== *)
theory Spec2Isabelle
  imports FilterText DdlProps CommandProps SelectAnswer PgFlow MysqlProps ConnSafe SessionLife ProgramProps
begin

text \<open>
  A verification development for \<open>milvus-sql-proxy\<close>, a server that speaks the MySQL and the
  PostgreSQL wire protocols and answers SQL with calls to a Milvus vector database.

  \<^bold>\<open>The program.\<close>  A connection is authenticated by an adapter (\<open>pkg/postgres.go\<close>, \<open>pkg/mysql.go\<close>),
  which owns a SQL session (\<open>pkg/conn.go\<close>).  A statement is bound to its parameters (\<open>pkg/bind.go\<close>)
  and dispatched (\<open>pkg/conn_query.go\<close>): first to the commands recognised by pattern
  (\<open>pkg/commands.go\<close>, \<open>pkg/indexes.go\<close>), otherwise to the SQL parser and the handlers of SELECT and
  SHOW (\<open>pkg/select_plan.go\<close>, \<open>pkg/select.go\<close>, \<open>pkg/show.go\<close>), INSERT and DELETE (\<open>pkg/insert.go\<close>),
  CREATE and DROP (\<open>pkg/ddl.go\<close>, \<open>pkg/dbddl.go\<close>, \<open>pkg/types.go\<close>) and USE (\<open>pkg/use.go\<close>).  Handlers
  call Milvus through the SDK client and store a result in the session
  (\<open>pkg/conn_resultvalue.go\<close>), which the adapter encodes.  \<open>pkg/server.go\<close> runs the listeners and
  connections, \<open>pkg/config.go\<close> and \<open>cmd/milvus-sql.go\<close> configure and start it.

  \<^bold>\<open>Libraries the model is built on.\<close>
  \<^item> \<open>Prelude\<close>: results (an error or a value), actions on a state, the locales \<open>action_frame\<close> (what an
    action leaves alone), \<open>stepper\<close> (an invariant of a step function) and \<open>embedded_codec\<close> (an encoder
    with a decoder that is indifferent to the text that follows).
  \<^item> \<open>GoStrings\<close>, \<open>GoStrconv\<close>, \<open>GoFloat\<close>, \<open>GoFtoa\<close>, \<open>GoQuote\<close>, \<open>GoJson\<close>, \<open>GoRegexp\<close>: the parts of Go's
    standard library the code uses, as executable functions on byte strings and words.  A string is
    its list of bytes; fixed-width integers are words; floating point numbers are their bit patterns
    and are parsed and printed exactly.  \<open>GoValue\<close> has the dynamic values.

  \<^bold>\<open>The model.\<close>
  \<^item> \<open>Bind\<close> is \<open>pkg/bind.go\<close>; \<open>Sqlparser\<close> has the syntax trees of the parser, \<open>SelectPlan\<close> is
    \<open>pkg/select_plan.go\<close>.
  \<^item> \<open>Milvus\<close> has the data of the SDK and two records of parameters, the remote calls \<open>client\<close> and the
    local functions \<open>sdk\<close>.  A remote call takes and returns the state of the service; the session
    logs every call with the context it got, so that statements about effects are statements about
    the log.
  \<^item> \<open>Session\<close> is \<open>pkg/conn.go\<close> with \<open>pkg/conn_resultvalue.go\<close>; \<open>Insert\<close>, \<open>Ddl\<close>, \<open>Indexes\<close>, \<open>Commands\<close>,
    \<open>Select\<close> and \<open>Query\<close> are the handlers and the dispatch; \<open>Parameters\<close> is \<open>pkg/parameters.go\<close>.
  \<^item> \<open>PgWire\<close> and \<open>Postgres\<close> are \<open>pkg/postgres.go\<close>: encodings, one function per message, the loop, the
    start of a connection and its end; \<open>Mysql\<close> is \<open>pkg/mysql.go\<close>.  \<open>servePostgres\<close> and \<open>serveMySQL\<close>
    are whole connections.
  \<^item> \<open>Config\<close>, \<open>Server\<close> and \<open>Program\<close> are the configuration, the concurrent server as a step relation
    whose rules are the critical sections and the deferred calls, and the command line from its
    arguments to its exit code.

  A place where Go would panic (a nil pointer, a failed type assertion, an index out of range) is the
  error \<open>Panic\<close>, and a handler that meets one ends like any other error.  Nothing is lost by that: no
  message of a client leads to a \<open>Panic\<close>, which is proved in \<open>NoPanic\<close> and \<open>ConnSafe\<close>.
\<close>

text \<open>
  \<^bold>\<open>What is proved.\<close>
  \<^item> \<open>BindLex\<close>, \<open>LiteralText\<close>, \<open>BindSafe\<close>, \<open>BindProps\<close>: binding is lexing followed by rendering; values
    cannot change the tokens of a statement; string literals read back; prepare and execute agree.
  \<^item> \<open>SelectProps\<close>, \<open>FilterText\<close>, \<open>SelectRows\<close>, \<open>SelectAnswer\<close>: a plan is equivalent to its WHERE
    clause in three-valued logic, the filter text reads back as the condition, windows are bounded,
    the requests of a SELECT are reading calls faithful to the plan, and the result shows what Milvus
    returned.
  \<^item> \<open>Frames\<close>, \<open>SessionProps\<close>: the contract between session and handlers (locale \<open>session_frame\<close>),
    instantiated for contexts, results, databases and the describe mode; describing never executes.
  \<^item> \<open>InsertProps\<close>, \<open>DdlProps\<close>, \<open>CommandProps\<close>: types and exactness of stored values, transposition,
    all-or-nothing writes, validity of schemas and index parameters, the commands by name.
  \<^item> \<open>ParamProps\<close>, \<open>WireProps\<close>, \<open>PgProps\<close>, \<open>PgFlow\<close>, \<open>MysqlProps\<close>: parameter types, round trips on the
    wire, the invariant of a connection, the error discipline, the delivery of rows, no effect before
    Execute, and authentication.
  \<^item> \<open>NoPanic\<close>, \<open>ConnSafe\<close>: no statement, no PostgreSQL message and no MySQL command panics.
  \<^item> \<open>SessionLife\<close>: the client of a connection is closed once, and every remote call runs under the
    context of the connection with a deadline.
  \<^item> \<open>ServerProps\<close>: opening is all or nothing, \<open>Close\<close> reaches everything in every interleaving, \<open>Run\<close>
    returns last with the error of a failed loop, and after \<open>Close\<close> every run comes to its end by steps
    that no client can withhold (\<open>forced_step\<close>, \<open>must_return\<close>).  \<open>ServerSpec\<close>: the server refines an abstract service that is up,
    drains and stops.  \<open>ProgramProps\<close>: what a finished program leaves behind and its exit code.
  \<^item> \<open>Demo\<close> is a small service on which the theorems are instantiated.

  \<^bold>\<open>Bounds and fuel.\<close>  The recursion of \<open>handleQuery\<close> through UPSERT has fuel 2; it is proved that after
  two unfoldings nothing depends on a further call, and that \<open>handleQuery\<close> is the only solution of
  the recursion equation.  The reader of filter texts has the length of the text as fuel.  All other
  recursion ends by a measure.  The search for shortest float digits tries 17 digits, which is enough
  for every 64-bit number.

  \<^bold>\<open>Not modelled.\<close>  Code outside \<open>src/\<close> is a parameter: the SQL grammar and its printer, the SDK, the
  wire codecs of both protocols, YAML, flags, TLS and sockets.  Go's map iteration order matters once
  (the error \<open>buildIndex\<close> reports when several keys are invalid) and is fixed there.  Left out are
  logging, deadlines as time (contexts are values that calls carry) and a network write that fails
  (it ends a loop after any step).  The delivery of a signal is a \<open>Close\<close> that may happen at any time.
  Counts the SDK or the client reports (the hits of a search, the row limit of an Execute) are natural
  numbers.  The conversion of bytes to a string without a copy (\<open>hack.Slice\<close>) is a copy here.
\<close>

end
